(* ===== verification/Prelude.thy ===== *)
theory Prelude
  imports Complex_Main
begin

text \<open>
  Shared vocabulary of the development.

  The services are asynchronous TypeScript: a handler reads and writes the database,
  publishes on Redis, and may throw at every \<open>await\<close>. It is modelled as an \<^emph>\<open>action\<close>,
  a function from the state to a result and a new state. The result is \<open>Inl e\<close> for a
  thrown \<open>e\<close> and \<open>Inr x\<close> for a value; the state is kept when an exception is thrown,
  because what was written before the \<open>throw\<close> stays written. \<open>catchA\<close> is \<open>try/catch\<close>,
  \<open>atomicA\<close> is a database transaction (the state of a body that throws is dropped),
  \<open>forA\<close> and \<open>mapA\<close> are the \<open>for .. of\<close> loops.

  The second half is about tables: a table is the list of its rows, looked up and updated
  by a key column, with the laws clients use stated once in the locale \<open>row_store\<close>.
\<close>

section \<open>Automation\<close>

named_theorems act_defs
  \<open>the definitions of the action combinators, to run an action on a state\<close>

named_theorems run_rules
  \<open>rules that run the first call of a sequence, when its outcome on the state is known\<close>

named_theorems guar_rules
  \<open>rules that push a two-state guarantee through the action combinators\<close>


section \<open>Actions\<close>

type_synonym ('s, 'e, 'a) act = "'s \<Rightarrow> ('e + 'a) \<times> 's"

definition retA :: "'a \<Rightarrow> ('s, 'e, 'a) act" where
  "retA x s = (Inr x, s)"

definition throwA :: "'e \<Rightarrow> ('s, 'e, 'a) act" where
  "throwA e s = (Inl e, s)"

definition bindA :: "('s, 'e, 'a) act \<Rightarrow> ('a \<Rightarrow> ('s, 'e, 'b) act) \<Rightarrow> ('s, 'e, 'b) act" where
  "bindA m f s = (case m s of (Inl e, s') \<Rightarrow> (Inl e, s') | (Inr x, s') \<Rightarrow> f x s')"

definition thenA :: "('s, 'e, 'a) act \<Rightarrow> ('s, 'e, 'b) act \<Rightarrow> ('s, 'e, 'b) act" where
  "thenA m n = bindA m (\<lambda>_. n)"

definition readA :: "('s \<Rightarrow> 'a) \<Rightarrow> ('s, 'e, 'a) act" where
  "readA g s = (Inr (g s), s)"

definition modifyA :: "('s \<Rightarrow> 's) \<Rightarrow> ('s, 'e, unit) act" where
  "modifyA g s = (Inr (), g s)"

definition catchA :: "('s, 'e, 'a) act \<Rightarrow> ('e \<Rightarrow> ('s, 'e, 'a) act) \<Rightarrow> ('s, 'e, 'a) act" where
  "catchA m h s = (case m s of (Inl e, s') \<Rightarrow> h e s' | (Inr x, s') \<Rightarrow> (Inr x, s'))"

definition atomicA :: "('s, 'e, 'a) act \<Rightarrow> ('s, 'e, 'a) act" where
  "atomicA m s = (case m s of (Inl e, _) \<Rightarrow> (Inl e, s) | (Inr x, s') \<Rightarrow> (Inr x, s'))"

text \<open>\<open>if (!x) throw e\<close> on the result of a lookup, and \<open>if (c) throw e\<close>.\<close>

definition someA :: "'e \<Rightarrow> 'a option \<Rightarrow> ('s, 'e, 'a) act" where
  "someA e v = (case v of None \<Rightarrow> throwA e | Some x \<Rightarrow> retA x)"

definition unlessA :: "bool \<Rightarrow> 'e \<Rightarrow> ('s, 'e, unit) act" where
  "unlessA c e = (if c then retA () else throwA e)"

fun forA :: "('x \<Rightarrow> ('s, 'e, unit) act) \<Rightarrow> 'x list \<Rightarrow> ('s, 'e, unit) act" where
  "forA f [] = retA ()"
| "forA f (x # xs) = bindA (f x) (\<lambda>_. forA f xs)"

fun mapA :: "('x \<Rightarrow> ('s, 'e, 'y) act) \<Rightarrow> 'x list \<Rightarrow> ('s, 'e, 'y list) act" where
  "mapA f [] = retA []"
| "mapA f (x # xs) = bindA (f x) (\<lambda>y. bindA (mapA f xs) (\<lambda>ys. retA (y # ys)))"

lemmas act_run [act_defs] =
  retA_def throwA_def bindA_def thenA_def readA_def modifyA_def catchA_def atomicA_def
  someA_def unlessA_def

lemma bindA_assoc: "bindA (bindA m f) g = bindA m (\<lambda>x. bindA (f x) g)"
  by (rule ext) (auto simp: bindA_def split: prod.split sum.split)

lemma bindA_ret [simp]: "bindA (retA x) f = f x"
  by (rule ext) (simp add: bindA_def retA_def)

lemma bindA_throw [simp]: "bindA (throwA e) f = throwA e"
  by (rule ext) (simp add: bindA_def throwA_def)

lemma catchA_ret [simp]: "catchA (retA x) h = retA x"
  by (rule ext) (simp add: catchA_def retA_def)

lemma catchA_throw [simp]: "catchA (throwA e) h = h e"
  by (rule ext) (simp add: catchA_def throwA_def)

text \<open>Running a sequence call by call.\<close>

lemma bindA_run [run_rules]:
  "m s = (Inr x, t) \<Longrightarrow> bindA m f s = f x t"
  "m s = (Inl e, t) \<Longrightarrow> bindA m f s = (Inl e, t)"
  by (simp_all add: bindA_def)

lemma bindA_read [run_rules]: "bindA (readA g) f s = f (g s) s"
  by (simp add: bindA_def readA_def)

lemma bindA_modify [run_rules]: "bindA (modifyA g) f s = f () (g s)"
  by (simp add: bindA_def modifyA_def)

lemma someA_run [run_rules]: "someA e (Some x) = retA x" "someA e None = throwA e"
  by (simp_all add: someA_def)

lemma unlessA_run [run_rules]: "c \<Longrightarrow> unlessA c e = retA ()" "\<not> c \<Longrightarrow> unlessA c e = throwA e"
  by (simp_all add: unlessA_def)

lemma end_run [run_rules]: "retA x s = (Inr x, s)" "throwA e s = (Inl e, s)"
  by (simp_all add: retA_def throwA_def)

lemma atomicA_run [run_rules]:
  "m s = (Inr x, t) \<Longrightarrow> atomicA m s = (Inr x, t)"
  "m s = (Inl e, t) \<Longrightarrow> atomicA m s = (Inl e, s)"
  by (simp_all add: atomicA_def)

lemma atomicA_Inl: "atomicA m s = (Inl e, s') \<Longrightarrow> s' = s"
  by (auto simp: atomicA_def split: prod.splits sum.splits)

lemma mapA_length: "mapA f xs s = (Inr ys, s') \<Longrightarrow> length ys = length xs"
  by (induction xs arbitrary: s ys s')
    (auto simp: act_defs split: prod.splits sum.splits)


section \<open>Guarantees: what an action may do to the state\<close>

text \<open>
  \<open>guar R m\<close>: from every state, whatever the outcome, the state \<open>m\<close> leaves is related by
  \<open>R\<close> to the one it found. A frame condition (\<open>some part of the state is unchanged\<close>) and
  the preservation of an invariant are both instances.
\<close>

definition guar :: "('s \<Rightarrow> 's \<Rightarrow> bool) \<Rightarrow> ('s, 'e, 'a) act \<Rightarrow> bool" where
  "guar R m \<longleftrightarrow> (\<forall>s. R s (snd (m s)))"

lemma guarI: "(\<And>s. R s (snd (m s))) \<Longrightarrow> guar R m"
  by (simp add: guar_def)

lemma guarD: "guar R m \<Longrightarrow> R s (snd (m s))"
  by (simp add: guar_def)

lemma guarD': "guar R m \<Longrightarrow> m s = (r, t) \<Longrightarrow> R s t"
  by (drule guarD [of R m s]) simp

locale two_state =
  fixes R :: "'s \<Rightarrow> 's \<Rightarrow> bool"
  assumes refl_R: "R s s"
    and trans_R: "R s t \<Longrightarrow> R t u \<Longrightarrow> R s u"
begin

lemma ret_guar: "guar R (retA x)"
  by (simp add: guar_def retA_def refl_R)

lemma throw_guar: "guar R (throwA e)"
  by (simp add: guar_def throwA_def refl_R)

lemma read_guar: "guar R (readA g)"
  by (simp add: guar_def readA_def refl_R)

lemma some_guar: "guar R (someA e v)"
  by (cases v) (simp_all add: someA_def ret_guar throw_guar)

lemma unless_guar: "guar R (unlessA c e)"
  by (simp add: unlessA_def ret_guar throw_guar)

lemma bind_guar:
  assumes "guar R m" and "\<And>x. guar R (f x)"
  shows "guar R (bindA m f)"
proof (rule guarI)
  fix s
  obtain r t where m: "m s = (r, t)" by (cases "m s")
  with assms(1) have "R s t" by (rule guarD')
  then show "R s (snd (bindA m f s))"
    using m guarD [OF assms(2)] by (auto simp: bindA_def intro: trans_R split: sum.split)
qed

lemma then_guar: "guar R m \<Longrightarrow> guar R n \<Longrightarrow> guar R (thenA m n)"
  by (simp add: thenA_def bind_guar)

lemma catch_guar:
  assumes "guar R m" and "\<And>e. guar R (h e)"
  shows "guar R (catchA m h)"
proof (rule guarI)
  fix s
  obtain r t where m: "m s = (r, t)" by (cases "m s")
  with assms(1) have "R s t" by (rule guarD')
  then show "R s (snd (catchA m h s))"
    using m guarD [OF assms(2)] by (auto simp: catchA_def intro: trans_R split: sum.split)
qed

lemma atomic_guar: "guar R m \<Longrightarrow> guar R (atomicA m)"
  by (rule guarI)
    (auto simp: atomicA_def refl_R split: prod.split sum.split dest: guarD')

lemma for_guar: "(\<And>x. x \<in> set xs \<Longrightarrow> guar R (f x)) \<Longrightarrow> guar R (forA f xs)"
  by (induction xs) (auto intro: bind_guar ret_guar)

lemma map_guar: "(\<And>x. x \<in> set xs \<Longrightarrow> guar R (f x)) \<Longrightarrow> guar R (mapA f xs)"
  by (induction xs) (auto intro!: bind_guar ret_guar)

lemmas guar_combinators =
  ret_guar throw_guar read_guar some_guar unless_guar bind_guar then_guar catch_guar
  atomic_guar for_guar map_guar

end

text \<open>Keeping a state predicate, and keeping the value of a part of the state.\<close>

interpretation keeps: two_state "\<lambda>s t. I s \<longrightarrow> I t" for I :: "'s \<Rightarrow> bool"
  by unfold_locales auto

interpretation frame: two_state "\<lambda>s t. f t = f s" for f :: "'s \<Rightarrow> 'v"
  by unfold_locales auto

declare keeps.guar_combinators [guar_rules] frame.guar_combinators [guar_rules]


section \<open>Tables\<close>

text \<open>
  A table is the list of its rows. The list order stands for the order in which the
  database happens to scan the rows, which SQL leaves open: a theorem about every table
  is a theorem about every scan order.
\<close>

definition find_by :: "('r \<Rightarrow> 'k) \<Rightarrow> 'k \<Rightarrow> 'r list \<Rightarrow> 'r option" where
  "find_by key k rows = find (\<lambda>r. key r = k) rows"

definition update_by :: "('r \<Rightarrow> 'k) \<Rightarrow> 'k \<Rightarrow> ('r \<Rightarrow> 'r) \<Rightarrow> 'r list \<Rightarrow> 'r list" where
  "update_by key k f rows = map (\<lambda>r. if key r = k then f r else r) rows"

definition update_where :: "('r \<Rightarrow> bool) \<Rightarrow> ('r \<Rightarrow> 'r) \<Rightarrow> 'r list \<Rightarrow> 'r list" where
  "update_where p f rows = map (\<lambda>r. if p r then f r else r) rows"

definition count_where :: "('r \<Rightarrow> bool) \<Rightarrow> 'r list \<Rightarrow> nat" where
  "count_where p rows = length (filter p rows)"

lemma find_by_Nil [simp]: "find_by key k [] = None"
  by (simp add: find_by_def)

lemma find_by_Cons [simp]:
  "find_by key k (r # rows) = (if key r = k then Some r else find_by key k rows)"
  by (simp add: find_by_def)

lemma find_by_append:
  "find_by key k (xs @ ys) = (case find_by key k xs of None \<Rightarrow> find_by key k ys | Some r \<Rightarrow> Some r)"
  by (induction xs) auto

lemma find_by_SomeD: "find_by key k rows = Some r \<Longrightarrow> r \<in> set rows \<and> key r = k"
  by (induction rows) (auto split: if_splits)

lemma find_by_None_iff: "find_by key k rows = None \<longleftrightarrow> k \<notin> key ` set rows"
  by (induction rows) auto

lemma find_by_distinct:
  "distinct (map key rows) \<Longrightarrow> r \<in> set rows \<Longrightarrow> find_by key (key r) rows = Some r"
  by (induction rows) (auto simp: image_iff)

lemma map_key_update_by:
  "(\<And>r. key (f r) = key r) \<Longrightarrow> map key (update_by key k f rows) = map key rows"
  by (simp add: update_by_def)

lemma find_by_update_by:
  assumes "\<And>r. key (f r) = key r"
  shows "find_by key k' (update_by key k f rows) =
    (if k' = k then map_option f (find_by key k rows) else find_by key k' rows)"
  using assms by (induction rows) (auto simp: update_by_def)

lemma find_by_update_where:
  assumes "\<And>r. key (f r) = key r"
  shows "find_by key k (update_where p f rows) =
    map_option (\<lambda>r. if p r then f r else r) (find_by key k rows)"
  using assms by (induction rows) (auto simp: update_where_def)

lemma map_key_update_where:
  "(\<And>r. key (f r) = key r) \<Longrightarrow> map key (update_where p f rows) = map key rows"
  by (simp add: update_where_def)

lemma count_where_append [simp]:
  "count_where p (xs @ ys) = count_where p xs + count_where p ys"
  by (simp add: count_where_def)

lemma count_where_mono: "(\<And>r. r \<in> set rows \<Longrightarrow> p r \<Longrightarrow> q r) \<Longrightarrow> count_where p rows \<le> count_where q rows"
  by (induction rows) (auto simp: count_where_def)

text \<open>
  The contract a table gives its clients: a row is found under its own key, an update is
  seen by the next lookup of that key and by no other. \<open>sets k\<close> says that an update does
  not change the key column.
\<close>

definition keeps_key :: "('r \<Rightarrow> 'k) \<Rightarrow> ('r \<Rightarrow> 'r) \<Rightarrow> bool" where
  "keeps_key key f \<longleftrightarrow> (\<forall>r. key (f r) = key r)"

lemma keeps_keyI [intro?, simp]: "(\<And>r. key (f r) = key r) \<Longrightarrow> keeps_key key f"
  by (simp add: keeps_key_def)

locale row_store =
  fixes get :: "'w \<Rightarrow> 'k \<Rightarrow> 'r option"
    and put :: "'k \<Rightarrow> ('r \<Rightarrow> 'r) \<Rightarrow> 'w \<Rightarrow> 'w"
    and key :: "'r \<Rightarrow> 'k"
  assumes get_key: "get w k = Some r \<Longrightarrow> key r = k"
    and get_put_same: "keeps_key key f \<Longrightarrow> get (put k f w) k = map_option f (get w k)"
    and get_put_other: "keeps_key key f \<Longrightarrow> k' \<noteq> k \<Longrightarrow> get (put k f w) k' = get w k'"
begin

lemma get_put:
  "keeps_key key f \<Longrightarrow>
    get (put k f w) k' = (if k' = k then map_option f (get w k) else get w k')"
  by (simp add: get_put_same get_put_other)

lemma put_keeps_presence:
  "keeps_key key f \<Longrightarrow> (get (put k f w) k' = None) = (get w k' = None)"
  by (simp add: get_put)

text \<open>Updating each key of a list in turn touches the rows of the list once each.\<close>

lemma get_fold_put:
  assumes "\<And>i. keeps_key key (f i)" and "distinct ks"
  shows "get (fold (\<lambda>i. put i (f i)) ks w) k =
    (if k \<in> set ks then map_option (f k) (get w k) else get w k)"
  using assms(2) by (induction ks arbitrary: w) (auto simp: get_put assms(1))

lemma get_fold_put_other:
  assumes "\<And>i. keeps_key key (f i)" and "k \<notin> set ks"
  shows "get (fold (\<lambda>i. put i (f i)) ks w) k = get w k"
  using assms(2) by (induction ks arbitrary: w) (auto simp: get_put assms(1))

end

end
