(* ===== verification/Schema.thy ===== *)
theory Schema
  imports Prelude
begin

text \<open>
  The data of the system: the enums and models of \<open>prisma/schema.prisma\<close> with the unique and
  foreign-key constraints of the migration, the state all services share (\<open>world\<close>: the
  PostgreSQL tables and what went over Redis), and the Prisma calls the code makes, as actions
  that throw the documented error codes (P2002 unique constraint, P2003 foreign key, P2025
  record not found; \<open>api/src/index.ts\<close> itself tests for P2002).

  Time is an integer number of milliseconds. A \<open>JDate t\<close> is the string \<open>toISOString()\<close> makes
  of the instant \<open>t\<close>. What no source decides is an argument, the record \<open>env\<close>: at each call
  point, whether the call to the database or to Redis throws, what the clock reads, which id
  \<open>cuid()\<close> or the database default generates.
\<close>

section \<open>Values\<close>

type_synonym ident = string
type_synonym timestamp = int

datatype json =
    JNull
  | JBool bool
  | JNum rat
  | JStr string
  | JDate timestamp
  | JArr "json list"
  | JObj "(string \<times> json) list"

text \<open>Reading a property of a value: \<open>None\<close> is \<open>undefined\<close>.\<close>

fun jget :: "json \<Rightarrow> string \<Rightarrow> json option" where
  "jget (JObj fs) k = map_of fs k"
| "jget _ k = None"

definition jopt :: "string \<Rightarrow> json option \<Rightarrow> (string \<times> json) list" where
  \<comment> \<open>an object field: \<open>JSON.stringify\<close> drops the ones that are \<open>undefined\<close>\<close>
  "jopt k v = (case v of None \<Rightarrow> [] | Some x \<Rightarrow> [(k, x)])"

definition jint :: "int \<Rightarrow> json" where
  "jint i = JNum (of_int i)"

definition json_int :: "json \<Rightarrow> int option" where
  \<comment> \<open>a JSON value as a database \<open>Int\<close>: an integral number of 32 bits\<close>
  "json_int v = (case v of
     JNum q \<Rightarrow> (if of_int \<lfloor>q\<rfloor> = q \<and> - (2 ^ 31) \<le> \<lfloor>q\<rfloor> \<and> \<lfloor>q\<rfloor> < 2 ^ 31 then Some \<lfloor>q\<rfloor> else None)
   | _ \<Rightarrow> None)"

lemma json_int_jint [simp]: "- (2 ^ 31) \<le> i \<Longrightarrow> i < 2 ^ 31 \<Longrightarrow> json_int (jint i) = Some i"
  by (simp add: json_int_def jint_def)


section \<open>Enums\<close>

datatype JobStatus =
  Queued | Scheduled | Claimed | Running | Completed | Failed | Dead_letter | Cancelled

datatype WorkerStatus = Active | Draining | Dead

datatype RetryStrategy = Fixed | Linear | Exponential

datatype OrgMemberRole = Owner | Admin | Member

datatype UserRole = User_admin | User_member

fun status_name :: "JobStatus \<Rightarrow> string" where
  "status_name Queued = ''queued''"
| "status_name Scheduled = ''scheduled''"
| "status_name Claimed = ''claimed''"
| "status_name Running = ''running''"
| "status_name Completed = ''completed''"
| "status_name Failed = ''failed''"
| "status_name Dead_letter = ''dead_letter''"
| "status_name Cancelled = ''cancelled''"

lemma status_name_inject [simp]: "status_name a = status_name b \<longleftrightarrow> a = b"
  by (cases a; cases b) simp_all

text \<open>The order of an enum column in \<open>ORDER BY\<close> is the order of its declaration.\<close>

fun worker_status_rank :: "WorkerStatus \<Rightarrow> nat" where
  "worker_status_rank Active = 0"
| "worker_status_rank Draining = 1"
| "worker_status_rank Dead = 2"

lemma worker_status_rank_inject [simp]: "worker_status_rank a = worker_status_rank b \<longleftrightarrow> a = b"
  by (cases a; cases b) simp_all

instantiation WorkerStatus :: linorder
begin

definition less_eq_WorkerStatus :: "WorkerStatus \<Rightarrow> WorkerStatus \<Rightarrow> bool" where
  "less_eq_WorkerStatus a b \<longleftrightarrow> worker_status_rank a \<le> worker_status_rank b"

definition less_WorkerStatus :: "WorkerStatus \<Rightarrow> WorkerStatus \<Rightarrow> bool" where
  "less_WorkerStatus a b \<longleftrightarrow> worker_status_rank a < worker_status_rank b"

instance
  by standard (auto simp: less_eq_WorkerStatus_def less_WorkerStatus_def)

end


section \<open>Models\<close>

record User =
  u_id :: ident
  u_email :: string
  u_passwordHash :: string
  u_role :: UserRole
  u_createdAt :: timestamp

record Organization =
  o_id :: ident
  o_name :: string
  o_ownerId :: ident

record OrgMembership =
  m_orgId :: ident
  m_userId :: ident
  m_role :: OrgMemberRole

record Project =
  p_id :: ident
  p_orgId :: ident
  p_name :: string
  p_apiKey :: string
  p_createdAt :: timestamp

record RetryPolicy =
  rp_id :: ident
  rp_projectId :: ident
  rp_strategy :: RetryStrategy
  rp_baseDelayMs :: int
  rp_maxDelayMs :: int
  rp_maxAttempts :: int

record Queue =
  q_id :: ident
  q_projectId :: ident
  q_name :: string
  q_priority :: int
  q_concurrencyLimit :: int
  q_isPaused :: bool
  q_defaultRetryPolicyId :: "ident option"
  q_createdAt :: timestamp

record Job =
  j_id :: ident
  j_queueId :: ident
  j_type :: string
  j_payload :: json
  j_status :: JobStatus
  j_priority :: int
  j_runAt :: timestamp
  j_batchId :: "ident option"
  j_attemptCount :: int
  j_retryPolicyId :: "ident option"
  j_idempotencyKey :: "string option"
  j_createdAt :: timestamp
  j_updatedAt :: timestamp

record JobExecution =
  x_id :: ident
  x_jobId :: ident
  x_workerId :: ident
  x_attemptNumber :: int
  x_startedAt :: timestamp
  x_finishedAt :: "timestamp option"
  x_status :: string
  x_errorMessage :: "string option"
  x_durationMs :: "int option"

record JobLog =
  l_executionId :: ident
  l_timestamp :: timestamp
  l_level :: string
  l_message :: string

record Worker =
  wk_id :: ident
  wk_hostname :: string
  wk_pid :: int
  wk_status :: WorkerStatus
  wk_startedAt :: timestamp
  wk_lastHeartbeatAt :: timestamp

record WorkerHeartbeat =
  hb_id :: ident
  hb_workerId :: ident
  hb_timestamp :: timestamp
  hb_activeJobCount :: int
  hb_cpuLoad :: rat

record ScheduledJob =
  s_id :: ident
  s_projectId :: ident
  s_cronExpression :: string
  s_queueId :: ident
  s_jobTemplate :: json
  s_isActive :: bool
  s_lastRunAt :: "timestamp option"
  s_nextRunAt :: "timestamp option"
  s_createdAt :: timestamp

record DeadLetterJob =
  d_originalJobId :: ident
  d_queueId :: ident
  d_payload :: json
  d_failureReason :: string
  d_attemptCount :: int
  d_movedAt :: timestamp


section \<open>The shared state\<close>

record world =
  users :: "User list"
  organizations :: "Organization list"
  org_memberships :: "OrgMembership list"
  projects :: "Project list"
  retry_policies :: "RetryPolicy list"
  queues :: "Queue list"
  jobs :: "Job list"
  job_executions :: "JobExecution list"
  job_logs :: "JobLog list"
  workers :: "Worker list"
  worker_heartbeats :: "WorkerHeartbeat list"
  scheduled_jobs :: "ScheduledJob list"
  dead_letter_jobs :: "DeadLetterJob list"
  published :: "(string \<times> json) list"  \<comment> \<open>Redis messages, (channel, event), oldest first\<close>
  refresh_jtis :: "(string \<times> timestamp) list"  \<comment> \<open>Redis keys \<open>refresh:jti:..\<close> with their expiry\<close>

definition empty_world :: world where
  "empty_world = \<lparr>users = [], organizations = [], org_memberships = [], projects = [],
     retry_policies = [], queues = [], jobs = [], job_executions = [], job_logs = [],
     workers = [], worker_heartbeats = [], scheduled_jobs = [], dead_letter_jobs = [],
     published = [], refresh_jtis = []\<rparr>"


section \<open>Errors, and what the environment decides\<close>

datatype js_error =
    ChronosError (err_code: string) (err_message: string) (err_statusCode: int)
      (err_details: "json option")
  | PrismaError (prisma_code: string) (prisma_message: string)
  | FastifyValidationError (validation: json)
  | PlainError (plain_message: string)

type_synonym 'a action = "(world, js_error, 'a) act"

record 'p env =
  fails :: "'p \<Rightarrow> js_error option"  \<comment> \<open>the external call made here throws\<close>
  clock :: "'p \<Rightarrow> timestamp"        \<comment> \<open>what \<open>new Date()\<close> or \<open>now()\<close> reads here\<close>
  fresh :: "'p \<Rightarrow> ident"            \<comment> \<open>the id generated for a row created here\<close>

definition callA :: "('p, 'z) env_scheme \<Rightarrow> 'p \<Rightarrow> 'a action \<Rightarrow> 'a action" where
  "callA env p m = (case fails env p of Some e \<Rightarrow> throwA e | None \<Rightarrow> m)"

lemma callA_ok [simp]: "fails env p = None \<Longrightarrow> callA env p m = m"
  by (simp add: callA_def)

lemma callA_fail [simp]: "fails env p = Some e \<Longrightarrow> callA env p m = throwA e"
  by (simp add: callA_def)

context two_state
begin

lemma if_guar: "(c \<Longrightarrow> guar R m) \<Longrightarrow> (\<not> c \<Longrightarrow> guar R n) \<Longrightarrow> guar R (if c then m else n)"
  by simp

lemma option_guar:
  "(v = None \<Longrightarrow> guar R m) \<Longrightarrow> (\<And>x. v = Some x \<Longrightarrow> guar R (f x)) \<Longrightarrow>
    guar R (case v of None \<Rightarrow> m | Some x \<Rightarrow> f x)"
  by (cases v) simp_all

lemma modify_guar: "(\<And>s. R s (g s)) \<Longrightarrow> guar R (modifyA g)"
  by (simp add: guar_def modifyA_def)

end

lemma call_guar: "two_state R \<Longrightarrow> guar R m \<Longrightarrow> guar R (callA env p m)"
  by (simp add: callA_def two_state.throw_guar split: option.split)

text \<open>What a read returns can be used in the rest of the action.\<close>

lemma keeps_read:
  assumes "\<And>s. I s \<Longrightarrow> Q (g s)" and "\<And>x. Q x \<Longrightarrow> guar (\<lambda>s t. I s \<longrightarrow> I t) (f x)"
  shows "guar (\<lambda>s t. I s \<longrightarrow> I t) (bindA (callA env p (readA g)) f)"
  using assms by (auto simp: guar_def bindA_def callA_def readA_def throwA_def split: option.split)

lemmas call_guar_keeps [guar_rules] = call_guar [OF keeps.two_state_axioms]
lemmas call_guar_frame [guar_rules] = call_guar [OF frame.two_state_axioms]

declare keeps.if_guar [guar_rules] keeps.option_guar [guar_rules] keeps.modify_guar [guar_rules]
  frame.if_guar [guar_rules] frame.option_guar [guar_rules] frame.modify_guar [guar_rules]


section \<open>Prisma calls\<close>

definition uniqueViolation :: js_error where
  "uniqueViolation = PrismaError ''P2002'' ''Unique constraint failed''"

definition foreignKeyViolation :: js_error where
  "foreignKeyViolation = PrismaError ''P2003'' ''Foreign key constraint failed''"

definition recordNotFound :: js_error where
  "recordNotFound = PrismaError ''P2025'' ''Record to update not found.''"

subsection \<open>Jobs\<close>

definition job_find :: "world \<Rightarrow> ident \<Rightarrow> Job option" where
  "job_find w i = find_by j_id i (jobs w)"

definition job_put :: "ident \<Rightarrow> (Job \<Rightarrow> Job) \<Rightarrow> world \<Rightarrow> world" where
  "job_put i f w = w\<lparr>jobs := update_by j_id i f (jobs w)\<rparr>"

text \<open>\<open>prisma.job.update\<close>: the row as updated, or P2025.\<close>

definition job_update :: "ident \<Rightarrow> (Job \<Rightarrow> Job) \<Rightarrow> Job action" where
  "job_update i f w = (case job_find w i of
     None \<Rightarrow> (Inl recordNotFound, w)
   | Some j \<Rightarrow> (Inr (f j), job_put i f w))"

definition idem_clash :: "Job \<Rightarrow> Job \<Rightarrow> bool" where
  \<comment> \<open>the unique index (queue_id, idempotency_key), in which NULLs are distinct\<close>
  "idem_clash a b \<longleftrightarrow>
     j_queueId a = j_queueId b \<and> j_idempotencyKey a \<noteq> None \<and> j_idempotencyKey a = j_idempotencyKey b"

definition queue_find :: "world \<Rightarrow> ident \<Rightarrow> Queue option" where
  "queue_find w i = find_by q_id i (queues w)"

definition policy_find :: "world \<Rightarrow> ident \<Rightarrow> RetryPolicy option" where
  "policy_find w i = find_by rp_id i (retry_policies w)"

definition job_create :: "Job \<Rightarrow> Job action" where
  "job_create j w =
     (if job_find w (j_id j) \<noteq> None \<or> list_ex (idem_clash j) (jobs w)
      then (Inl uniqueViolation, w)
      else if queue_find w (j_queueId j) = None \<or>
              (case j_retryPolicyId j of None \<Rightarrow> False | Some p \<Rightarrow> policy_find w p = None)
      then (Inl foreignKeyViolation, w)
      else (Inr j, w\<lparr>jobs := jobs w @ [j]\<rparr>))"

interpretation job_store: row_store job_find job_put j_id
  by unfold_locales
    (auto simp: job_find_def job_put_def find_by_update_by keeps_key_def dest: find_by_SomeD)

subsection \<open>Executions and their logs\<close>

definition exec_find :: "world \<Rightarrow> ident \<Rightarrow> JobExecution option" where
  "exec_find w i = find_by x_id i (job_executions w)"

definition exec_put :: "ident \<Rightarrow> (JobExecution \<Rightarrow> JobExecution) \<Rightarrow> world \<Rightarrow> world" where
  "exec_put i f w = w\<lparr>job_executions := update_by x_id i f (job_executions w)\<rparr>"

definition exec_update :: "ident \<Rightarrow> (JobExecution \<Rightarrow> JobExecution) \<Rightarrow> unit action" where
  "exec_update i f w = (case exec_find w i of
     None \<Rightarrow> (Inl recordNotFound, w)
   | Some _ \<Rightarrow> (Inr (), exec_put i f w))"

definition worker_find :: "world \<Rightarrow> ident \<Rightarrow> Worker option" where
  "worker_find w i = find_by wk_id i (workers w)"

definition worker_create :: "Worker \<Rightarrow> Worker action" where
  "worker_create v w =
     (if worker_find w (wk_id v) \<noteq> None then (Inl uniqueViolation, w)
      else (Inr v, w\<lparr>workers := workers w @ [v]\<rparr>))"

definition exec_create :: "JobExecution \<Rightarrow> JobExecution action" where
  "exec_create x w =
     (if exec_find w (x_id x) \<noteq> None then (Inl uniqueViolation, w)
      else if job_find w (x_jobId x) = None \<or> worker_find w (x_workerId x) = None
      then (Inl foreignKeyViolation, w)
      else (Inr x, w\<lparr>job_executions := job_executions w @ [x]\<rparr>))"

definition log_create :: "JobLog \<Rightarrow> unit action" where
  "log_create l w =
     (if exec_find w (l_executionId l) = None then (Inl foreignKeyViolation, w)
      else (Inr (), w\<lparr>job_logs := job_logs w @ [l]\<rparr>))"

interpretation exec_store: row_store exec_find exec_put x_id
  by unfold_locales
    (auto simp: exec_find_def exec_put_def find_by_update_by keeps_key_def dest: find_by_SomeD)

subsection \<open>Dead letters\<close>

definition dlq_find :: "world \<Rightarrow> ident \<Rightarrow> DeadLetterJob option" where
  "dlq_find w i = find_by d_originalJobId i (dead_letter_jobs w)"

definition dlq_create :: "DeadLetterJob \<Rightarrow> unit action" where
  "dlq_create d w =
     (if dlq_find w (d_originalJobId d) \<noteq> None then (Inl uniqueViolation, w)
      else if job_find w (d_originalJobId d) = None then (Inl foreignKeyViolation, w)
      else (Inr (), w\<lparr>dead_letter_jobs := dead_letter_jobs w @ [d]\<rparr>))"

definition dlq_delete :: "ident \<Rightarrow> unit action" where
  "dlq_delete i w = (case dlq_find w i of
     None \<Rightarrow> (Inl recordNotFound, w)
   | Some _ \<Rightarrow> (Inr (), w\<lparr>dead_letter_jobs := filter (\<lambda>d. d_originalJobId d \<noteq> i) (dead_letter_jobs w)\<rparr>))"

subsection \<open>Workers, scheduled jobs, queues\<close>

definition worker_put :: "ident \<Rightarrow> (Worker \<Rightarrow> Worker) \<Rightarrow> world \<Rightarrow> world" where
  "worker_put i f w = w\<lparr>workers := update_by wk_id i f (workers w)\<rparr>"

definition worker_update :: "ident \<Rightarrow> (Worker \<Rightarrow> Worker) \<Rightarrow> unit action" where
  "worker_update i f w = (case worker_find w i of
     None \<Rightarrow> (Inl recordNotFound, w)
   | Some _ \<Rightarrow> (Inr (), worker_put i f w))"

definition sched_find :: "world \<Rightarrow> ident \<Rightarrow> ScheduledJob option" where
  "sched_find w i = find_by s_id i (scheduled_jobs w)"

definition sched_put :: "ident \<Rightarrow> (ScheduledJob \<Rightarrow> ScheduledJob) \<Rightarrow> world \<Rightarrow> world" where
  "sched_put i f w = w\<lparr>scheduled_jobs := update_by s_id i f (scheduled_jobs w)\<rparr>"

definition sched_update :: "ident \<Rightarrow> (ScheduledJob \<Rightarrow> ScheduledJob) \<Rightarrow> unit action" where
  "sched_update i f w = (case sched_find w i of
     None \<Rightarrow> (Inl recordNotFound, w)
   | Some _ \<Rightarrow> (Inr (), sched_put i f w))"

definition queue_put :: "ident \<Rightarrow> (Queue \<Rightarrow> Queue) \<Rightarrow> world \<Rightarrow> world" where
  "queue_put i f w = w\<lparr>queues := update_by q_id i f (queues w)\<rparr>"

interpretation worker_store: row_store worker_find worker_put wk_id
  by unfold_locales
    (auto simp: worker_find_def worker_put_def find_by_update_by keeps_key_def dest: find_by_SomeD)

interpretation sched_store: row_store sched_find sched_put s_id
  by unfold_locales
    (auto simp: sched_find_def sched_put_def find_by_update_by keeps_key_def dest: find_by_SomeD)

interpretation queue_store: row_store queue_find queue_put q_id
  by unfold_locales
    (auto simp: queue_find_def queue_put_def find_by_update_by keeps_key_def dest: find_by_SomeD)

subsection \<open>Redis\<close>

definition publish :: "string \<Rightarrow> (string \<times> json) list \<Rightarrow> unit action" where
  "publish channel event = modifyA (\<lambda>w. w\<lparr>published := published w @ [(channel, JObj event)]\<rparr>)"

subsection \<open>Which part of the state a call looks at\<close>

lemma job_find_frame [simp]:
  "job_find (w\<lparr>job_executions := xs\<rparr>) i = job_find w i"
  "job_find (w\<lparr>job_logs := ls\<rparr>) i = job_find w i"
  "job_find (w\<lparr>dead_letter_jobs := ds\<rparr>) i = job_find w i"
  "job_find (w\<lparr>published := es\<rparr>) i = job_find w i"
  "job_find (w\<lparr>workers := ws\<rparr>) i = job_find w i"
  "job_find (w\<lparr>worker_heartbeats := hs\<rparr>) i = job_find w i"
  "job_find (w\<lparr>scheduled_jobs := ss\<rparr>) i = job_find w i"
  "job_find (w\<lparr>queues := qs\<rparr>) i = job_find w i"
  "job_find (exec_put k g w) i = job_find w i"
  "job_find (worker_put k h w) i = job_find w i"
  "job_find (sched_put k m w) i = job_find w i"
  by (simp_all add: job_find_def exec_put_def worker_put_def sched_put_def)

lemma exec_find_frame [simp]:
  "exec_find (w\<lparr>jobs := xs\<rparr>) i = exec_find w i"
  "exec_find (w\<lparr>job_logs := ls\<rparr>) i = exec_find w i"
  "exec_find (w\<lparr>dead_letter_jobs := ds\<rparr>) i = exec_find w i"
  "exec_find (w\<lparr>published := es\<rparr>) i = exec_find w i"
  "exec_find (w\<lparr>workers := ws\<rparr>) i = exec_find w i"
  "exec_find (job_put k g w) i = exec_find w i"
  "exec_find (worker_put k h w) i = exec_find w i"
  by (simp_all add: exec_find_def job_put_def worker_put_def)

lemma dlq_find_frame [simp]:
  "dlq_find (w\<lparr>jobs := xs\<rparr>) i = dlq_find w i"
  "dlq_find (w\<lparr>job_executions := xs'\<rparr>) i = dlq_find w i"
  "dlq_find (w\<lparr>job_logs := ls\<rparr>) i = dlq_find w i"
  "dlq_find (w\<lparr>published := es\<rparr>) i = dlq_find w i"
  "dlq_find (w\<lparr>workers := ws\<rparr>) i = dlq_find w i"
  "dlq_find (w\<lparr>worker_heartbeats := hs\<rparr>) i = dlq_find w i"
  "dlq_find (w\<lparr>scheduled_jobs := ss\<rparr>) i = dlq_find w i"
  "dlq_find (job_put k g w) i = dlq_find w i"
  "dlq_find (exec_put k h w) i = dlq_find w i"
  "dlq_find (worker_put k h' w) i = dlq_find w i"
  by (simp_all add: dlq_find_def job_put_def exec_put_def worker_put_def)

lemma worker_find_frame [simp]:
  "worker_find (w\<lparr>jobs := xs\<rparr>) i = worker_find w i"
  "worker_find (w\<lparr>job_executions := xs'\<rparr>) i = worker_find w i"
  "worker_find (w\<lparr>job_logs := ls\<rparr>) i = worker_find w i"
  "worker_find (w\<lparr>dead_letter_jobs := ds\<rparr>) i = worker_find w i"
  "worker_find (w\<lparr>published := es\<rparr>) i = worker_find w i"
  "worker_find (w\<lparr>worker_heartbeats := hs\<rparr>) i = worker_find w i"
  "worker_find (job_put k g w) i = worker_find w i"
  "worker_find (exec_put k h w) i = worker_find w i"
  by (simp_all add: worker_find_def job_put_def exec_put_def)

lemma config_find_frame [simp]:
  "queue_find (w\<lparr>jobs := xs\<rparr>) i = queue_find w i"
  "queue_find (w\<lparr>job_executions := xs'\<rparr>) i = queue_find w i"
  "queue_find (w\<lparr>job_logs := ls\<rparr>) i = queue_find w i"
  "queue_find (w\<lparr>dead_letter_jobs := ds\<rparr>) i = queue_find w i"
  "queue_find (w\<lparr>published := es\<rparr>) i = queue_find w i"
  "queue_find (job_put k g w) i = queue_find w i"
  "queue_find (exec_put k h w) i = queue_find w i"
  "policy_find (w\<lparr>jobs := xs\<rparr>) i = policy_find w i"
  "policy_find (w\<lparr>job_executions := xs'\<rparr>) i = policy_find w i"
  "policy_find (w\<lparr>job_logs := ls\<rparr>) i = policy_find w i"
  "policy_find (w\<lparr>dead_letter_jobs := ds\<rparr>) i = policy_find w i"
  "policy_find (w\<lparr>published := es\<rparr>) i = policy_find w i"
  "policy_find (job_put k g w) i = policy_find w i"
  "policy_find (exec_put k h w) i = policy_find w i"
  by (simp_all add: queue_find_def policy_find_def job_put_def exec_put_def)

lemma job_put_fields [simp]:
  "job_logs (job_put i f w) = job_logs w"
  "job_executions (job_put i f w) = job_executions w"
  "dead_letter_jobs (job_put i f w) = dead_letter_jobs w"
  "published (job_put i f w) = published w"
  "job_logs (exec_put x g w) = job_logs w"
  "jobs (exec_put x g w) = jobs w"
  "dead_letter_jobs (exec_put x g w) = dead_letter_jobs w"
  "published (exec_put x g w) = published w"
  by (simp_all add: job_put_def exec_put_def)

lemma find_append_new:
  "exec_find (w\<lparr>job_executions := job_executions w @ [x]\<rparr>) i =
    (case exec_find w i of None \<Rightarrow> if x_id x = i then Some x else None | Some y \<Rightarrow> Some y)"
  "dlq_find (w\<lparr>dead_letter_jobs := dead_letter_jobs w @ [d]\<rparr>) i =
    (case dlq_find w i of None \<Rightarrow> if d_originalJobId d = i then Some d else None | Some y \<Rightarrow> Some y)"
  "job_find (w\<lparr>jobs := jobs w @ [j]\<rparr>) i =
    (case job_find w i of None \<Rightarrow> if j_id j = i then Some j else None | Some y \<Rightarrow> Some y)"
  by (auto simp: exec_find_def dlq_find_def job_find_def find_by_append split: option.split)

lemma log_create_all:
  assumes "exec_find w x \<noteq> None" and "\<And>e. l_executionId (f e) = x"
  shows "forA (\<lambda>e. log_create (f e)) es w = (Inr (), w\<lparr>job_logs := job_logs w @ map f es\<rparr>)"
  using assms(1)
proof (induction es arbitrary: w)
  case (Cons e es)
  then show ?case by (simp add: bindA_def log_create_def assms(2))
qed (simp add: retA_def)

end
