(* ===== verification/Errors.thy ===== *)
theory Errors
  imports Schema
begin

text \<open>
  \<open>api/src/lib/errors.ts\<close>, the error classes of the API (each fixes a code and an HTTP
  status), and the global error handler of \<open>api/src/index.ts\<close>, which turns whatever a handler
  throws into a status and a body.
\<close>

definition NotFoundError :: "string \<Rightarrow> json option \<Rightarrow> js_error" where
  "NotFoundError message details = ChronosError ''NOT_FOUND'' message 404 details"

definition UnauthorizedError :: "string \<Rightarrow> json option \<Rightarrow> js_error" where
  "UnauthorizedError message details = ChronosError ''UNAUTHORIZED'' message 401 details"

definition ForbiddenError :: "string \<Rightarrow> json option \<Rightarrow> js_error" where
  "ForbiddenError message details = ChronosError ''FORBIDDEN'' message 403 details"

definition ConflictError :: "string \<Rightarrow> json option \<Rightarrow> js_error" where
  "ConflictError message details = ChronosError ''CONFLICT'' message 409 details"

definition ValidationError :: "string \<Rightarrow> json option \<Rightarrow> js_error" where
  "ValidationError message details = ChronosError ''VALIDATION_ERROR'' message 400 details"

definition RateLimitError :: "int \<Rightarrow> js_error" where
  "RateLimitError retryAfter =
     ChronosError ''RATE_LIMITED'' ''Too many requests'' 429
       (Some (JObj [(''retryAfter'', jint retryAfter)]))"

definition BadRequestError :: "string \<Rightarrow> json option \<Rightarrow> js_error" where
  "BadRequestError message details = ChronosError ''BAD_REQUEST'' message 400 details"

lemmas chronos_errors =
  NotFoundError_def UnauthorizedError_def ForbiddenError_def ConflictError_def
  ValidationError_def RateLimitError_def BadRequestError_def

text \<open>\<open>fastify.setErrorHandler\<close>: the tests in the order of the code.\<close>

definition error_body :: "string \<Rightarrow> string \<Rightarrow> json option \<Rightarrow> json" where
  "error_body code message details =
     JObj [(''error'', JObj ([(''code'', JStr code), (''message'', JStr message)] @
                             jopt ''details'' details))]"

fun errorHandler :: "js_error \<Rightarrow> int \<times> json" where
  "errorHandler (ChronosError code message statusCode details) =
     (statusCode, error_body code message details)"
| "errorHandler (FastifyValidationError v) =
     (400, error_body ''VALIDATION_ERROR'' ''Request validation failed'' (Some v))"
| "errorHandler (PrismaError code message) =
     (if code = ''P2002''
      then (409, error_body ''CONFLICT'' ''A record with this identifier already exists'' None)
      else (500, error_body ''INTERNAL_ERROR'' ''An unexpected error occurred in Chronos'' None))"
| "errorHandler (PlainError message) =
     (500, error_body ''INTERNAL_ERROR'' ''An unexpected error occurred in Chronos'' None)"

lemma unexpected_errors_hide_message:
  "fst (errorHandler e) = 500 \<Longrightarrow> (\<forall>c m s d. e \<noteq> ChronosError c m s d) \<Longrightarrow>
    snd (errorHandler e) =
      error_body ''INTERNAL_ERROR'' ''An unexpected error occurred in Chronos'' None"
  by (cases e) (auto split: if_splits)

end
