(* ===== verification/Pagination.thy ===== *)
theory Pagination
  imports Text
begin

text \<open>
  \<open>api/src/lib/pagination.ts\<close>: reading \<open>page\<close> and \<open>limit\<close> from a query string, the block
  \<open>meta\<close> of a list response, and what \<open>findMany({ skip, take })\<close> makes of them. Numbers are
  exact here; JavaScript's are exact up to \<open>2^53\<close>.
\<close>

record ParsedPagination =
  pg_page :: int
  pg_limit :: int
  pg_skip :: int

definition DEFAULT_PAGE :: int where "DEFAULT_PAGE = 1"

definition DEFAULT_LIMIT :: int where "DEFAULT_LIMIT = 20"

definition MAX_LIMIT :: int where "MAX_LIMIT = 100"

definition parsePagination :: "string option \<Rightarrow> string option \<Rightarrow> ParsedPagination" where
  "parsePagination qpage qlimit =
     (let page = max 1 (int_or (parseInt (case qpage of None \<Rightarrow> show_int DEFAULT_PAGE | Some s \<Rightarrow> s))
                          DEFAULT_PAGE);
          limit = min MAX_LIMIT
            (max 1 (int_or (parseInt (case qlimit of None \<Rightarrow> show_int DEFAULT_LIMIT | Some s \<Rightarrow> s))
               DEFAULT_LIMIT))
      in \<lparr>pg_page = page, pg_limit = limit, pg_skip = (page - 1) * limit\<rparr>)"

record PaginationMeta =
  meta_page :: int
  meta_limit :: int
  meta_total :: int
  meta_totalPages :: int

definition buildMeta :: "int \<Rightarrow> int \<Rightarrow> int \<Rightarrow> PaginationMeta" where
  "buildMeta totalRows page limit =
     \<lparr>meta_page = page, meta_limit = limit, meta_total = totalRows,
      meta_totalPages = \<lceil>(of_int totalRows :: rat) / of_int limit\<rceil>\<rparr>"

text \<open>\<open>findMany({ .., skip, take: limit })\<close> on the rows in the order asked for.\<close>

definition paginate :: "ParsedPagination \<Rightarrow> 'r list \<Rightarrow> 'r list" where
  "paginate p rows = take (nat (pg_limit p)) (drop (nat (pg_skip p)) rows)"

section \<open>Bounds\<close>

lemma parsePagination_page [simp]: "1 \<le> pg_page (parsePagination a b)"
  by (simp add: parsePagination_def Let_def)

lemma parsePagination_limit [simp]:
  "1 \<le> pg_limit (parsePagination a b)" "pg_limit (parsePagination a b) \<le> 100"
  by (simp_all add: parsePagination_def Let_def MAX_LIMIT_def)

lemma parsePagination_skip:
  "pg_skip (parsePagination a b) = (pg_page (parsePagination a b) - 1) * pg_limit (parsePagination a b)"
  by (simp add: parsePagination_def Let_def)

lemma paginate_length: "length (paginate (parsePagination a b) rows) \<le> 100"
proof -
  have "nat (pg_limit (parsePagination a b)) \<le> 100"
    using parsePagination_limit(2) [of a b] by linarith
  then show ?thesis by (simp add: paginate_def)
qed

lemma parsePagination_show:
  assumes "1 \<le> k" and "1 \<le> l" and "l \<le> 100"
  shows "parsePagination (Some (show_int k)) (Some (show_int l)) =
    \<lparr>pg_page = k, pg_limit = l, pg_skip = (k - 1) * l\<rparr>"
  using assms by (simp add: parsePagination_def Let_def int_or_def MAX_LIMIT_def)

section \<open>The pages of a list\<close>

lemma take_drop_chunks:
  "concat (map (\<lambda>k. take m (drop (k * m) xs)) [0..<n]) = take (n * m) xs"
proof (induction n)
  case (Suc n)
  then show ?case by (simp add: take_add add.commute [of m])
qed simp

lemma totalPages_enough:
  assumes "1 \<le> limit" and "0 \<le> totalRows"
  shows "totalRows \<le> meta_totalPages (buildMeta totalRows page limit) * limit"
    and "0 \<le> meta_totalPages (buildMeta totalRows page limit)"
    and "(meta_totalPages (buildMeta totalRows page limit) - 1) * limit < max 1 totalRows"
proof -
  let ?q = "(of_int totalRows :: rat) / of_int limit"
  have l: "0 < (of_int limit :: rat)" using assms(1) by simp
  have "?q * of_int limit \<le> of_int \<lceil>?q\<rceil> * of_int limit"
    by (intro mult_right_mono) (use l in auto)
  then have "(of_int totalRows :: rat) \<le> of_int (\<lceil>?q\<rceil> * limit)" using l by simp
  then show "totalRows \<le> meta_totalPages (buildMeta totalRows page limit) * limit"
    by (simp only: buildMeta_def of_int_le_iff PaginationMeta.simps)
  show nn: "0 \<le> meta_totalPages (buildMeta totalRows page limit)"
  proof -
    have "0 \<le> ?q" using assms l by simp
    then have "- 1 < ?q" by linarith
    then show ?thesis by (simp add: buildMeta_def)
  qed
  show "(meta_totalPages (buildMeta totalRows page limit) - 1) * limit < max 1 totalRows"
  proof (cases "totalRows = 0")
    case True
    then show ?thesis using assms(1) by (simp add: buildMeta_def)
  next
    case False
    have "of_int (\<lceil>?q\<rceil> - 1) * of_int limit < ?q * (of_int limit :: rat)"
      by (intro mult_strict_right_mono l) (use ceiling_correct [of ?q] in simp)
    then have "(of_int ((\<lceil>?q\<rceil> - 1) * limit) :: rat) < of_int totalRows" using l by simp
    then have "(\<lceil>?q\<rceil> - 1) * limit < totalRows" by (simp only: of_int_less_iff)
    then show ?thesis by (simp add: buildMeta_def)
  qed
qed

text \<open>
  Reading pages \<open>1 .. totalPages\<close> in turn, each through its rendered query string, yields every
  row once, in order.
\<close>

lemma pages_concat:
  assumes "1 \<le> l" and "l \<le> 100"
  shows "concat (map (\<lambda>k. paginate (parsePagination (Some (show_int (int k + 1))) (Some (show_int l))) rows)
            [0..<nat (meta_totalPages (buildMeta (int (length rows)) page l))]) = rows"
proof -
  let ?n = "nat (meta_totalPages (buildMeta (int (length rows)) page l))"
  have "paginate (parsePagination (Some (show_int (int k + 1))) (Some (show_int l))) rows =
      take (nat l) (drop (k * nat l) rows)" for k
    using assms by (simp add: parsePagination_show paginate_def nat_mult_distrib)
  then have "concat (map (\<lambda>k. paginate (parsePagination (Some (show_int (int k + 1))) (Some (show_int l))) rows) [0..<?n]) =
      take (?n * nat l) rows"
    by (simp add: take_drop_chunks)
  moreover have "length rows \<le> ?n * nat l"
  proof -
    have "int (length rows) \<le> int (?n * nat l)"
      using totalPages_enough(1,2) [of l "int (length rows)" page] assms(1) by simp
    then show ?thesis by (simp only: of_nat_le_iff)
  qed
  ultimately show ?thesis by simp
qed

section \<open>Properties\<close>

text \<open>
  Whatever the query string holds, a list endpoint reads a page from 1 on, between 1 and 100
  rows of it, and the page's offset is never negative.
\<close>

lemma parsePagination_bounds:
  "1 \<le> pg_page (parsePagination a b) \<and> 1 \<le> pg_limit (parsePagination a b) \<and>
   pg_limit (parsePagination a b) \<le> MAX_LIMIT \<and> 0 \<le> pg_skip (parsePagination a b) \<and>
   int (length (paginate (parsePagination a b) rows)) \<le> pg_limit (parsePagination a b)"
proof -
  have page: "1 \<le> pg_page (parsePagination a b)" and lim: "1 \<le> pg_limit (parsePagination a b)"
    by (rule parsePagination_page, rule parsePagination_limit(1))
  then have "0 \<le> pg_skip (parsePagination a b)"
    unfolding parsePagination_skip by (intro mult_nonneg_nonneg) linarith+
  moreover have "int (length (paginate (parsePagination a b) rows)) \<le> pg_limit (parsePagination a b)"
    using order_trans [OF zero_le_one lim] by (simp add: paginate_def of_nat_min)
  ultimately show ?thesis
    using page lim parsePagination_limit(2) [of a b] by (simp add: MAX_LIMIT_def)
qed

text \<open>
  C31. Round trip through the pages: a client that asks for pages 1 to \<open>totalPages\<close> of a list with a
  limit between 1 and 100 sees every row exactly once, in order, and the last page is not empty
  unless the list is.
\<close>

theorem pages_partition_rows:
  assumes "1 \<le> l" and "l \<le> 100"
  shows "concat (map (\<lambda>k. paginate (parsePagination (Some (show_int (int k + 1))) (Some (show_int l))) rows)
      [0..<nat (meta_totalPages (buildMeta (int (length rows)) page l))]) = rows \<and>
    (meta_totalPages (buildMeta (int (length rows)) page l) - 1) * l < max 1 (int (length rows))"
  using pages_concat [OF assms] totalPages_enough(3) [OF assms(1), of "int (length rows)" page] by simp

theorem pages_partition_rows_witness:
  "concat (map (\<lambda>k. paginate (parsePagination (Some (show_int (int k + 1))) (Some (show_int 2))) [10, 20, 30 :: nat])
      [0..<2]) = [10, 20, 30]"
proof -
  have "\<lceil>3 / 2 :: rat\<rceil> = 2" by (rule ceiling_unique) simp_all
  then show ?thesis using pages_partition_rows [of 2 "[10, 20, 30 :: nat]" 1] by (simp add: buildMeta_def)
qed

end
