(* ===== verification/Retry.thy ===== *)
theory Retry
  imports Schema
begin

text \<open>
  \<open>worker/src/retry.ts\<close>: the delay before the next attempt. \<open>Math.random()\<close> is the argument
  \<open>random\<close>, a number in \<open>[0, 1)\<close>. The delays are exact: a database \<open>Int\<close> times a power of two
  is a double as long as it is finite, and past that \<open>Math.min\<close> returns \<open>maxDelayMs\<close>, as the
  unbounded integers of the model make it do too. \<open>attemptCount\<close> is not negative (the executor
  passes at least 1).
\<close>

definition jitter :: "rat \<Rightarrow> int \<Rightarrow> int" where
  "jitter random baseDelayMs = \<lfloor>random * of_int baseDelayMs * (1 / 10)\<rfloor>"

fun calculateDelay :: "rat \<Rightarrow> RetryStrategy \<Rightarrow> int \<Rightarrow> int \<Rightarrow> int \<Rightarrow> int" where
  "calculateDelay random Fixed baseDelayMs maxDelayMs attemptCount = min baseDelayMs maxDelayMs"
| "calculateDelay random Linear baseDelayMs maxDelayMs attemptCount =
     min (baseDelayMs * attemptCount) maxDelayMs"
| "calculateDelay random Exponential baseDelayMs maxDelayMs attemptCount =
     (let raw = baseDelayMs * 2 ^ nat attemptCount + jitter random baseDelayMs
      in min raw maxDelayMs)"

lemma jitter_bounds:
  assumes "0 \<le> random" and "random < 1" and "0 \<le> base"
  shows "0 \<le> jitter random base" and "10 * jitter random base \<le> base"
proof -
  have "0 \<le> random * of_int base * (1 / 10)" using assms by simp
  then show "0 \<le> jitter random base" unfolding jitter_def by linarith
  have "random * of_int base \<le> of_int base"
    using assms by (simp add: mult_left_le_one_le)
  then have "(of_int (10 * jitter random base) :: rat) \<le> of_int base"
    unfolding jitter_def using of_int_floor_le [of "random * of_int base * (1 / 10)"] by simp
  then show "10 * jitter random base \<le> base" by (simp only: of_int_le_iff)
qed

section \<open>The contract of a delay\<close>

text \<open>
  What a client of a retry delay relies on: it never exceeds the cap, it is not negative when the
  cap is not, and it does not shrink as attempts fail. The executor schedules with any function
  that keeps this contract.
\<close>

locale retry_delay =
  fixes delay :: "int \<Rightarrow> int" and cap :: int
  assumes delay_cap: "delay n \<le> cap"
    and delay_nonneg: "0 \<le> cap \<Longrightarrow> 0 \<le> n \<Longrightarrow> 0 \<le> delay n"
    and delay_mono: "0 \<le> m \<Longrightarrow> m \<le> n \<Longrightarrow> delay m \<le> delay n"
begin

text \<open>Once the cap is reached it stays.\<close>

lemma delay_saturates: "0 \<le> m \<Longrightarrow> delay m = cap \<Longrightarrow> m \<le> n \<Longrightarrow> delay n = cap"
  using delay_mono [of m n] delay_cap [of n] by simp

text \<open>The time a retry is scheduled for.\<close>

lemma retry_time_bounds:
  "0 \<le> cap \<Longrightarrow> 0 \<le> n \<Longrightarrow> now \<le> now + delay n \<and> now + delay n \<le> now + cap"
  using delay_cap [of n] delay_nonneg [of n] by simp

text \<open>The time spent waiting over a whole series of failed attempts.\<close>

lemma total_delay: "(\<Sum>i\<leftarrow>ns. delay i) \<le> int (length ns) * cap"
proof (induction ns)
  case (Cons n ns)
  then show ?case using delay_cap [of n] by (simp add: algebra_simps)
qed simp

end

lemma calculateDelay_cap: "calculateDelay random s base cap n \<le> cap"
  by (cases s) (simp_all add: Let_def)

lemma calculateDelay_nonneg:
  assumes "0 \<le> random" and "random < 1" and "0 \<le> base" and "0 \<le> cap" and "0 \<le> n"
  shows "0 \<le> calculateDelay random s base cap n"
  using assms jitter_bounds(1) [OF assms(1,2,3)] by (cases s) (simp_all add: Let_def)

lemma calculateDelay_mono:
  assumes "0 \<le> base" and "0 \<le> m" and "m \<le> n"
  shows "calculateDelay random s base cap m \<le> calculateDelay random s base cap n"
proof (cases s)
  case Linear
  have "base * m \<le> base * n" using assms by (intro mult_left_mono)
  with Linear show ?thesis by simp
next
  case Exponential
  have "(2::int) ^ nat m \<le> 2 ^ nat n" using assms by (intro power_increasing) auto
  then have "base * 2 ^ nat m \<le> base * 2 ^ nat n" using assms by (intro mult_left_mono)
  with Exponential show ?thesis by (simp add: Let_def)
qed simp

text \<open>
  The code's function keeps the contract for every strategy, for the policies and random numbers
  that occur: a base that is not negative, a random number in \<open>[0, 1)\<close>. Both are clamped here
  so that the instance has no side condition.
\<close>

definition unit_random :: "rat \<Rightarrow> rat" where
  "unit_random r = (if 0 \<le> r \<and> r < 1 then r else 0)"

lemma unit_random_bounds: "0 \<le> unit_random r" "unit_random r < 1"
  by (auto simp: unit_random_def)

interpretation backoff: retry_delay "calculateDelay (unit_random r) s (max 0 base) cap" cap
  for r s base cap
  by unfold_locales
    (auto intro: calculateDelay_cap calculateDelay_mono calculateDelay_nonneg unit_random_bounds)

section \<open>Exponential growth\<close>

lemma two_pow_ge: "n \<le> (2::int) ^ nat n"
proof (cases "0 \<le> n")
  case True
  have "int (nat n) \<le> 2 ^ nat n"
    using less_exp [of "nat n"] by (metis le_less of_nat_le_iff of_nat_numeral of_nat_power)
  with True show ?thesis by simp
qed (use zero_le_power [of "2::int" "nat n"] in linarith)

lemma exponential_envelope:
  assumes "0 \<le> random" and "random < 1" and "0 \<le> base"
  shows "min (base * 2 ^ nat n) cap \<le> calculateDelay random Exponential base cap n"
    and "calculateDelay random Exponential base cap n \<le> min (base * 2 ^ nat n + base div 10) cap"
proof -
  have "jitter random base \<le> base div 10"
    using jitter_bounds(2) [OF assms] by simp
  then show "min (base * 2 ^ nat n) cap \<le> calculateDelay random Exponential base cap n"
    and "calculateDelay random Exponential base cap n \<le> min (base * 2 ^ nat n + base div 10) cap"
    using jitter_bounds(1) [OF assms] by (simp_all add: Let_def)
qed

lemma growing_strategies_reach_cap:
  assumes "0 \<le> random" and "random < 1" and "1 \<le> base" and "s \<noteq> Fixed" and "max 0 cap \<le> n"
  shows "calculateDelay random s base cap n = cap"
proof (cases s)
  case Linear
  have "1 * n \<le> base * n" using assms by (intro mult_right_mono) auto
  with Linear assms show ?thesis by simp
next
  case Exponential
  have "1 * (2::int) ^ nat n \<le> base * 2 ^ nat n" using assms by (intro mult_right_mono) auto
  moreover have "0 \<le> jitter random base" using assms jitter_bounds(1) by simp
  ultimately have "cap \<le> base * 2 ^ nat n + jitter random base"
    using two_pow_ge [of n] assms(5) by linarith
  then show ?thesis using Exponential by (simp add: Let_def)
qed (use assms in simp)

section \<open>Properties\<close>



text \<open>
  Exponential backoff doubles with each attempt up to the cap, with a jitter of at most a tenth
  of the base that only ever adds.
\<close>

lemma exponential_backoff:
  assumes "0 \<le> random" and "random < 1" and "0 \<le> base"
  shows "min (base * 2 ^ nat n) cap \<le> calculateDelay random Exponential base cap n \<and>
    calculateDelay random Exponential base cap n \<le> min (base * 2 ^ nat n + base div 10) cap"
  using exponential_envelope [OF assms] by blast

lemma exponential_backoff_witness:
  "4000 \<le> calculateDelay (1/2) Exponential 1000 30000 2 \<and>
   calculateDelay (1/2) Exponential 1000 30000 2 \<le> 4100"
  using exponential_backoff [of "1/2" 1000 2 30000] by simp

end
