(* ===== verification/Handlers.thy ===== *)
theory Handlers
  imports Errors Text
begin

text \<open>
  \<open>worker/src/handlers\<close>: the registry that maps a job type to a handler and the three handlers.
  Running a handler yields the log entries it wrote, in order, and whether it returned or threw.
  The network (\<open>fetch\<close>) and the textual forms the log messages embed (\<open>JSON.stringify\<close>,
  \<open>String\<close>, the engine's \<open>TypeError\<close> messages) are arguments, the record \<open>handler_env\<close>.

  The registry is an object literal, so \<open>handlers[type]\<close> also finds what the literal inherits
  from \<open>Object.prototype\<close>. The model looks a type up the way JavaScript does.
\<close>

type_synonym log_entry = "string \<times> string"  \<comment> \<open>level, message\<close>

datatype fetch_result =
    FetchFails string
      \<comment> \<open>\<open>fetch\<close> rejects (network error, abort after the timeout) with this message\<close>
  | FetchOk (fetch_status: int) (fetch_statusText: string) (fetch_contentLength: "string option")
      (fetch_body_error: "string option")
      \<comment> \<open>a response; the last field is the error of reading its body, if that fails\<close>

record handler_env =
  stringify :: "json \<Rightarrow> string"
  to_text :: "json \<Rightarrow> string"
  type_error :: "string \<Rightarrow> string"
  sleep_random :: rat
  fetch :: "string \<Rightarrow> json \<Rightarrow> fetch_result"  \<comment> \<open>url and \<open>timeoutMs\<close>\<close>

type_synonym handler_outcome = "log_entry list \<times> (js_error + unit)"

section \<open>echo\<close>

definition echoHandler :: "handler_env \<Rightarrow> json \<Rightarrow> handler_outcome" where
  "echoHandler henv payload =
     (let sleepMs = 1000 + \<lfloor>sleep_random henv * 2000\<rfloor>
      in ([(''info'', ''Echo handler received payload: '' @ stringify henv payload),
           (''debug'', ''Sleeping '' @ show_int sleepMs @ ''ms to simulate work''),
           (''info'', ''Echo complete - returned payload as-is'')], Inr ()))"

section \<open>http_request\<close>

definition isHttpRequestPayload :: "json \<Rightarrow> bool" where
  "isHttpRequestPayload p = (case jget p ''url'' of Some (JStr _) \<Rightarrow> True | _ \<Rightarrow> False)"

definition response_ok :: "int \<Rightarrow> bool" where
  "response_ok status \<longleftrightarrow> 200 \<le> status \<and> status \<le> 299"

definition httpRequestHandler :: "handler_env \<Rightarrow> json \<Rightarrow> handler_outcome" where
  "httpRequestHandler henv payload =
     (case jget payload ''url'' of
        Some (JStr url) \<Rightarrow>
          (let timeoutMs = (case jget payload ''timeoutMs'' of None \<Rightarrow> jint 30000 | Some v \<Rightarrow> v);
               start = (''info'', ''Making GET request to '' @ url);
               failed = (\<lambda>m. (''error'', ''GET '' @ url @ '' failed: '' @ m))
           in case fetch henv url timeoutMs of
                FetchFails m \<Rightarrow> ([start, failed m], Inl (PlainError m))
              | FetchOk status statusText contentLength bodyError \<Rightarrow>
                  (let response =
                         (if response_ok status then ''info'' else ''warn'',
                          ''GET '' @ url @ '' -> '' @ show_int status @ '' '' @ statusText @
                          (case contentLength of None \<Rightarrow> [] | Some cl \<Rightarrow>
                             if cl = [] then [] else '' (Content-Length: '' @ cl @ '')''))
                   in case bodyError of
                        None \<Rightarrow> ([start, response], Inr ())
                      | Some m \<Rightarrow> ([start, response, failed m], Inl (PlainError m))))
      | _ \<Rightarrow> ([], Inl (PlainError
               (''http_request handler requires payload.url (string), got: '' @ stringify henv payload))))"

section \<open>send_email\<close>

definition isSendEmailPayload :: "json \<Rightarrow> bool" where
  "isSendEmailPayload p =
     (case (jget p ''to'', jget p ''subject'') of (Some (JStr _), Some (JStr _)) \<Rightarrow> True | _ \<Rightarrow> False)"

fun truthy :: "json \<Rightarrow> bool" where
  "truthy JNull = False"
| "truthy (JBool b) = b"
| "truthy (JNum q) = (q \<noteq> 0)"
| "truthy (JStr s) = (s \<noteq> [])"
| "truthy _ = True"

text \<open>The text of \<open>v.length\<close>: of a string or an array its length, of an object its field.\<close>

fun length_text :: "handler_env \<Rightarrow> json \<Rightarrow> string" where
  "length_text henv (JStr s) = show_int (int (length s))"
| "length_text henv (JArr xs) = show_int (int (length xs))"
| "length_text henv v = (case jget v ''length'' of None \<Rightarrow> ''undefined'' | Some x \<Rightarrow> to_text henv x)"

definition sendEmailHandler :: "handler_env \<Rightarrow> json \<Rightarrow> handler_outcome" where
  "sendEmailHandler henv payload =
     (case (jget payload ''to'', jget payload ''subject'') of
        (Some (JStr t), Some (JStr subject)) \<Rightarrow>
          ([(''info'', ''Would send email to \"'' @ t @ ''\" - Subject: \"'' @ subject @ ''\"'' @
               (case jget payload ''body'' of None \<Rightarrow> [] | Some b \<Rightarrow>
                  if truthy b then '' - Body length: '' @ length_text henv b @ '' chars'' else [])),
            (''info'', ''Email stub completed for recipient: '' @ t)], Inr ())
      | _ \<Rightarrow> ([], Inl (PlainError
               (''send_email handler requires payload.to and payload.subject, got: '' @
                stringify henv payload))))"

section \<open>The registry\<close>

datatype handler = Echo | Http_request | Send_email | Inherited string

definition handlers :: "(string \<times> handler) list" where
  "handlers = [(''echo'', Echo), (''http_request'', Http_request), (''send_email'', Send_email)]"

definition object_prototype :: "string list" where
  "object_prototype =
     [''constructor'', ''__defineGetter__'', ''__defineSetter__'', ''hasOwnProperty'',
      ''__lookupGetter__'', ''__lookupSetter__'', ''isPrototypeOf'', ''propertyIsEnumerable'',
      ''toString'', ''valueOf'', ''__proto__'', ''toLocaleString'']"

definition listHandlerTypes :: "string list" where
  "listHandlerTypes = map fst handlers"

fun join_with :: "string \<Rightarrow> string list \<Rightarrow> string" where
  "join_with sep [] = []"
| "join_with sep [x] = x"
| "join_with sep (x # y # xs) = x @ sep @ join_with sep (y # xs)"

definition getHandler :: "string \<Rightarrow> js_error + handler" where
  "getHandler type =
     (case map_of handlers type of
        Some h \<Rightarrow> Inr h
      | None \<Rightarrow>
          if type \<in> set object_prototype then Inr (Inherited type)
          else Inl (PlainError
            (''No handler registered for job type \"'' @ type @ ''\". Registered types: ['' @
             join_with '', '' listHandlerTypes @ '']'')))"

text \<open>
  Calling a handler as the plain function \<open>handler(payload, log)\<close>. The members of
  \<open>Object.prototype\<close> see no \<open>this\<close>: \<open>constructor\<close> and \<open>toString\<close> return a value,
  \<open>isPrototypeOf\<close> returns \<open>false\<close> for an argument that is no object, the others throw a
  \<open>TypeError\<close> (\<open>__proto__\<close> is not even a function).
\<close>

fun is_object :: "json \<Rightarrow> bool" where
  "is_object (JArr _) = True"
| "is_object (JObj _) = True"
| "is_object _ = False"

fun call_handler :: "handler_env \<Rightarrow> handler \<Rightarrow> json \<Rightarrow> handler_outcome" where
  "call_handler henv Echo payload = echoHandler henv payload"
| "call_handler henv Http_request payload = httpRequestHandler henv payload"
| "call_handler henv Send_email payload = sendEmailHandler henv payload"
| "call_handler henv (Inherited m) payload =
     (if m = ''constructor'' \<or> m = ''toString'' \<or> (m = ''isPrototypeOf'' \<and> \<not> is_object payload)
      then ([], Inr ()) else ([], Inl (PlainError (type_error henv m))))"

text \<open>\<open>const handler = getHandler(job.type); await handler(job.payload, log)\<close>.\<close>

definition run_handler :: "handler_env \<Rightarrow> string \<Rightarrow> json \<Rightarrow> handler_outcome" where
  "run_handler henv type payload =
     (case getHandler type of
        Inl e \<Rightarrow> ([], Inl e)
      | Inr h \<Rightarrow> call_handler henv h payload)"

section \<open>What the registry resolves\<close>

lemma getHandler_registered: "type \<in> set listHandlerTypes \<Longrightarrow> getHandler type = Inr (the (map_of handlers type))"
  by (auto simp: getHandler_def listHandlerTypes_def handlers_def)

lemma getHandler_Inr_iff:
  "(\<exists>h. getHandler type = Inr h) \<longleftrightarrow> type \<in> set listHandlerTypes \<union> set object_prototype"
  by (auto simp: getHandler_def listHandlerTypes_def handlers_def split: option.splits)

lemma getHandler_unknown:
  "type \<notin> set listHandlerTypes \<union> set object_prototype \<Longrightarrow> \<exists>m. getHandler type = Inl (PlainError m)"
  by (auto simp: getHandler_def listHandlerTypes_def handlers_def split: option.splits)

lemma run_handler_unknown:
  assumes "type \<notin> set listHandlerTypes \<union> set object_prototype"
  shows "\<exists>m. run_handler henv type payload = ([], Inl (PlainError m))"
  using getHandler_unknown [OF assms] by (auto simp: run_handler_def)

lemma run_handler_own [simp]:
  "run_handler henv ''echo'' payload = echoHandler henv payload"
  "run_handler henv ''http_request'' payload = httpRequestHandler henv payload"
  "run_handler henv ''send_email'' payload = sendEmailHandler henv payload"
  by (simp_all add: run_handler_def getHandler_def handlers_def)

lemma echo_succeeds [simp]: "snd (echoHandler henv payload) = Inr ()"
  by (simp add: echoHandler_def Let_def)

lemma send_email_validates:
  "snd (sendEmailHandler henv payload) = Inr () \<longleftrightarrow> isSendEmailPayload payload"
  by (auto simp: sendEmailHandler_def isSendEmailPayload_def split: option.splits json.splits)

lemma http_request_validates:
  "\<not> isHttpRequestPayload payload \<Longrightarrow> \<exists>m. httpRequestHandler henv payload = ([], Inl (PlainError m))"
  by (auto simp: httpRequestHandler_def isHttpRequestPayload_def split: option.splits json.splits)

text \<open>A response of any status counts as success; only \<open>fetch\<close> and the body read can fail.\<close>

lemma http_request_outcome:
  assumes "jget payload ''url'' = Some (JStr url)"
  shows "snd (httpRequestHandler henv payload) = Inr () \<longleftrightarrow>
    (\<exists>st txt cl. fetch henv url (case jget payload ''timeoutMs'' of None \<Rightarrow> jint 30000 | Some v \<Rightarrow> v) =
       FetchOk st txt cl None)"
  using assms
  by (auto simp: httpRequestHandler_def Let_def split: fetch_result.splits option.splits)

text \<open>
  Which job types run: \<open>getHandler\<close> resolves the three registered types and, because the
  registry is an object literal, the twelve member names of \<open>Object.prototype\<close>; any other type
  throws before a handler runs. A job of type \<open>toString\<close> or \<open>constructor\<close> has no handler and
  yet its run succeeds without a log entry.
\<close>

lemma handler_resolution:
  "((\<exists>h. getHandler type = Inr h) \<longleftrightarrow> type \<in> set listHandlerTypes \<union> set object_prototype) \<and>
   run_handler henv ''toString'' payload = ([], Inr ()) \<and>
   run_handler henv ''constructor'' payload = ([], Inr ())"
  by (simp only: getHandler_Inr_iff)
    (simp add: run_handler_def getHandler_def handlers_def object_prototype_def)

end
