(* ===== verification/Invariants.thy ===== *)
theory Invariants
  imports Schema
begin

text \<open>
  Statements about the whole database that every service has to keep. The locale \<open>row_tables\<close> is
  the contract: a relation between the state before and after that is kept by each kind of write
  the services make to the tables of jobs and dead letters, and does not look beyond them and the
  table of workers. Each service's theory proves once, inside the locale, that its operations keep
  any such relation; an invariant of the system is an interpretation. \<open>job_tables\<close> extends it for
  the operations that write workers: the reaper and the heartbeat.
\<close>

text \<open>A transaction is judged by the state it commits.\<close>

context two_state
begin

lemma atomic_commit_guar:
  "(\<And>s x t. m s = (Inr x, t) \<Longrightarrow> R s t) \<Longrightarrow> guar R (atomicA m)"
  by (rule guarI) (auto simp: atomicA_def refl_R split: prod.split sum.split)

end

section \<open>The writes the services make\<close>

text \<open>An update that keeps the columns the constraints are about, and makes no job \<open>dead_letter\<close>.\<close>

definition keeps_columns :: "(Job \<Rightarrow> Job) \<Rightarrow> bool" where
  "keeps_columns f \<longleftrightarrow> (\<forall>j. j_id (f j) = j_id j \<and> j_queueId (f j) = j_queueId j \<and>
     j_idempotencyKey (f j) = j_idempotencyKey j)"

definition harmless :: "(Job \<Rightarrow> Job) \<Rightarrow> bool" where
  "harmless f \<longleftrightarrow> keeps_columns f \<and> (\<forall>j. j_status (f j) = Dead_letter \<longrightarrow> j_status j = Dead_letter)"

lemmas harmless_defs = harmless_def keeps_columns_def

locale row_tables = two_state R for R :: "world \<Rightarrow> world \<Rightarrow> bool" +
  assumes same_R: "jobs t = jobs s \<Longrightarrow> dead_letter_jobs t = dead_letter_jobs s \<Longrightarrow>
      workers t = workers s \<Longrightarrow> R s t"
    and rows_R: "harmless f \<Longrightarrow> R s (s\<lparr>jobs := update_where p f (jobs s)\<rparr>)"
    and add_R: "j_status j \<noteq> Dead_letter \<Longrightarrow> job_find s (j_id j) = None \<Longrightarrow>
      \<not> list_ex (idem_clash j) (jobs s) \<Longrightarrow> R s (s\<lparr>jobs := jobs s @ [j]\<rparr>)"
    and bury_R: "keeps_columns f \<Longrightarrow> d_originalJobId d = i \<Longrightarrow>
      R s (s\<lparr>jobs := update_by j_id i f (jobs s), dead_letter_jobs := dead_letter_jobs s @ [d]\<rparr>)"
    and revive_R: "keeps_columns f \<Longrightarrow> (\<And>j. j_status (f j) \<noteq> Dead_letter) \<Longrightarrow>
      R s (s\<lparr>jobs := update_by j_id i f (jobs s),
        dead_letter_jobs := filter (\<lambda>d. d_originalJobId d \<noteq> i) (dead_letter_jobs s)\<rparr>)"
begin

lemma same_call:
  "(\<And>s. jobs (snd (m s)) = jobs s \<and> dead_letter_jobs (snd (m s)) = dead_letter_jobs s \<and>
    workers (snd (m s)) = workers s) \<Longrightarrow> guar R m"
  by (rule guarI) (simp add: same_R)

lemma table_calls:
  shows "guar R (exec_update x g)" and "guar R (exec_create e)" and "guar R (log_create l)"
    and "guar R (publish c m)" and "guar R (sched_update sj k)"
  by (rule same_call, simp add: exec_update_def exec_put_def exec_create_def log_create_def publish_def
      modifyA_def sched_update_def sched_put_def split: option.split)+

lemma job_put_R: "harmless f \<Longrightarrow> R s (job_put i f s)"
  using rows_R [of f s "\<lambda>j. j_id j = i"]
  by (simp add: job_put_def update_by_def update_where_def)

lemma job_update_R: "harmless f \<Longrightarrow> guar R (job_update i f)"
  by (rule guarI) (simp add: job_update_def job_put_R refl_R split: option.split)

lemma job_create_R: "j_status j \<noteq> Dead_letter \<Longrightarrow> guar R (job_create j)"
  by (rule guarI) (auto simp: job_create_def refl_R intro: add_R)

text \<open>What happens outside the two tables before or after a write.\<close>

lemma frame_after:
  "R s t \<Longrightarrow> jobs u = jobs t \<Longrightarrow> dead_letter_jobs u = dead_letter_jobs t \<Longrightarrow> workers u = workers t \<Longrightarrow> R s u"
  by (blast intro: trans_R same_R)

lemma call_R: "guar R m \<Longrightarrow> guar R (callA env p m)"
  by (simp add: callA_def throw_guar split: option.split)

lemma modify_frame:
  "(\<And>s. jobs (g s) = jobs s \<and> dead_letter_jobs (g s) = dead_letter_jobs s \<and> workers (g s) = workers s) \<Longrightarrow>
    guar R (modifyA g)"
  by (rule same_call) (simp add: modifyA_def)

lemmas walk = guar_combinators if_guar option_guar call_R table_calls

end

text \<open>Relations that do not look at the workers' rows either.\<close>

locale job_tables = row_tables R for R :: "world \<Rightarrow> world \<Rightarrow> bool" +
  assumes frame_R: "jobs t = jobs s \<Longrightarrow> dead_letter_jobs t = dead_letter_jobs s \<Longrightarrow> R s t"
begin

lemma worker_update_R: "guar R (worker_update v h)"
  by (rule guarI) (simp add: frame_R worker_update_def worker_put_def split: option.split)

lemma worker_create_R: "guar R (worker_create v)"
  by (rule guarI) (simp add: frame_R worker_create_def)

end

section \<open>A dead-lettered job has its dead letter\<close>

definition dead_letters_recorded :: "world \<Rightarrow> bool" where
  "dead_letters_recorded w \<longleftrightarrow>
     (\<forall>j\<in>set (jobs w). j_status j = Dead_letter \<longrightarrow> dlq_find w (j_id j) \<noteq> None)"

abbreviation dlr :: "world \<Rightarrow> world \<Rightarrow> bool" where
  "dlr \<equiv> (\<lambda>s t. dead_letters_recorded s \<longrightarrow> dead_letters_recorded t)"

lemma dead_letters_recorded_alt:
  "dead_letters_recorded w \<longleftrightarrow>
    (\<forall>j\<in>set (jobs w). j_status j = Dead_letter \<longrightarrow> j_id j \<in> d_originalJobId ` set (dead_letter_jobs w))"
  by (auto simp: dead_letters_recorded_def dlq_find_def find_by_None_iff)

interpretation dlr: job_tables dlr
  by unfold_locales
    (fastforce simp: dead_letters_recorded_alt harmless_defs update_where_def update_by_def image_iff)+

section \<open>The table of jobs only grows\<close>

definition ids_grow :: "world \<Rightarrow> world \<Rightarrow> bool" where
  "ids_grow s t \<longleftrightarrow> (\<exists>new. map j_id (jobs t) = map j_id (jobs s) @ new) \<and>
     (distinct (map j_id (jobs s)) \<longrightarrow> distinct (map j_id (jobs t)))"

lemma ids_grow_same: "map j_id (jobs t) = map j_id (jobs s) \<Longrightarrow> ids_grow s t"
  by (simp add: ids_grow_def)

interpretation ids_grow: job_tables ids_grow
proof unfold_locales
  show "ids_grow s u" if "ids_grow s t" "ids_grow t u" for s t u
    using that by (auto simp: ids_grow_def)
  show "ids_grow s (s\<lparr>jobs := jobs s @ [j]\<rparr>)" if "job_find s (j_id j) = None" for s j
    using that by (auto simp: ids_grow_def job_find_def find_by_None_iff)
qed (auto intro!: ids_grow_same simp: harmless_defs update_where_def update_by_def)

section \<open>An idempotency key is used once per queue\<close>

definition idempotency_unique :: "world \<Rightarrow> bool" where
  "idempotency_unique w \<longleftrightarrow> distinct (map (\<lambda>j. (j_queueId j, j_idempotencyKey j))
     (filter (\<lambda>j. j_idempotencyKey j \<noteq> None) (jobs w)))"

abbreviation unique_keys :: "world \<Rightarrow> world \<Rightarrow> bool" where
  "unique_keys \<equiv> (\<lambda>s t. idempotency_unique s \<longrightarrow> idempotency_unique t)"

lemma keys_map:
  assumes "\<And>j. j_queueId (f j) = j_queueId j" and "\<And>j. j_idempotencyKey (f j) = j_idempotencyKey j"
  shows "map (\<lambda>j. (j_queueId j, j_idempotencyKey j)) (filter (\<lambda>j. j_idempotencyKey j \<noteq> None) (map f js)) =
    map (\<lambda>j. (j_queueId j, j_idempotencyKey j)) (filter (\<lambda>j. j_idempotencyKey j \<noteq> None) js)"
  by (induction js) (simp_all add: assms)

lemma unique_same_keys:
  assumes "keeps_columns f" and "jobs t = update_where p f (jobs s)"
  shows "unique_keys s t"
proof -
  have "map (\<lambda>j. (j_queueId j, j_idempotencyKey j)) (filter (\<lambda>j. j_idempotencyKey j \<noteq> None) (jobs t)) =
    map (\<lambda>j. (j_queueId j, j_idempotencyKey j)) (filter (\<lambda>j. j_idempotencyKey j \<noteq> None) (jobs s))"
    unfolding assms(2) update_where_def by (rule keys_map) (use assms(1) in \<open>simp_all add: keeps_columns_def\<close>)
  then show ?thesis by (simp add: idempotency_unique_def)
qed

interpretation unique_keys: job_tables unique_keys
proof unfold_locales
  have by_where: "update_by j_id i f js = update_where (\<lambda>j. j_id j = i) f js" for i f js
    by (simp add: update_by_def update_where_def)
  show "unique_keys s t" if "jobs t = jobs s" for s t
    using that by (simp add: idempotency_unique_def)
  show "unique_keys s t" if "jobs t = jobs s" "dead_letter_jobs t = dead_letter_jobs s" for s t
    using that by (simp add: idempotency_unique_def)
  show "unique_keys s (s\<lparr>jobs := update_where p f (jobs s)\<rparr>)" if "harmless f" for f s p
    using that by (intro unique_same_keys [where f = f and p = p]) (simp_all add: harmless_def)
  show "unique_keys s (s\<lparr>jobs := jobs s @ [j]\<rparr>)" if "\<not> list_ex (idem_clash j) (jobs s)" for s j
    using that by (auto simp: idempotency_unique_def list_ex_iff idem_clash_def)
  have put: "unique_keys s (s\<lparr>jobs := update_by j_id i f (jobs s), dead_letter_jobs := ds\<rparr>)"
    if "keeps_columns f" for f i s ds
    using that by (intro unique_same_keys [where f = f and p = "\<lambda>j. j_id j = i"]) (simp_all add: by_where)
  show "unique_keys s (s\<lparr>jobs := update_by j_id i f (jobs s), dead_letter_jobs := dead_letter_jobs s @ [d]\<rparr>)"
    if "keeps_columns f" for f i s d by (rule put [OF that])
  show "unique_keys s (s\<lparr>jobs := update_by j_id i f (jobs s),
      dead_letter_jobs := filter (\<lambda>d. d_originalJobId d \<noteq> i) (dead_letter_jobs s)\<rparr>)"
    if "keeps_columns f" for f i s by (rule put [OF that])
qed

section \<open>Workers' rows\<close>

text \<open>Claiming, executing, scheduling and the routes leave the table of workers alone.\<close>

interpretation same_workers: row_tables "\<lambda>s t. workers t = workers s"
  by unfold_locales auto

section \<open>The rows of other jobs\<close>

definition other_rows :: "ident \<Rightarrow> world \<Rightarrow> Job list \<times> DeadLetterJob list" where
  "other_rows i w = (filter (\<lambda>j. j_id j \<noteq> i) (jobs w),
     filter (\<lambda>d. d_originalJobId d \<noteq> i) (dead_letter_jobs w))"

lemma filter_update_by:
  "(\<And>r. key (f r) = key r) \<Longrightarrow>
    filter (\<lambda>r. key r \<noteq> k) (update_by key k f rows) = filter (\<lambda>r. key r \<noteq> k) rows"
  by (induction rows) (simp_all add: update_by_def)

lemma other_rows_calls:
  shows "keeps_key j_id f \<Longrightarrow> guar (\<lambda>s t. other_rows i t = other_rows i s) (job_update i f)"
    and "guar (\<lambda>s t. other_rows i t = other_rows i s) (exec_update x g)"
    and "guar (\<lambda>s t. other_rows i t = other_rows i s) (exec_create e)"
    and "guar (\<lambda>s t. other_rows i t = other_rows i s) (log_create l)"
    and "d_originalJobId d = i \<Longrightarrow> guar (\<lambda>s t. other_rows i t = other_rows i s) (dlq_create d)"
    and "guar (\<lambda>s t. other_rows i t = other_rows i s) (dlq_delete i)"
    and "guar (\<lambda>s t. other_rows i t = other_rows i s) (publish c m)"
proof -
  show "keeps_key j_id f \<Longrightarrow> guar (\<lambda>s t. other_rows i t = other_rows i s) (job_update i f)"
    by (auto intro!: guarI simp: job_update_def job_put_def other_rows_def filter_update_by
        keeps_key_def split: option.split)
qed (auto intro!: guarI simp: exec_update_def exec_put_def exec_create_def log_create_def
    dlq_create_def dlq_delete_def publish_def modifyA_def other_rows_def split: option.split)

section \<open>Where a job is in its life\<close>

definition progress :: "Job \<Rightarrow> JobStatus \<times> int" where
  "progress j = (j_status j, j_attemptCount j)"

end
