(* ===== verification/Claimer.thy ===== *)
theory Claimer
  imports Errors Invariants "HOL-Library.Product_Lexorder"
begin

text \<open>
  \<open>worker/src/claimer.ts\<close>: claiming the available jobs of a queue. The \<open>SELECT .. FOR UPDATE
  SKIP LOCKED\<close> is the filter, the sort and the limit of its text on the committed rows; the rows
  locked by other open transactions are the argument \<open>locked\<close>. Ties of the \<open>ORDER BY\<close> are
  broken by the scan order, that is by the order of the table, which is arbitrary.
\<close>

datatype claim_point = C_count | C_transaction

definition in_flight_status :: "JobStatus \<Rightarrow> bool" where
  "in_flight_status s \<longleftrightarrow> s = Claimed \<or> s = Running"

text \<open>\<open>prisma.job.count({ queueId, status: { in: ['claimed', 'running'] } })\<close>.\<close>

definition in_flight :: "ident \<Rightarrow> world \<Rightarrow> nat" where
  "in_flight queueId w =
     count_where (\<lambda>j. j_queueId j = queueId \<and> in_flight_status (j_status j)) (jobs w)"

definition claimable :: "timestamp \<Rightarrow> ident \<Rightarrow> Job \<Rightarrow> bool" where
  "claimable now queueId j \<longleftrightarrow> j_queueId j = queueId \<and> j_status j = Queued \<and> j_runAt j \<le> now"

definition claim_order :: "Job \<Rightarrow> int \<times> int" where
  "claim_order j = (- j_priority j, j_runAt j)"

text \<open>The rows the locking \<open>SELECT\<close> returns, and locks.\<close>

definition select_for_update ::
    "timestamp \<Rightarrow> ident set \<Rightarrow> ident \<Rightarrow> nat \<Rightarrow> world \<Rightarrow> ident list" where
  "select_for_update now locked queueId limit w =
     map j_id (take limit (sort_key claim_order
       (filter (\<lambda>j. claimable now queueId j \<and> j_id j \<notin> locked) (jobs w))))"

text \<open>\<open>UPDATE jobs SET status = 'claimed', updated_at = now() WHERE id = ANY(ids)\<close>.\<close>

definition mark_claimed :: "timestamp \<Rightarrow> ident list \<Rightarrow> world \<Rightarrow> world" where
  "mark_claimed now ids w =
     w\<lparr>jobs := update_where (\<lambda>j. j_id j \<in> set ids)
        (\<lambda>j. j\<lparr>j_status := Claimed, j_updatedAt := now\<rparr>) (jobs w)\<rparr>"

definition claim_transaction ::
    "timestamp \<Rightarrow> ident set \<Rightarrow> ident \<Rightarrow> nat \<Rightarrow> ident list action" where
  "claim_transaction now locked queueId available =
     bindA (readA (select_for_update now locked queueId available)) (\<lambda>ids.
     if ids = [] then retA []
     else bindA (modifyA (mark_claimed now ids)) (\<lambda>_. retA ids))"

definition available_slots :: "int \<Rightarrow> nat \<Rightarrow> nat" where
  "available_slots concurrencyLimit inFlight = nat (max 0 (concurrencyLimit - int inFlight))"

definition claimJobs ::
    "claim_point env \<Rightarrow> ident set \<Rightarrow> ident \<Rightarrow> int \<Rightarrow> ident list action" where
  "claimJobs env locked queueId concurrencyLimit =
     bindA (callA env C_count (readA (in_flight queueId))) (\<lambda>inFlight.
     let available = available_slots concurrencyLimit inFlight in
     if available = 0 then retA []
     else catchA
       (callA env C_transaction
          (atomicA (claim_transaction (clock env C_transaction) locked queueId available)))
       (\<lambda>err. retA []))"

section \<open>The selection\<close>

lemma set_take_subset_sort: "x \<in> set (take n (sort_key f xs)) \<Longrightarrow> x \<in> set xs"
  by (auto dest: in_set_takeD)

lemma select_selected:
  assumes "i \<in> set (select_for_update now locked q n w)"
  shows "\<exists>j \<in> set (jobs w). j_id j = i \<and> claimable now q j \<and> i \<notin> locked"
  using assms by (auto simp: select_for_update_def dest!: set_take_subset_sort)

lemma select_length: "length (select_for_update now locked q n w) \<le> n"
  by (simp add: select_for_update_def)

lemma select_exact_length:
  "length (select_for_update now locked q n w) =
     min n (count_where (\<lambda>j. claimable now q j \<and> j_id j \<notin> locked) (jobs w))"
  by (simp add: select_for_update_def count_where_def min.commute)

lemma distinct_map_filter_key: "distinct (map f xs) \<Longrightarrow> distinct (map f (filter p xs))"
  by (induction xs) auto

lemma distinct_map_sort_key:
  fixes k :: "'a \<Rightarrow> 'b::linorder"
  assumes "distinct (map f xs)"
  shows "distinct (map f (sort_key k xs))"
proof -
  have "distinct xs" using assms by (simp add: distinct_map)
  moreover have "inj_on f (set xs)" using assms by (simp add: distinct_map)
  ultimately show ?thesis by (simp add: distinct_map)
qed

lemma select_distinct:
  assumes "distinct (map j_id (jobs w))"
  shows "distinct (select_for_update now locked q n w)"
proof -
  have "distinct (map j_id (sort_key claim_order (filter (\<lambda>j. claimable now q j \<and> j_id j \<notin> locked) (jobs w))))"
    by (intro distinct_map_sort_key distinct_map_filter_key assms)
  then show ?thesis by (simp add: select_for_update_def take_map [symmetric])
qed

text \<open>
  The \<open>ORDER BY priority DESC, run_at ASC\<close>: no job left out precedes a job taken.
\<close>

lemma take_sort_key_least:
  fixes k :: "'a \<Rightarrow> 'b::linorder"
  assumes "x \<in> set (take n (sort_key k xs))" and "y \<in> set (drop n (sort_key k xs))"
  shows "k x \<le> k y"
proof -
  have "sorted (map k (take n (sort_key k xs)) @ map k (drop n (sort_key k xs)))"
    by (metis append_take_drop_id map_append sorted_sort_key)
  with assms show ?thesis by (auto simp: sorted_append)
qed

lemma select_priority:
  assumes j: "j \<in> set (jobs w)" "claimable now q j" "j_id j \<notin> locked"
    and out: "j_id j \<notin> set (select_for_update now locked q n w)"
    and i: "i \<in> set (select_for_update now locked q n w)"
  shows "\<exists>k \<in> set (jobs w). j_id k = i \<and> claim_order k \<le> claim_order j"
proof -
  let ?c = "filter (\<lambda>j. claimable now q j \<and> j_id j \<notin> locked) (jobs w)"
  from i obtain k where k: "k \<in> set (take n (sort_key claim_order ?c))" "j_id k = i"
    by (auto simp: select_for_update_def)
  have "j \<in> set (sort_key claim_order ?c)" using j by simp
  moreover have "j \<notin> set (take n (sort_key claim_order ?c))"
    using out by (auto simp: select_for_update_def)
  ultimately have "j \<in> set (drop n (sort_key claim_order ?c))"
    by (metis Un_iff append_take_drop_id set_append)
  with k have "claim_order k \<le> claim_order j" by (intro take_sort_key_least)
  moreover have "k \<in> set (jobs w)" using k(1) by (auto dest: set_take_subset_sort)
  ultimately show ?thesis using k(2) by blast
qed

section \<open>The update\<close>

lemma job_find_mark_claimed:
  "job_find (mark_claimed now ids w) i =
     map_option (\<lambda>j. if i \<in> set ids then j\<lparr>j_status := Claimed, j_updatedAt := now\<rparr> else j)
       (job_find w i)"
proof -
  have "find_by j_id i (update_where (\<lambda>j. j_id j \<in> set ids)
      (\<lambda>j. j\<lparr>j_status := Claimed, j_updatedAt := now\<rparr>) (jobs w)) =
    map_option (\<lambda>j. if j_id j \<in> set ids then j\<lparr>j_status := Claimed, j_updatedAt := now\<rparr> else j)
      (find_by j_id i (jobs w))"
    by (rule find_by_update_where) simp
  then show ?thesis
    by (auto simp: job_find_def mark_claimed_def map_option_case dest: find_by_SomeD
        split: option.splits)
qed

lemma map_j_id_mark_claimed [simp]: "map j_id (jobs (mark_claimed now ids w)) = map j_id (jobs w)"
  by (simp add: mark_claimed_def update_where_def)

lemma mark_claimed_other_tables [simp]:
  "queues (mark_claimed now ids w) = queues w"
  "job_executions (mark_claimed now ids w) = job_executions w"
  "dead_letter_jobs (mark_claimed now ids w) = dead_letter_jobs w"
  "workers (mark_claimed now ids w) = workers w"
  "published (mark_claimed now ids w) = published w"
  by (simp_all add: mark_claimed_def)

lemma count_where_map: "count_where p (map f xs) = count_where (\<lambda>x. p (f x)) xs"
  by (induction xs) (auto simp: count_where_def)

lemma count_where_Suc_split:
  "count_where (\<lambda>x. p x \<or> q x) xs \<le> count_where p xs + count_where q xs"
  by (induction xs) (auto simp: count_where_def)

lemma count_ids_le: "distinct (map f xs) \<Longrightarrow> count_where (\<lambda>x. f x \<in> set ids) xs \<le> length ids"
proof -
  assume d: "distinct (map f xs)"
  have "count_where (\<lambda>x. f x \<in> set ids) xs = length (map f (filter (\<lambda>x. f x \<in> set ids) xs))"
    by (simp add: count_where_def)
  also have "\<dots> = card (set (map f (filter (\<lambda>x. f x \<in> set ids) xs)))"
    using distinct_map_filter_key [OF d] by (metis distinct_card)
  also have "\<dots> \<le> card (set ids)" by (intro card_mono) auto
  also have "\<dots> \<le> length ids" by (rule card_length)
  finally show ?thesis .
qed

text \<open>Marking rows as claimed adds at most one in-flight job per id.\<close>

lemma in_flight_mark_claimed:
  assumes "distinct (map j_id (jobs w))"
  shows "in_flight q (mark_claimed now ids w) \<le> in_flight q w + length ids"
proof -
  have "in_flight q (mark_claimed now ids w) =
      count_where (\<lambda>j. j_queueId j = q \<and> (j_id j \<in> set ids \<or> in_flight_status (j_status j))) (jobs w)"
    by (auto simp: in_flight_def mark_claimed_def update_where_def count_where_map in_flight_status_def
        intro!: arg_cong [where f = "\<lambda>p. count_where p (jobs w)"])
  also have "\<dots> \<le> count_where (\<lambda>j. (j_queueId j = q \<and> in_flight_status (j_status j)) \<or> j_id j \<in> set ids) (jobs w)"
    by (rule count_where_mono) auto
  also have "\<dots> \<le> in_flight q w + count_where (\<lambda>j. j_id j \<in> set ids) (jobs w)"
    unfolding in_flight_def by (rule count_where_Suc_split)
  also have "\<dots> \<le> in_flight q w + length ids"
    using count_ids_le [OF assms] by simp
  finally show ?thesis .
qed

section \<open>claimJobs\<close>

lemma claim_transaction_run:
  "claim_transaction now locked q n w =
     (let ids = select_for_update now locked q n w
      in (Inr ids, if ids = [] then w else mark_claimed now ids w))"
  by (simp add: claim_transaction_def act_defs Let_def)

lemma mark_claimed_Nil [simp]: "mark_claimed now [] w = w"
  by (simp add: mark_claimed_def update_where_def)

lemma claimJobs_run:
  assumes "fails env C_count = None"
  shows "claimJobs env locked q limit w =
    (let n = available_slots limit (in_flight q w);
         ids = (if fails env C_transaction = None
                then select_for_update (clock env C_transaction) locked q n w else [])
     in (Inr ids, mark_claimed (clock env C_transaction) ids w))"
proof (cases "available_slots limit (in_flight q w) = 0")
  case True
  then show ?thesis
    using assms select_length [of "clock env C_transaction" locked q 0 w]
    by (simp add: claimJobs_def bindA_def readA_def retA_def Let_def)
next
  case False
  show ?thesis
  proof (cases "fails env C_transaction")
    case None
    with False assms show ?thesis
      by (simp add: claimJobs_def bindA_def readA_def catchA_def atomicA_def Let_def
          claim_transaction_run)
  next
    case (Some e)
    with False assms show ?thesis
      by (simp add: claimJobs_def bindA_def readA_def retA_def Let_def)
  qed
qed

text \<open>The only exception \<open>claimJobs\<close> lets out is that of the first count.\<close>

lemma claimJobs_throws:
  "fst (claimJobs env locked q limit w) = Inl e \<Longrightarrow> fails env C_count = Some e"
  by (cases "fails env C_count")
    (auto simp: claimJobs_run Let_def, simp add: claimJobs_def throwA_def bindA_def)

section \<open>What a call can do to the queues\<close>

lemma claimJobs_result:
  "\<exists>ids. set ids \<subseteq> {i. \<exists>j\<in>set (jobs w). j_id j = i \<and> j_queueId j = q \<and> j_status j = Queued} \<and>
     length ids \<le> available_slots limit (in_flight q w) \<and>
     snd (claimJobs env locked q limit w) = mark_claimed (clock env C_transaction) ids w \<and>
     (\<forall>r. fst (claimJobs env locked q limit w) = Inr r \<longrightarrow> r = ids)"
proof (cases "fails env C_count")
  case None
  let ?now = "clock env C_transaction" and ?n = "available_slots limit (in_flight q w)"
  define ids where "ids = (if fails env C_transaction = None
    then select_for_update ?now locked q ?n w else [])"
  have run: "claimJobs env locked q limit w = (Inr ids, mark_claimed ?now ids w)"
    by (simp add: claimJobs_run [OF None] Let_def ids_def)
  have "set ids \<subseteq> {i. \<exists>j\<in>set (jobs w). j_id j = i \<and> j_queueId j = q \<and> j_status j = Queued}"
    using select_selected by (fastforce simp: ids_def claimable_def)
  moreover have "length ids \<le> ?n" by (simp add: ids_def select_length)
  ultimately show ?thesis using run by (intro exI [of _ ids]) simp
next
  case (Some e)
  then show ?thesis by (intro exI [of _ "[]"]) (simp add: claimJobs_def throwA_def bindA_def)
qed

lemma claimJobs_in_flight:
  assumes "distinct (map j_id (jobs w))"
  shows "int (in_flight q (snd (claimJobs env locked q limit w))) \<le> max (int (in_flight q w)) limit"
proof -
  obtain ids where "length ids \<le> available_slots limit (in_flight q w)"
      "snd (claimJobs env locked q limit w) = mark_claimed (clock env C_transaction) ids w"
    using claimJobs_result [of w q limit env locked] by blast
  then show ?thesis
    using in_flight_mark_claimed [OF assms, of q "clock env C_transaction" ids]
    by (simp add: available_slots_def)
qed

text \<open>The rows of another queue are not touched.\<close>

lemma claimJobs_other_queue:
  assumes "distinct (map j_id (jobs w))" and "q' \<noteq> q"
  shows "filter (\<lambda>j. j_queueId j = q') (jobs (snd (claimJobs env locked q limit w))) =
    filter (\<lambda>j. j_queueId j = q') (jobs w)"
proof -
  obtain ids where ids: "set ids \<subseteq> {i. \<exists>j\<in>set (jobs w). j_id j = i \<and> j_queueId j = q \<and> j_status j = Queued}"
      and run: "snd (claimJobs env locked q limit w) = mark_claimed (clock env C_transaction) ids w"
    using claimJobs_result [of w q limit env locked] by blast
  have other: "j_id j \<notin> set ids" if "j \<in> set (jobs w)" "j_queueId j = q'" for j
  proof
    assume "j_id j \<in> set ids"
    with ids obtain k where "k \<in> set (jobs w)" "j_id k = j_id j" "j_queueId k = q" by auto
    with assms that show False by (auto simp: distinct_map dest: inj_onD)
  qed
  have "filter (\<lambda>j. j_queueId j = q') (map (\<lambda>r. if j_id r \<in> set ids then f r else r) rows) =
      filter (\<lambda>j. j_queueId j = q') rows"
    if "\<forall>j\<in>set rows. j_queueId j = q' \<longrightarrow> j_id j \<notin> set ids" "\<And>r. j_queueId (f r) = j_queueId r"
    for rows and f :: "Job \<Rightarrow> Job"
    using that by (induction rows) auto
  from this [of "jobs w" "\<lambda>j. j\<lparr>j_status := Claimed, j_updatedAt := clock env C_transaction\<rparr>"]
  show ?thesis using other by (simp add: run mark_claimed_def update_where_def)
qed

lemma in_flight_queue_rows:
  "in_flight q w = count_where (\<lambda>j. in_flight_status (j_status j)) (filter (\<lambda>j. j_queueId j = q) (jobs w))"
  by (simp add: in_flight_def count_where_def conj_commute)

lemma claimJobs_frame [simp]:
  "map j_id (jobs (snd (claimJobs env locked q limit w))) = map j_id (jobs w)"
  "queues (snd (claimJobs env locked q limit w)) = queues w"
  using claimJobs_result [of w q limit env locked] by auto

context row_tables
begin

lemma claimJobs_R: "guar R (claimJobs env locked q limit)"
proof -
  have "guar R (modifyA (mark_claimed now ids))" for now ids
    by (rule modify_guar) (simp add: mark_claimed_def rows_R harmless_defs)
  then show ?thesis
    unfolding claimJobs_def claim_transaction_def Let_def by (intro walk)
qed

end

end
