(* ===== verification/Samples.thy ===== *)
theory Samples
  imports Schema
begin

text \<open>
  A small database and an environment in which every call succeeds: the concrete inputs at which
  the theories evaluate their operations.
\<close>

definition sample_job :: "ident \<Rightarrow> int \<Rightarrow> Job" where
  "sample_job i p = \<lparr>j_id = i, j_queueId = ''q'', j_type = ''echo'', j_payload = JObj [],
     j_status = Queued, j_priority = p, j_runAt = 0, j_batchId = None, j_attemptCount = 0,
     j_retryPolicyId = None, j_idempotencyKey = None, j_createdAt = 0, j_updatedAt = 0\<rparr>"

definition sample_queue :: Queue where
  "sample_queue = \<lparr>q_id = ''q'', q_projectId = ''p'', q_name = ''mail'', q_priority = 0,
     q_concurrencyLimit = 2, q_isPaused = False, q_defaultRetryPolicyId = None, q_createdAt = 0\<rparr>"

definition sample_worker :: "ident \<Rightarrow> timestamp \<Rightarrow> Worker" where
  "sample_worker i beat = \<lparr>wk_id = i, wk_hostname = ''host'', wk_pid = 1, wk_status = Active,
     wk_startedAt = 0, wk_lastHeartbeatAt = beat\<rparr>"

definition sample_execution :: "ident \<Rightarrow> ident \<Rightarrow> ident \<Rightarrow> JobExecution" where
  "sample_execution x job worker = \<lparr>x_id = x, x_jobId = job, x_workerId = worker,
     x_attemptNumber = 1, x_startedAt = 0, x_finishedAt = None, x_status = ''running'',
     x_errorMessage = None, x_durationMs = None\<rparr>"

definition calm_env :: "timestamp \<Rightarrow> 'p env" where
  "calm_env t = \<lparr>fails = (\<lambda>_. None), clock = (\<lambda>_. t), fresh = (\<lambda>_. ''new'')\<rparr>"

lemma calm_env_simps [simp]:
  "fails (calm_env t) p = None" "clock (calm_env t) p = t" "fresh (calm_env t) p = ''new''"
  by (simp_all add: calm_env_def)

lemmas sample_defs =
  sample_job_def sample_queue_def sample_worker_def sample_execution_def empty_world_def

end
