(* ===== verification/ClaimProtocol.thy ===== *)
theory ClaimProtocol
  imports Claimer Samples "HOL-Library.Multiset"
begin

text \<open>
  \<open>claimJobs\<close> run by several workers at once on one queue. A call is three atomic steps of the
  database: the count, the locking \<open>SELECT\<close> (which skips the rows other open transactions
  hold), and the commit, which makes the \<open>UPDATE\<close> visible and releases the locks; an error
  rolls back. Any interleaving of these steps is a run, together with what the rest of the
  system does to the same rows meanwhile: submit a job, requeue one, change its status. A
  statement that writes a row locked by a claim waits for the lock, so those steps need an
  unlocked row.

  Two ghost lists record the history: what each call returned, and each time a job was put
  into status \<open>queued\<close>.
\<close>

datatype claim_pc =
    Idle
  | Counted nat                     \<comment> \<open>after the count: free slots seen\<close>
  | Locked timestamp "ident list"   \<comment> \<open>inside the transaction: its \<open>now()\<close>, rows held\<close>

record claim_state =
  cs_world :: world
  cs_pcs :: "claim_pc list"                 \<comment> \<open>one per worker\<close>
  cs_returned :: "(nat \<times> ident list) list"  \<comment> \<open>worker, ids\<close>
  cs_enqueued :: "ident list"

fun held :: "claim_pc \<Rightarrow> ident list" where
  "held (Locked t ids) = ids"
| "held _ = []"

definition locked_list :: "claim_state \<Rightarrow> ident list" where
  "locked_list s = concat (map held (cs_pcs s))"

definition is_queued :: "world \<Rightarrow> ident \<Rightarrow> bool" where
  "is_queued w i \<longleftrightarrow> (case job_find w i of None \<Rightarrow> False | Some j \<Rightarrow> j_status j = Queued)"

datatype claim_event =
    Count nat
  | Lock nat timestamp
  | Commit nat
  | Rollback nat
  | Submit Job
  | Requeue ident timestamp
  | Work ident JobStatus
  | Zombie ident

definition set_status :: "JobStatus \<Rightarrow> Job \<Rightarrow> Job" where
  "set_status st j = j\<lparr>j_status := st\<rparr>"

fun claim_step :: "ident \<Rightarrow> int \<Rightarrow> claim_event \<Rightarrow> claim_state \<Rightarrow> claim_state option" where
  "claim_step q limit (Count k) s =
     (if k < length (cs_pcs s) \<and> cs_pcs s ! k = Idle then
        (let n = available_slots limit (in_flight q (cs_world s))
         in Some (s\<lparr>cs_pcs := (cs_pcs s)[k := if n = 0 then Idle else Counted n]\<rparr>))
      else None)"
| "claim_step q limit (Lock k now) s =
     (if k < length (cs_pcs s) then
        (case cs_pcs s ! k of
           Counted n \<Rightarrow>
             (let ids = select_for_update now (set (locked_list s)) q n (cs_world s)
              in Some (s\<lparr>cs_pcs := (cs_pcs s)[k := if ids = [] then Idle else Locked now ids]\<rparr>))
         | _ \<Rightarrow> None)
      else None)"
| "claim_step q limit (Commit k) s =
     (if k < length (cs_pcs s) then
        (case cs_pcs s ! k of
           Locked now ids \<Rightarrow>
             Some (s\<lparr>cs_world := mark_claimed now ids (cs_world s),
                     cs_pcs := (cs_pcs s)[k := Idle],
                     cs_returned := cs_returned s @ [(k, ids)]\<rparr>)
         | _ \<Rightarrow> None)
      else None)"
| "claim_step q limit (Rollback k) s =
     (if k < length (cs_pcs s) then Some (s\<lparr>cs_pcs := (cs_pcs s)[k := Idle]\<rparr>) else None)"
| "claim_step q limit (Submit j) s =
     (if in_flight_status (j_status j) then None
      else case job_create j (cs_world s) of
        (Inl _, _) \<Rightarrow> None
      | (Inr _, w) \<Rightarrow>
          Some (s\<lparr>cs_world := w,
                  cs_enqueued := cs_enqueued s @ (if j_status j = Queued then [j_id j] else [])\<rparr>))"
| "claim_step q limit (Requeue i now) s =
     (if i \<in> set (locked_list s) \<or> job_find (cs_world s) i = None then None
      else Some (s\<lparr>cs_world := job_put i (\<lambda>j. j\<lparr>j_status := Queued, j_runAt := now\<rparr>) (cs_world s),
                   cs_enqueued := cs_enqueued s @ [i]\<rparr>))"
| "claim_step q limit (Work i st) s =
     (case job_find (cs_world s) i of
        None \<Rightarrow> None
      | Some j \<Rightarrow>
          if i \<in> set (locked_list s) \<or> st = Queued \<or>
             (in_flight_status st \<and> \<not> in_flight_status (j_status j)) then None
          else Some (s\<lparr>cs_world := job_put i (set_status st) (cs_world s)\<rparr>))"
| "claim_step q limit (Zombie i) s =
     (if i \<in> set (locked_list s) \<or> job_find (cs_world s) i = None then None
      else Some (s\<lparr>cs_world := job_put i (set_status Running) (cs_world s)\<rparr>))"

fun claim_run :: "ident \<Rightarrow> int \<Rightarrow> claim_event list \<Rightarrow> claim_state \<Rightarrow> claim_state option" where
  "claim_run q limit [] s = Some s"
| "claim_run q limit (e # es) s =
     (case claim_step q limit e s of None \<Rightarrow> None | Some t \<Rightarrow> claim_run q limit es t)"

definition claim_start :: "nat \<Rightarrow> world \<Rightarrow> claim_state" where
  "claim_start n w =
     \<lparr>cs_world = w, cs_pcs = replicate n Idle, cs_returned = [],
      cs_enqueued = map j_id (filter (\<lambda>j. j_status j = Queued) (jobs w))\<rparr>"

fun_cases CountE: "claim_step q limit (Count k) s = Some t"
fun_cases LockE: "claim_step q limit (Lock k now) s = Some t"
fun_cases CommitE: "claim_step q limit (Commit k) s = Some t"
fun_cases RollbackE: "claim_step q limit (Rollback k) s = Some t"
fun_cases SubmitE: "claim_step q limit (Submit j) s = Some t"
fun_cases RequeueE: "claim_step q limit (Requeue i now) s = Some t"
fun_cases WorkE: "claim_step q limit (Work i st) s = Some t"
fun_cases ZombieE: "claim_step q limit (Zombie i) s = Some t"

lemmas claim_step_cases = CountE LockE CommitE RollbackE SubmitE RequeueE WorkE ZombieE

section \<open>Invariants along a run\<close>

text \<open>
  A labelled transition function with an invariant: what holds at the start and is kept by every
  step allowed by \<open>ok\<close> holds after every run of such steps.
\<close>

locale run_invariant =
  fixes step :: "'e \<Rightarrow> 's \<Rightarrow> 's option"
    and run :: "'e list \<Rightarrow> 's \<Rightarrow> 's option"
    and ok :: "'e \<Rightarrow> bool"
    and inv :: "'s \<Rightarrow> bool"
  assumes run_Nil: "run [] s = Some s"
    and run_Cons: "run (e # es) s = Option.bind (step e s) (run es)"
    and step_inv: "ok e \<Longrightarrow> step e s = Some t \<Longrightarrow> inv s \<Longrightarrow> inv t"
begin

lemma run_inv: "run es s = Some t \<Longrightarrow> inv s \<Longrightarrow> \<forall>e \<in> set es. ok e \<Longrightarrow> inv t"
proof (induction es arbitrary: s)
  case (Cons e es)
  then obtain u where u: "step e s = Some u" "run es u = Some t"
    by (auto simp: run_Cons bind_eq_Some_conv)
  then have "inv u" using Cons.prems step_inv by auto
  then show ?case using u(2) Cons by auto
qed (simp add: run_Nil)

lemma run_append: "run (es @ fs) s = Option.bind (run es s) (run fs)"
proof (induction es arbitrary: s)
  case (Cons e es)
  then show ?case by (cases "step e s") (simp_all add: run_Cons)
qed (simp add: run_Nil)

end

subsection \<open>Locks and the ledger of claims\<close>

definition returned_ids :: "claim_state \<Rightarrow> ident list" where
  "returned_ids s = concat (map snd (cs_returned s))"

text \<open>
  No row is locked twice; a locked row is a queued job; and a job has been returned by
  \<open>claimJobs\<close> at most as often as it was queued, one time less while it still is.
\<close>

definition ledger :: "claim_state \<Rightarrow> bool" where
  "ledger s \<longleftrightarrow>
     distinct (map j_id (jobs (cs_world s))) \<and>
     distinct (locked_list s) \<and>
     (\<forall>i \<in> set (locked_list s). is_queued (cs_world s) i) \<and>
     (\<forall>i. count_list (returned_ids s) i + of_bool (is_queued (cs_world s) i)
          \<le> count_list (cs_enqueued s) i)"

lemma mset_concat_update:
  "k < length ps \<Longrightarrow>
    mset (concat (map f (ps[k := p]))) + mset (f (ps ! k)) = mset (concat (map f ps)) + mset (f p)"
proof (induction ps arbitrary: k)
  case (Cons a ps)
  then show ?case by (cases k) (auto simp: ac_simps)
qed simp

lemma count_list_mset: "count_list xs x = count (mset xs) x"
  by (induction xs) auto

lemma distinct_count_list: "distinct xs \<longleftrightarrow> (\<forall>x. count_list xs x \<le> 1)"
  by (auto simp: count_list_mset distinct_count_atmost_1 not_in_iff le_Suc_eq)

lemma count_concat_update:
  assumes "k < length ps"
  shows "count_list (concat (map f (ps[k := p]))) x + count_list (f (ps ! k)) x =
    count_list (concat (map f ps)) x + count_list (f p) x"
proof -
  have "count (mset (concat (map f (ps[k := p]))) + mset (f (ps ! k))) x =
      count (mset (concat (map f ps)) + mset (f p)) x"
    by (simp only: mset_concat_update [OF assms])
  then show ?thesis by (simp only: count_union count_list_mset)
qed

text \<open>Releasing what worker \<open>k\<close> holds, and taking rows nobody holds.\<close>

lemma locked_release:
  assumes "k < length (cs_pcs s)" and "held p = []" and "distinct (locked_list s)"
    and t: "cs_pcs t = (cs_pcs s)[k := p]"
  shows "distinct (locked_list t)"
    and "set (locked_list t) = set (locked_list s) - set (held (cs_pcs s ! k))"
proof -
  have c: "count_list (locked_list t) x + count_list (held (cs_pcs s ! k)) x = count_list (locked_list s) x" for x
    using count_concat_update [OF assms(1), of held p x] assms(2) by (simp add: locked_list_def t)
  have le: "count_list (locked_list s) x \<le> 1" for x
    using assms(3) by (simp add: distinct_count_list)
  show "distinct (locked_list t)"
    unfolding distinct_count_list
  proof
    fix x
    show "count_list (locked_list t) x \<le> 1" using c [of x] le [of x] by linarith
  qed
  show "set (locked_list t) = set (locked_list s) - set (held (cs_pcs s ! k))"
  proof (rule set_eqI)
    fix x
    have pos: "x \<in> set ys \<longleftrightarrow> 0 < count_list ys x" for ys :: "ident list"
      by (metis count_list_0_iff not_gr0)
    show "x \<in> set (locked_list t) \<longleftrightarrow> x \<in> set (locked_list s) - set (held (cs_pcs s ! k))"
      unfolding Diff_iff pos using c [of x] le [of x] by arith
  qed
qed

lemma locked_take:
  assumes "k < length (cs_pcs s)" and "held (cs_pcs s ! k) = []" and "distinct (locked_list s)"
    and "distinct ids" and "set ids \<inter> set (locked_list s) = {}"
    and t: "cs_pcs t = (cs_pcs s)[k := Locked now ids]"
  shows "distinct (locked_list t)" and "set (locked_list t) = set (locked_list s) \<union> set ids"
proof -
  have m: "mset (locked_list t) = mset (locked_list s @ ids)"
    using mset_concat_update [OF assms(1), of held "Locked now ids"] assms(2)
    by (simp add: locked_list_def t)
  show "set (locked_list t) = set (locked_list s) \<union> set ids"
    using mset_eq_setD [OF m] by simp
  have "distinct (locked_list s @ ids)" using assms by auto
  then show "distinct (locked_list t)" using mset_eq_imp_distinct_iff [OF m] by simp
qed


subsection \<open>Every step keeps the ledger\<close>

lemma is_queued_mark_claimed:
  "is_queued (mark_claimed now ids w) i \<longleftrightarrow> is_queued w i \<and> i \<notin> set ids"
  by (auto simp: is_queued_def job_find_mark_claimed split: option.split)

lemma is_queued_put:
  assumes "keeps_key j_id f"
  shows "is_queued (job_put i f w) k \<longleftrightarrow>
    (if k = i then (case job_find w i of None \<Rightarrow> False | Some j \<Rightarrow> j_status (f j) = Queued)
     else is_queued w k)"
  using assms by (auto simp: is_queued_def job_store.get_put split: option.split)

lemma map_j_id_put: "keeps_key j_id f \<Longrightarrow> map j_id (jobs (job_put i f w)) = map j_id (jobs w)"
  by (simp add: job_put_def map_key_update_by keeps_key_def)

lemma distinct_find: "distinct (map j_id (jobs w)) \<Longrightarrow> j \<in> set (jobs w) \<Longrightarrow> job_find w (j_id j) = Some j"
  by (simp add: job_find_def find_by_distinct)

lemma select_is_queued:
  assumes "distinct (map j_id (jobs w))" and "i \<in> set (select_for_update now L q n w)"
  shows "is_queued w i" and "i \<notin> L"
  using select_selected [OF assms(2)] distinct_find [OF assms(1)]
  by (auto simp: is_queued_def claimable_def)

lemma job_create_run:
  assumes "job_create j w = (Inr r, w')"
  shows "w' = w\<lparr>jobs := jobs w @ [j]\<rparr>" and "r = j" and "job_find w (j_id j) = None"
    and "\<not> list_ex (idem_clash j) (jobs w)" and "queue_find w (j_queueId j) \<noteq> None"
  using assms by (auto simp: job_create_def split: if_splits)

lemma is_queued_append:
  "is_queued (w\<lparr>jobs := jobs w @ [j]\<rparr>) i \<longleftrightarrow>
    is_queued w i \<or> (job_find w i = None \<and> j_id j = i \<and> j_status j = Queued)"
  by (auto simp: is_queued_def job_find_def find_by_append split: option.split)

lemma distinct_append_new:
  "distinct (map j_id (jobs w)) \<Longrightarrow> job_find w (j_id j) = None \<Longrightarrow> distinct (map j_id (jobs w @ [j]))"
  by (auto simp: job_find_def find_by_None_iff)

lemma ledgerD:
  assumes "ledger s"
  shows "distinct (map j_id (jobs (cs_world s)))" and "distinct (locked_list s)"
    and "i \<in> set (locked_list s) \<Longrightarrow> is_queued (cs_world s) i"
    and "count_list (returned_ids s) i + of_bool (is_queued (cs_world s) i) \<le> count_list (cs_enqueued s) i"
  using assms by (auto simp: ledger_def)

lemma ledger_pcs:
  assumes "ledger s" and "distinct (locked_list t)"
    and "\<And>i. i \<in> set (locked_list t) \<Longrightarrow> is_queued (cs_world s) i"
    and "cs_world t = cs_world s" and "cs_returned t = cs_returned s" and "cs_enqueued t = cs_enqueued s"
  shows "ledger t"
  using assms by (simp add: ledger_def returned_ids_def)

lemma ledger_release:
  assumes "ledger s" and "k < length (cs_pcs s)" and "held p = []"
  shows "ledger (s\<lparr>cs_pcs := (cs_pcs s)[k := p]\<rparr>)" (is "ledger ?t")
  by (rule ledger_pcs [OF assms(1)])
    (use locked_release [OF assms(2,3) ledgerD(2) [OF assms(1)], of ?t] ledgerD(3) [OF assms(1)]
      in auto)

lemma ledger_lock:
  assumes s: "ledger s" and k: "k < length (cs_pcs s)" and c: "cs_pcs s ! k = Counted n"
    and ids: "ids = select_for_update now (set (locked_list s)) q n (cs_world s)"
    and t: "t = s\<lparr>cs_pcs := (cs_pcs s)[k := Locked now ids]\<rparr>"
  shows "ledger t"
proof (rule ledger_pcs [OF s])
  note d = ledgerD [OF s]
  have sel: "\<And>i. i \<in> set ids \<Longrightarrow> is_queued (cs_world s) i \<and> i \<notin> set (locked_list s)"
    using select_is_queued [OF d(1)] ids by blast
  have "distinct ids" using select_distinct [OF d(1)] ids by simp
  with k c sel d(2) t
  have "distinct (locked_list t)" "set (locked_list t) = set (locked_list s) \<union> set ids"
    using locked_take [of k s ids t now] by auto
  then show "distinct (locked_list t)" "\<And>i. i \<in> set (locked_list t) \<Longrightarrow> is_queued (cs_world s) i"
    using sel d(3) by auto
qed (simp_all add: t)

lemma held_in_locked: "k < length (cs_pcs s) \<Longrightarrow> set (held (cs_pcs s ! k)) \<subseteq> set (locked_list s)"
  by (auto simp: locked_list_def intro!: bexI [of _ "cs_pcs s ! k"])

lemma held_distinct:
  "distinct (locked_list s) \<Longrightarrow> k < length (cs_pcs s) \<Longrightarrow> distinct (held (cs_pcs s ! k))"
  by (auto simp: locked_list_def distinct_concat_iff)

lemma concat_disjoint:
  assumes "distinct (concat (map f xs))" and "k < length xs" and "l < length xs" and "k \<noteq> l"
  shows "set (f (xs ! k)) \<inter> set (f (xs ! l)) = {}"
  using assms
proof (induction xs arbitrary: k l)
  case (Cons x xs)
  have "set (f x) \<inter> set (f (xs ! m)) = {}" if "m < length xs" for m
    using Cons.prems(1) nth_mem [OF that] by fastforce
  then show ?case
    using Cons by (cases k; cases l) (auto simp: Int_commute)
qed simp

lemma ledger_commit:
  assumes s: "ledger s" and k: "k < length (cs_pcs s)" and c: "cs_pcs s ! k = Locked now ids"
    and t: "t = s\<lparr>cs_world := mark_claimed now ids (cs_world s), cs_pcs := (cs_pcs s)[k := Idle],
                   cs_returned := cs_returned s @ [(k, ids)]\<rparr>"
  shows "ledger t"
proof -
  note d = ledgerD [OF s]
  have lt: "distinct (locked_list t)" "set (locked_list t) = set (locked_list s) - set ids"
    using locked_release [OF k _ d(2), of Idle t] c by (simp_all add: t)
  have ids: "distinct ids" "\<And>i. i \<in> set ids \<Longrightarrow> is_queued (cs_world s) i"
    using held_distinct [OF d(2) k] held_in_locked [OF k] d(3) c by auto
  have "count_list (returned_ids t) i + of_bool (is_queued (cs_world t) i) \<le> count_list (cs_enqueued t) i" for i
  proof -
    have r: "count_list (returned_ids t) i = count_list (returned_ids s) i + count_list ids i"
      by (simp add: t returned_ids_def)
    have "count_list ids i \<le> 1" using ids(1) by (simp add: distinct_count_list)
    moreover have "i \<notin> set ids \<Longrightarrow> count_list ids i = 0" by simp
    ultimately show ?thesis
      using d(4) [of i] ids(2) [of i] r
      by (cases "i \<in> set ids") (auto simp: t is_queued_mark_claimed)
  qed
  then show ?thesis
    using lt d(1,3) by (auto simp: ledger_def t is_queued_mark_claimed)
qed

lemma ledger_put:
  assumes s: "ledger s" and f: "keeps_key j_id f" and u: "i \<notin> set (locked_list s)"
    and e: "job_find (cs_world s) i = Some j"
    and t: "t = s\<lparr>cs_world := job_put i f (cs_world s),
                   cs_enqueued := cs_enqueued s @ (if j_status (f j) = Queued then [i] else [])\<rparr>"
  shows "ledger t"
proof -
  note d = ledgerD [OF s]
  have "locked_list t = locked_list s" by (simp add: t locked_list_def)
  moreover have "count_list (returned_ids t) x + of_bool (is_queued (cs_world t) x) \<le> count_list (cs_enqueued t) x" for x
  proof -
    have "count_list (returned_ids s) x + of_bool (is_queued (cs_world s) x) \<le> count_list (cs_enqueued s) x"
      by (rule d(4))
    then show ?thesis
      by (cases "x = i") (auto simp: t returned_ids_def is_queued_put [OF f] e)
  qed
  ultimately show ?thesis
    using d(1-3) u by (auto simp: ledger_def t map_j_id_put [OF f] is_queued_put [OF f])
qed

lemma ledger_submit:
  assumes s: "ledger s" and c: "job_create j (cs_world s) = (Inr r, w)"
    and t: "t = s\<lparr>cs_world := w,
                   cs_enqueued := cs_enqueued s @ (if j_status j = Queued then [j_id j] else [])\<rparr>"
  shows "ledger t"
proof -
  note d = ledgerD [OF s] and jc = job_create_run [OF c]
  have new: "\<not> is_queued (cs_world s) (j_id j)" using jc(3) by (simp add: is_queued_def)
  have l: "locked_list t = locked_list s" by (simp add: t locked_list_def)
  have "count_list (returned_ids t) x + of_bool (is_queued (cs_world t) x) \<le> count_list (cs_enqueued t) x" for x
    using d(4) [of x] new by (auto simp: t jc(1) returned_ids_def is_queued_append)
  then show ?thesis
    using d(1-3) l distinct_append_new [OF d(1) jc(3)]
    by (auto simp: ledger_def t jc(1) is_queued_append)
qed

lemma keeps_key_set_status [simp]: "keeps_key j_id (set_status st)"
  by (simp add: set_status_def)

lemma ledger_step: "claim_step q limit e s = Some t \<Longrightarrow> ledger s \<Longrightarrow> ledger t"
proof (cases e)
  case (Count k)
  assume "claim_step q limit e s = Some t" "ledger s"
  then show ?thesis unfolding Count
    by (elim CountE) (auto simp: Let_def intro!: ledger_release split: if_splits)
next
  case (Lock k now)
  assume st: "claim_step q limit e s = Some t" and s: "ledger s"
  from st obtain n where "k < length (cs_pcs s)" "cs_pcs s ! k = Counted n"
    "t = s\<lparr>cs_pcs := (cs_pcs s)[k := if select_for_update now (set (locked_list s)) q n (cs_world s) = []
        then Idle else Locked now (select_for_update now (set (locked_list s)) q n (cs_world s))]\<rparr>"
    unfolding Lock by (auto simp: Let_def split: if_splits claim_pc.splits)
  then show ?thesis
    using ledger_lock [OF s] ledger_release [OF s, of k Idle] by (auto split: if_splits)
next
  case (Commit k)
  assume "claim_step q limit e s = Some t" "ledger s"
  then show ?thesis unfolding Commit
    by (auto intro: ledger_commit split: if_splits claim_pc.splits)
next
  case (Rollback k)
  assume "claim_step q limit e s = Some t" "ledger s"
  then show ?thesis unfolding Rollback
    by (auto intro!: ledger_release split: if_splits)
next
  case (Submit j)
  assume "claim_step q limit e s = Some t" "ledger s"
  then show ?thesis unfolding Submit
    by (auto intro: ledger_submit split: if_splits prod.splits sum.splits)
next
  case (Requeue i now)
  assume st: "claim_step q limit e s = Some t" and s: "ledger s"
  then obtain j where "i \<notin> set (locked_list s)" "job_find (cs_world s) i = Some j"
    "t = s\<lparr>cs_world := job_put i (\<lambda>j. j\<lparr>j_status := Queued, j_runAt := now\<rparr>) (cs_world s),
           cs_enqueued := cs_enqueued s @ [i]\<rparr>"
    unfolding Requeue by (auto split: if_splits)
  then show ?thesis
    by (intro ledger_put [OF s, of "\<lambda>j. j\<lparr>j_status := Queued, j_runAt := now\<rparr>" i j]) auto
next
  case (Work i st)
  assume stp: "claim_step q limit e s = Some t" and s: "ledger s"
  then obtain j where "i \<notin> set (locked_list s)" "job_find (cs_world s) i = Some j" "st \<noteq> Queued"
    "t = s\<lparr>cs_world := job_put i (set_status st) (cs_world s)\<rparr>"
    unfolding Work by (auto split: if_splits option.splits)
  then show ?thesis
    by (intro ledger_put [OF s, of "set_status st" i j]) (auto simp: set_status_def)
next
  case (Zombie i)
  assume st: "claim_step q limit e s = Some t" and s: "ledger s"
  then obtain j where "i \<notin> set (locked_list s)" "job_find (cs_world s) i = Some j"
    "t = s\<lparr>cs_world := job_put i (set_status Running) (cs_world s)\<rparr>"
    unfolding Zombie by (auto split: if_splits)
  then show ?thesis
    by (intro ledger_put [OF s, of "set_status Running" i j]) (auto simp: set_status_def)
qed

interpretation ledger_runs: run_invariant "claim_step q limit" "claim_run q limit" "\<lambda>_. True" ledger
  for q limit
  by unfold_locales (auto intro: ledger_step simp: bind_eq_Some_conv split: option.split)

lemma ledger_start:
  assumes "distinct (map j_id (jobs w))"
  shows "ledger (claim_start n w)"
proof -
  have "locked_list (claim_start n w) = []"
    by (simp add: locked_list_def claim_start_def)
  moreover have "is_queued w i \<Longrightarrow> 1 \<le> count_list (map j_id (filter (\<lambda>j. j_status j = Queued) (jobs w))) i" for i
  proof -
    assume "is_queued w i"
    then have "i \<in> set (map j_id (filter (\<lambda>j. j_status j = Queued) (jobs w)))"
      by (auto simp: is_queued_def job_find_def dest!: find_by_SomeD split: option.splits)
    then show ?thesis by (metis count_list_0_iff less_one not_le)
  qed
  ultimately show ?thesis
    using assms by (auto simp: ledger_def claim_start_def returned_ids_def)
qed


subsection \<open>In-flight jobs against the concurrency limit\<close>

fun slots :: "claim_pc \<Rightarrow> nat" where
  "slots Idle = 0"
| "slots (Counted n) = n"
| "slots (Locked t ids) = length ids"

text \<open>
  Each worker holds at most \<open>limit\<close> promised slots, and the jobs in flight with all promises
  together stay below \<open>limit\<close> per worker. The bound is on the number of workers because the
  count is taken before the transaction: the calls of different workers can all see the same
  free slots.
\<close>

definition within_slots :: "ident \<Rightarrow> int \<Rightarrow> claim_state \<Rightarrow> bool" where
  "within_slots q limit s \<longleftrightarrow>
     distinct (map j_id (jobs (cs_world s))) \<and>
     (\<forall>p \<in> set (cs_pcs s). slots p \<le> nat limit) \<and>
     in_flight q (cs_world s) + sum_list (map slots (cs_pcs s)) \<le> length (cs_pcs s) * nat limit"

fun no_zombie :: "claim_event \<Rightarrow> bool" where
  "no_zombie (Zombie i) = False"
| "no_zombie _ = True"

lemma sum_slots_update:
  "k < length ps \<Longrightarrow>
    sum_list (map f (ps[k := p])) + (f (ps ! k) :: nat) = sum_list (map f ps) + f p"
proof (induction ps arbitrary: k)
  case (Cons a ps)
  then show ?case by (cases k) (auto simp: ac_simps)
qed simp

lemma sum_slots_others:
  assumes "\<forall>p \<in> set ps. f p \<le> (b::nat)" and "k < length ps"
  shows "sum_list (map f ps) \<le> f (ps ! k) + (length ps - 1) * b"
  using assms
proof (induction ps arbitrary: k)
  case (Cons a ps)
  show ?case
  proof (cases k)
    case 0
    have "sum_list (map f ps) \<le> length ps * b"
      using Cons.prems(1) by (induction ps) auto
    with 0 show ?thesis by simp
  next
    case (Suc m)
    then have "sum_list (map f ps) \<le> f (ps ! m) + (length ps - 1) * b" "f a \<le> b" "0 < length ps"
      using Cons by auto
    then show ?thesis using Suc by (cases "length ps") auto
  qed
qed simp

lemma in_flight_put_le:
  assumes d: "distinct (map j_id (jobs w))" and i: "job_find w i = Some j"
    and f: "\<And>r. j_queueId (f r) = j_queueId r"
    and st: "in_flight_status (j_status (f j)) \<Longrightarrow> in_flight_status (j_status j)"
  shows "in_flight q (job_put i f w) \<le> in_flight q w"
proof -
  have "r \<in> set (jobs w) \<Longrightarrow> j_id r = i \<Longrightarrow> r = j" for r
    using distinct_find [OF d] i by fastforce
  then have "in_flight_status (j_status (f r)) \<Longrightarrow> in_flight_status (j_status r)"
    if "r \<in> set (jobs w)" "j_id r = i" for r
    using st that by metis
  then show ?thesis
    unfolding in_flight_def job_put_def update_by_def
    by (auto simp: count_where_map f split: if_splits intro!: count_where_mono)
qed

lemma in_flight_append:
  "\<not> in_flight_status (j_status j) \<Longrightarrow> in_flight q (w\<lparr>jobs := jobs w @ [j]\<rparr>) = in_flight q w"
  by (simp add: in_flight_def) (simp add: count_where_def)

lemma within_slots_pcs:
  assumes s: "within_slots q limit s" and k: "k < length (cs_pcs s)" and p: "slots p \<le> nat limit"
    and le: "in_flight q w + slots p \<le> in_flight q (cs_world s) + slots (cs_pcs s ! k)"
    and d: "distinct (map j_id (jobs w))"
  shows "within_slots q limit (s\<lparr>cs_world := w, cs_pcs := (cs_pcs s)[k := p]\<rparr>)"
proof -
  have "sum_list (map slots ((cs_pcs s)[k := p])) + slots (cs_pcs s ! k) =
      sum_list (map slots (cs_pcs s)) + slots p"
    using sum_slots_update [OF k] .
  moreover have "\<forall>x \<in> set ((cs_pcs s)[k := p]). slots x \<le> nat limit"
    using s p by (auto simp: within_slots_def dest!: set_update_subset_insert [THEN subsetD])
  ultimately show ?thesis using s le d by (simp add: within_slots_def)
qed

lemma within_slots_count:
  assumes s: "within_slots q limit s" and k: "k < length (cs_pcs s)" and i: "cs_pcs s ! k = Idle"
    and n: "n = available_slots limit (in_flight q (cs_world s))"
  shows "within_slots q limit (s\<lparr>cs_pcs := (cs_pcs s)[k := if n = 0 then Idle else Counted n]\<rparr>)"
proof -
  let ?p = "if n = 0 then Idle else Counted n" and ?m = "in_flight q (cs_world s)"
  have sl: "slots ?p = n" "n \<le> nat limit" by (auto simp: n available_slots_def)
  have old: "?m + sum_list (map slots (cs_pcs s)) \<le> length (cs_pcs s) * nat limit"
    and each: "\<forall>p \<in> set (cs_pcs s). slots p \<le> nat limit"
    using s by (auto simp: within_slots_def)
  have upd: "sum_list (map slots ((cs_pcs s)[k := ?p])) = sum_list (map slots (cs_pcs s)) + n"
    using sum_slots_update [OF k, of slots ?p] sl i by simp
  have others: "sum_list (map slots (cs_pcs s)) \<le> (length (cs_pcs s) - 1) * nat limit"
    using sum_slots_others [OF each k] i by simp
  have len: "length (cs_pcs s) * nat limit = (length (cs_pcs s) - 1) * nat limit + nat limit"
    using k by (cases "length (cs_pcs s)") auto
  have "?m + sum_list (map slots (cs_pcs s)) + n \<le> length (cs_pcs s) * nat limit"
  proof (cases "n = 0")
    case False
    then have "?m + n = nat limit" by (auto simp: n available_slots_def)
    then show ?thesis using others len by linarith
  qed (use old in simp)
  moreover have "\<forall>x \<in> set ((cs_pcs s)[k := ?p]). slots x \<le> nat limit"
    using each sl by (auto dest!: set_update_subset_insert [THEN subsetD])
  ultimately show ?thesis using s upd by (simp add: within_slots_def)
qed

lemma within_slots_world:
  assumes "within_slots q limit s" and "in_flight q w \<le> in_flight q (cs_world s)"
    and "distinct (map j_id (jobs w))" and "cs_pcs t = cs_pcs s" and "cs_world t = w"
  shows "within_slots q limit t"
  using assms by (simp add: within_slots_def)

lemma within_slots_put:
  assumes s: "within_slots q limit s" and i: "job_find (cs_world s) i = Some j"
    and f: "keeps_key j_id f" "\<And>r. j_queueId (f r) = j_queueId r"
    and st: "in_flight_status (j_status (f j)) \<Longrightarrow> in_flight_status (j_status j)"
    and t: "cs_pcs t = cs_pcs s" "cs_world t = job_put i f (cs_world s)"
  shows "within_slots q limit t"
proof -
  have d: "distinct (map j_id (jobs (cs_world s)))" using s by (simp add: within_slots_def)
  show ?thesis
    by (rule within_slots_world [OF s in_flight_put_le [OF d i f(2) st] _ t])
      (simp_all add: map_j_id_put [OF f(1)] d)
qed

lemma within_slots_step:
  assumes "no_zombie e" and "claim_step q limit e s = Some t" and s: "within_slots q limit s"
  shows "within_slots q limit t"
proof -
  have d: "distinct (map j_id (jobs (cs_world s)))" and each: "\<forall>p \<in> set (cs_pcs s). slots p \<le> nat limit"
    using s by (simp_all add: within_slots_def)
  show ?thesis
  proof (cases e)
    case (Count k)
    with assms show ?thesis
      using within_slots_count [OF s, of k] by (auto simp: Let_def split: if_splits)
  next
    case (Lock k now)
    then obtain n where k: "k < length (cs_pcs s)" "cs_pcs s ! k = Counted n"
      and t: "t = s\<lparr>cs_pcs := (cs_pcs s)[k := if select_for_update now (set (locked_list s)) q n (cs_world s) = []
          then Idle else Locked now (select_for_update now (set (locked_list s)) q n (cs_world s))]\<rparr>"
      using assms by (auto simp: Let_def split: if_splits claim_pc.splits)
    have "n \<le> nat limit" using each k by (metis nth_mem slots.simps(2))
    then show ?thesis
      using within_slots_pcs [OF s k(1) _ _ d] k(2) t select_length [of now "set (locked_list s)" q n "cs_world s"]
      by auto
  next
    case (Commit k)
    then obtain now ids where k: "k < length (cs_pcs s)" "cs_pcs s ! k = Locked now ids"
      and t: "t = s\<lparr>cs_world := mark_claimed now ids (cs_world s), cs_pcs := (cs_pcs s)[k := Idle],
                cs_returned := cs_returned s @ [(k, ids)]\<rparr>"
      using assms by (auto split: if_splits claim_pc.splits)
    have "within_slots q limit (s\<lparr>cs_world := mark_claimed now ids (cs_world s), cs_pcs := (cs_pcs s)[k := Idle]\<rparr>)"
      using in_flight_mark_claimed [OF d, of q now ids] k(2) d
      by (intro within_slots_pcs [OF s k(1)]) auto
    then show ?thesis by (simp add: t within_slots_def)
  next
    case (Rollback k)
    then show ?thesis
      using assms within_slots_pcs [OF s, of k Idle "cs_world s"] d by (auto split: if_splits)
  next
    case (Submit j)
    then obtain w r where c: "job_create j (cs_world s) = (Inr r, w)" and j: "\<not> in_flight_status (j_status j)"
      and t: "cs_pcs t = cs_pcs s" "cs_world t = w"
      using assms by (auto split: if_splits prod.splits sum.splits)
    show ?thesis
      using within_slots_world [OF s _ _ t] in_flight_append [OF j] job_create_run [OF c]
        distinct_append_new [OF d] by simp
  next
    case (Requeue i now)
    then obtain j where j: "job_find (cs_world s) i = Some j"
      and t: "cs_pcs t = cs_pcs s"
      "cs_world t = job_put i (\<lambda>j. j\<lparr>j_status := Queued, j_runAt := now\<rparr>) (cs_world s)"
      using assms by (auto split: if_splits)
    show ?thesis by (rule within_slots_put [OF s j _ _ _ t]) (simp_all add: in_flight_status_def)
  next
    case (Work i st)
    then obtain j where j: "job_find (cs_world s) i = Some j"
      "in_flight_status st \<Longrightarrow> in_flight_status (j_status j)"
      and t: "cs_pcs t = cs_pcs s" "cs_world t = job_put i (set_status st) (cs_world s)"
      using assms by (auto split: if_splits option.splits)
    show ?thesis by (rule within_slots_put [OF s j(1) _ _ _ t]) (simp_all add: set_status_def j(2))
  qed (use assms(1) in simp)
qed

interpretation slot_runs:
  run_invariant "claim_step q limit" "claim_run q limit" no_zombie "within_slots q limit"
  for q limit
  by unfold_locales (auto intro: within_slots_step simp: bind_eq_Some_conv split: option.split)

lemma within_slots_start:
  assumes "distinct (map j_id (jobs w))" and "int (in_flight q w) \<le> limit" and "0 < n"
  shows "within_slots q limit (claim_start n w)"
proof -
  have "in_flight q w \<le> nat limit" using assms(2) by linarith
  also have "\<dots> \<le> n * nat limit" using assms(3) by (cases n) auto
  finally show ?thesis
    using assms(1) by (simp add: within_slots_def claim_start_def sum_list_replicate)
qed

lemma length_pcs_step: "claim_step q limit e s = Some t \<Longrightarrow> length (cs_pcs t) = length (cs_pcs s)"
  by (cases e) (auto simp: Let_def split: if_splits claim_pc.splits option.splits prod.splits sum.splits)

lemma length_pcs_run: "claim_run q limit es s = Some t \<Longrightarrow> length (cs_pcs t) = length (cs_pcs s)"
  by (induction es arbitrary: s) (auto split: option.splits dest: length_pcs_step)


subsection \<open>Runs of claims only\<close>

fun claim_only :: "claim_event \<Rightarrow> bool" where
  "claim_only (Count k) = True"
| "claim_only (Lock k now) = True"
| "claim_only (Commit k) = True"
| "claim_only (Rollback k) = True"
| "claim_only _ = False"

definition is_claimed :: "world \<Rightarrow> ident \<Rightarrow> bool" where
  "is_claimed w i \<longleftrightarrow> (case job_find w i of None \<Rightarrow> False | Some j \<Rightarrow> j_status j = Claimed)"

definition settled :: "ident list \<Rightarrow> claim_state \<Rightarrow> bool" where
  "settled enq s \<longleftrightarrow> ledger s \<and> cs_enqueued s = enq \<and> (\<forall>i \<in> set (returned_ids s). is_claimed (cs_world s) i)"

lemma is_claimed_mark_claimed:
  "is_claimed w i \<or> (i \<in> set ids \<and> is_queued w i) \<Longrightarrow> is_claimed (mark_claimed now ids w) i"
  by (auto simp: is_claimed_def is_queued_def job_find_mark_claimed split: option.splits)

lemma settled_step:
  assumes e: "claim_only e" and st: "claim_step q limit e s = Some t" and s: "settled enq s"
  shows "settled enq t"
proof -
  have l: "ledger t" using ledger_step [OF st] s by (simp add: settled_def)
  show ?thesis
  proof (cases e)
    case (Commit k)
    then obtain now ids where k: "k < length (cs_pcs s)" "cs_pcs s ! k = Locked now ids"
      and t: "t = s\<lparr>cs_world := mark_claimed now ids (cs_world s), cs_pcs := (cs_pcs s)[k := Idle],
                cs_returned := cs_returned s @ [(k, ids)]\<rparr>"
      using st by (auto split: if_splits claim_pc.splits)
    have "\<forall>i \<in> set ids. is_queued (cs_world s) i"
      using held_in_locked [OF k(1)] k(2) ledgerD(3) s by (auto simp: settled_def)
    then show ?thesis
      using l s by (auto simp: settled_def t returned_ids_def intro!: is_claimed_mark_claimed)
  qed (use e st s l in \<open>auto simp: settled_def returned_ids_def Let_def split: if_splits claim_pc.splits\<close>)
qed

interpretation settled_runs:
  run_invariant "claim_step q limit" "claim_run q limit" claim_only "settled enq" for q limit enq
  by unfold_locales (auto intro: settled_step simp: bind_eq_Some_conv split: option.split)

lemma settled_start:
  assumes "distinct (map j_id (jobs w))"
  shows "settled (map j_id (filter (\<lambda>j. j_status j = Queued) (jobs w))) (claim_start n w)"
  using ledger_start [OF assms, of n] by (simp add: settled_def claim_start_def returned_ids_def)

subsection \<open>A call of claimJobs is a run of its three steps\<close>

lemma claimJobs_steps:
  assumes ok: "\<And>p. fails env p = None" and k: "k < length (cs_pcs s)" "cs_pcs s ! k = Idle"
    and r: "claimJobs env (set (locked_list s)) q limit (cs_world s) = (Inr ids, w)"
  shows "\<exists>t. claim_run q limit
      (if available_slots limit (in_flight q (cs_world s)) = 0 then [Count k]
       else if ids = [] then [Count k, Lock k (clock env C_transaction)]
       else [Count k, Lock k (clock env C_transaction), Commit k]) s = Some t \<and>
    cs_world t = w \<and> cs_pcs t = cs_pcs s \<and>
    cs_returned t = cs_returned s @ (if ids = [] then [] else [(k, ids)])"
proof -
  let ?n = "available_slots limit (in_flight q (cs_world s))"
  let ?now = "clock env C_transaction"
  have ids: "ids = select_for_update ?now (set (locked_list s)) q ?n (cs_world s)"
    and w: "w = mark_claimed ?now ids (cs_world s)"
    using r claimJobs_run [OF ok, of "set (locked_list s)" q limit "cs_world s"] ok
    by (auto simp: Let_def)
  have same: "(cs_pcs s)[k := Idle] = cs_pcs s" using k by (metis list_update_id)
  show ?thesis
  proof (cases "?n = 0")
    case True
    then have "ids = []" using select_length [of ?now "set (locked_list s)" q 0 "cs_world s"] ids by simp
    with True show ?thesis using k w same by (simp add: Let_def)
  next
    case False
    let ?s1 = "s\<lparr>cs_pcs := (cs_pcs s)[k := Counted ?n]\<rparr>"
    have "mset (locked_list ?s1) = mset (locked_list s)"
      using mset_concat_update [OF k(1), of held "Counted ?n"] k(2) by (simp add: locked_list_def)
    then have L: "set (locked_list ?s1) = set (locked_list s)" by (rule mset_eq_setD)
    have count: "claim_step q limit (Count k) s = Some ?s1"
      using False k by (simp add: Let_def)
    have lock: "claim_step q limit (Lock k ?now) ?s1 =
        Some (s\<lparr>cs_pcs := (cs_pcs s)[k := if ids = [] then Idle else Locked ?now ids]\<rparr>)"
      using k(1) by (simp add: Let_def L ids [symmetric])
    show ?thesis
    proof (cases "ids = []")
      case True
      with False w count lock same show ?thesis by (simp del: claim_step.simps)
    next
      case ne: False
      have "claim_step q limit (Commit k) (s\<lparr>cs_pcs := (cs_pcs s)[k := Locked ?now ids]\<rparr>) =
          Some (s\<lparr>cs_world := w, cs_pcs := cs_pcs s, cs_returned := cs_returned s @ [(k, ids)]\<rparr>)"
        using k(1) by (simp add: w same)
      with False ne w count lock show ?thesis by (simp del: claim_step.simps)
    qed
  qed
qed

section \<open>Properties\<close>

text \<open>
  C1. However the claims of any number of workers interleave with each other and with the
  submissions, requeues and status changes of the rest of the system, a job is returned by
  \<open>claimJobs\<close> at most as many times as it was put into status \<open>queued\<close>, and one time less while
  it is still queued: one enqueue is claimed by one worker.
\<close>

theorem claimed_once_per_enqueue:
  assumes "distinct (map j_id (jobs w))" and "claim_run q limit es (claim_start n w) = Some s"
  shows "count_list (returned_ids s) i + of_bool (is_queued (cs_world s) i)
    \<le> count_list (cs_enqueued s) i"
  using ledger_runs.run_inv [OF assms(2) ledger_start [OF assms(1)]] by (simp add: ledgerD(4))

definition two_jobs :: world where
  "two_jobs = empty_world\<lparr>jobs := [sample_job ''a'' 0, sample_job ''b'' 5]\<rparr>"

definition racing_claims :: "claim_event list" where
  "racing_claims = [Count 0, Count 1, Lock 0 9, Lock 1 9, Commit 0, Commit 1]"

definition racing_end :: "int \<Rightarrow> claim_state" where
  "racing_end limit = the (claim_run ''q'' limit racing_claims (claim_start 2 two_jobs))"

lemmas racing_defs =
  two_jobs_def sample_job_def empty_world_def claim_start_def racing_claims_def
  in_flight_def in_flight_status_def count_where_def available_slots_def select_for_update_def
  claimable_def claim_order_def locked_list_def mark_claimed_def update_where_def numeral_2_eq_2
  returned_ids_def Let_def

lemma racing_run: "claim_run ''q'' 1 racing_claims (claim_start 2 two_jobs) = Some (racing_end 1)"
  by (simp add: racing_end_def racing_defs)

lemma racing_world:
  "map (\<lambda>j. (j_id j, j_status j)) (jobs (cs_world (racing_end 1))) = [(''a'', Claimed), (''b'', Claimed)]"
  "cs_returned (racing_end 1) = [(0, [''b'']), (1, [''a''])]"
  "in_flight ''q'' (cs_world (racing_end 1)) = 2"
  by (simp_all add: racing_end_def racing_defs)

lemma two_jobs_distinct: "distinct (map j_id (jobs two_jobs))"
  by (simp add: two_jobs_def sample_job_def)

theorem claimed_once_per_enqueue_witness:
  "count_list (returned_ids (racing_end 1)) ''a'' + of_bool (is_queued (cs_world (racing_end 1)) ''a'')
     \<le> count_list (cs_enqueued (racing_end 1)) ''a''"
  by (rule claimed_once_per_enqueue [OF two_jobs_distinct racing_run])

text \<open>
  What the integration test of the repository asserts, for every number of workers, jobs and
  every interleaving: in a run of concurrent \<open>claimJobs\<close> calls (nothing else touching the
  rows) the ids returned to all workers together hold no duplicate, every one of them was a
  queued job at the start, and at the end it is in status \<open>claimed\<close>.
\<close>

lemma concurrent_claims_distinct:
  assumes "distinct (map j_id (jobs w))" and "claim_run q limit es (claim_start n w) = Some s"
    and "\<forall>e \<in> set es. claim_only e"
  shows "distinct (returned_ids s) \<and>
    (\<forall>i \<in> set (returned_ids s). is_queued w i \<and> is_claimed (cs_world s) i)"
proof -
  let ?enq = "map j_id (filter (\<lambda>j. j_status j = Queued) (jobs w))"
  have s: "settled ?enq s"
    using settled_runs.run_inv [OF assms(2) settled_start [OF assms(1)] assms(3)] .
  then have le: "count_list (returned_ids s) i \<le> count_list ?enq i" for i
    using ledgerD(4) [of s i] by (simp add: settled_def)
  have d: "distinct ?enq" using assms(1) by (rule distinct_map_filter_key)
  have "i \<in> set (returned_ids s) \<Longrightarrow> is_queued w i" for i
  proof -
    assume "i \<in> set (returned_ids s)"
    then have "i \<in> set ?enq" using le [of i] by (metis count_list_0_iff le_zero_eq)
    then show ?thesis using distinct_find [OF assms(1)] by (auto simp: is_queued_def)
  qed
  moreover have "distinct (returned_ids s)"
    using d le order_trans unfolding distinct_count_list by blast
  ultimately show ?thesis using s by (auto simp: settled_def)
qed

lemma concurrent_claims_distinct_witness:
  "distinct (returned_ids (racing_end 1)) \<and> returned_ids (racing_end 1) = [''b'', ''a'']"
  using concurrent_claims_distinct [OF two_jobs_distinct racing_run]
  by (simp add: racing_claims_def returned_ids_def racing_world)

text \<open>
  The rows two workers hold in open claim transactions are disjoint, at every moment of every
  run: \<open>SKIP LOCKED\<close> hands a job to one of them.
\<close>

lemma open_claims_disjoint:
  assumes "distinct (map j_id (jobs w))" and "claim_run q limit es (claim_start n w) = Some s"
    and "k < n" and "l < n" and "k \<noteq> l"
  shows "set (held (cs_pcs s ! k)) \<inter> set (held (cs_pcs s ! l)) = {}"
proof -
  have "ledger s" using ledger_runs.run_inv [OF assms(2) ledger_start [OF assms(1)]] by simp
  moreover have "length (cs_pcs s) = n"
    using length_pcs_run [OF assms(2)] by (simp add: claim_start_def)
  ultimately show ?thesis using assms(3-5) by (intro concat_disjoint) (auto simp: ledger_def locked_list_def)
qed

definition halfway :: "claim_event list" where
  "halfway = [Count 0, Count 1, Lock 0 9, Lock 1 9]"

definition halfway_end :: claim_state where
  "halfway_end = the (claim_run ''q'' 1 halfway (claim_start 2 two_jobs))"

lemma halfway_run: "claim_run ''q'' 1 halfway (claim_start 2 two_jobs) = Some halfway_end"
  by (simp add: halfway_end_def halfway_def racing_defs)

lemma halfway_held: "map held (cs_pcs halfway_end) = [[''b''], [''a'']]"
  by (simp add: halfway_end_def halfway_def racing_defs)

lemma open_claims_disjoint_witness:
  "map held (cs_pcs halfway_end) = [[''b''], [''a'']] \<and>
     set (held (cs_pcs halfway_end ! 0)) \<inter> set (held (cs_pcs halfway_end ! 1)) = {}"
  using open_claims_disjoint [OF two_jobs_distinct halfway_run, of 0 1] halfway_held by simp



text \<open>
  The concurrency limit of a queue is not kept under concurrency: two workers that both count
  before either commits claim disjoint jobs, and together leave two jobs in flight in a queue
  whose limit is 1. The bound of the previous property is reached.
\<close>

lemma concurrency_limit_exceeded:
  "\<exists>w es s. distinct (map j_id (jobs w)) \<and> in_flight ''q'' w = 0 \<and>
     claim_run ''q'' 1 es (claim_start 2 w) = Some s \<and>
     int (in_flight ''q'' (cs_world s)) > 1 \<and> in_flight ''q'' (cs_world s) = 2 * nat 1"
  by (intro exI [of _ two_jobs] exI [of _ racing_claims] exI [of _ "racing_end 1"])
    (simp add: racing_run two_jobs_distinct racing_world, simp add: racing_defs)

text \<open>
  A single call that nothing interleaves with keeps the limit: if the queue is within its
  concurrency limit before, it is after, whatever rows other transactions hold and whatever calls
  fail.
\<close>

lemma claimJobs_keeps_limit:
  assumes "distinct (map j_id (jobs w))" and "int (in_flight q w) \<le> limit"
    and "claimJobs env locked q limit w = (r, w')"
  shows "int (in_flight q w') \<le> limit"
proof (cases "fails env C_count")
  case None
  let ?n = "available_slots limit (in_flight q w)"
  obtain ids where r: "r = Inr ids" "w' = mark_claimed (clock env C_transaction) ids w" "length ids \<le> ?n"
    using claimJobs_run [OF None, of locked q limit w] assms(3) select_length
    by (auto simp: Let_def split: if_splits)
  have "in_flight q w' \<le> in_flight q w + ?n"
    using in_flight_mark_claimed [OF assms(1), of q "clock env C_transaction" ids] r by simp
  then show ?thesis using assms(2) by (simp add: available_slots_def)
next
  case (Some e)
  then show ?thesis using assms by (simp add: claimJobs_def throwA_def bindA_def)
qed

lemma two_jobs_claim:
  "claimJobs (calm_env 9) {} ''q'' 1 two_jobs = (Inr [''b''], mark_claimed 9 [''b''] two_jobs)"
  by (simp add: claimJobs_run racing_defs)

lemma claimJobs_keeps_limit_witness:
  "int (in_flight ''q'' (mark_claimed 9 [''b''] two_jobs)) \<le> 1"
  by (rule claimJobs_keeps_limit [OF two_jobs_distinct _ two_jobs_claim]) (simp add: racing_defs)

text \<open>
  C10. What a call returns and does: exactly as many jobs as there are free slots or claimable
  unlocked jobs, each one queued in this queue, due and unlocked; no claimable job left out comes
  before a returned one by (priority descending, run time ascending); the returned jobs become
  claimed and no other job changes.
\<close>

theorem claimJobs_functional:
  assumes "\<And>p. fails env p = None" and d: "distinct (map j_id (jobs w))"
    and "claimJobs env locked q limit w = (r, w')"
  shows "\<exists>ids. r = Inr ids \<and> distinct ids \<and>
    length ids = min (available_slots limit (in_flight q w))
      (count_where (\<lambda>j. claimable (clock env C_transaction) q j \<and> j_id j \<notin> locked) (jobs w)) \<and>
    (\<forall>i. i \<in> set ids \<longrightarrow>
      (\<exists>k. job_find w i = Some k \<and> claimable (clock env C_transaction) q k \<and> i \<notin> locked \<and>
        (\<forall>j \<in> set (jobs w). claimable (clock env C_transaction) q j \<and> j_id j \<notin> locked \<and>
           j_id j \<notin> set ids \<longrightarrow> claim_order k \<le> claim_order j))) \<and>
    (\<forall>i. job_find w' i = map_option (\<lambda>j. if i \<in> set ids
        then j\<lparr>j_status := Claimed, j_updatedAt := clock env C_transaction\<rparr> else j) (job_find w i))"
proof -
  let ?now = "clock env C_transaction" and ?n = "available_slots limit (in_flight q w)"
  define ids where "ids = select_for_update ?now locked q ?n w"
  have r: "r = Inr ids" "w' = mark_claimed ?now ids w"
    using claimJobs_run [OF assms(1), of locked q limit w] assms(1,3) by (auto simp: Let_def ids_def)
  have "\<exists>k. job_find w i = Some k \<and> claimable ?now q k \<and> i \<notin> locked \<and>
        (\<forall>j \<in> set (jobs w). claimable ?now q j \<and> j_id j \<notin> locked \<and> j_id j \<notin> set ids \<longrightarrow>
           claim_order k \<le> claim_order j)" if i: "i \<in> set ids" for i
  proof -
    obtain k where k: "k \<in> set (jobs w)" "j_id k = i" "claimable ?now q k" "i \<notin> locked"
      using select_selected i unfolding ids_def by blast
    then have f: "job_find w i = Some k" using distinct_find [OF d] by auto
    have "claim_order k \<le> claim_order j" if jj: "j \<in> set (jobs w)" "claimable ?now q j" "j_id j \<notin> locked"
      "j_id j \<notin> set ids" for j
    proof -
      obtain k' where "k' \<in> set (jobs w)" "j_id k' = i" "claim_order k' \<le> claim_order j"
        using select_priority [OF jj(1-3)] jj(4) i unfolding ids_def by blast
      then show ?thesis using distinct_find [OF d] f by auto
    qed
    with f k show ?thesis by blast
  qed
  then show ?thesis
    using r select_distinct [OF d] select_exact_length
    by (intro exI [of _ ids]) (auto simp: ids_def job_find_mark_claimed)
qed

theorem claimJobs_functional_witness:
  "\<exists>ids. (Inr [''b''] :: js_error + ident list) = Inr ids \<and> distinct ids \<and> length ids = 1"
proof -
  obtain ids where "(Inr [''b''] :: js_error + ident list) = Inr ids" "distinct ids"
    "length ids = min (available_slots 1 (in_flight ''q'' two_jobs))
       (count_where (\<lambda>j. claimable 9 ''q'' j \<and> j_id j \<notin> {}) (jobs two_jobs))"
    using claimJobs_functional [OF _ two_jobs_distinct two_jobs_claim] by fastforce
  then show ?thesis by auto
qed



end
