(* ===== verification/Executor.thy ===== *)
theory Executor
  imports Handlers Retry
begin

text \<open>
  \<open>worker/src/executor.ts\<close>: one claimed job from \<open>running\<close> to \<open>completed\<close>, back to \<open>queued\<close> for
  a retry, or to \<open>dead_letter\<close>. The database and Redis calls are made at the points of
  \<open>exec_point\<close>; any of them may throw. A \<open>$transaction([..])\<close> is one call that is atomic. The
  handler runs between the creation of the execution and the final transaction.
\<close>

datatype exec_point =
  E_find | E_running | E_execution | E_started | E_finished | E_completed | E_failed | E_requeue |
  E_retry | E_dead | E_publish string

record exec_env = "exec_point env" +
  ex_random :: rat
  ex_handlers :: handler_env

section \<open>The effective retry policy\<close>

record EffectivePolicy =
  ep_strategy :: RetryStrategy
  ep_baseDelayMs :: int
  ep_maxDelayMs :: int
  ep_maxAttempts :: int

definition DEFAULT_RETRY :: EffectivePolicy where
  "DEFAULT_RETRY = \<lparr>ep_strategy = Exponential, ep_baseDelayMs = 1000, ep_maxDelayMs = 30000,
     ep_maxAttempts = 3\<rparr>"

definition from_policy :: "RetryPolicy \<Rightarrow> EffectivePolicy" where
  "from_policy p = \<lparr>ep_strategy = rp_strategy p, ep_baseDelayMs = rp_baseDelayMs p,
     ep_maxDelayMs = rp_maxDelayMs p, ep_maxAttempts = rp_maxAttempts p\<rparr>"

text \<open>\<open>job.retryPolicy ?? job.queue.defaultRetryPolicy ?? DEFAULT_RETRY\<close>.\<close>

definition resolve_policy :: "RetryPolicy option \<Rightarrow> RetryPolicy option \<Rightarrow> EffectivePolicy" where
  "resolve_policy jobPolicy queueDefault =
     (case jobPolicy of
        Some p \<Rightarrow> from_policy p
      | None \<Rightarrow> (case queueDefault of Some p \<Rightarrow> from_policy p | None \<Rightarrow> DEFAULT_RETRY))"

text \<open>\<open>job.findUnique\<close> with \<open>retryPolicy\<close> and \<open>queue.defaultRetryPolicy\<close> included.\<close>

definition fetch_job :: "ident \<Rightarrow> world \<Rightarrow> (Job \<times> EffectivePolicy) option" where
  "fetch_job jobId w =
     (case job_find w jobId of
        None \<Rightarrow> None
      | Some j \<Rightarrow>
          Some (j, resolve_policy
            (Option.bind (j_retryPolicyId j) (policy_find w))
            (Option.bind (Option.bind (queue_find w (j_queueId j)) q_defaultRetryPolicyId)
               (policy_find w))))"

section \<open>Events\<close>

definition transition_event :: "ident \<Rightarrow> string \<Rightarrow> ident \<Rightarrow> timestamp \<Rightarrow> (string \<times> json) list" where
  "transition_event jobId status queueId now =
     [(''event'', JStr ''job:transition''), (''jobId'', JStr jobId), (''status'', JStr status),
      (''queueId'', JStr queueId), (''timestamp'', JDate now)]"

text \<open>A publish that fails is logged and forgotten.\<close>

definition publishTransition :: "exec_env \<Rightarrow> ident \<Rightarrow> string \<Rightarrow> ident \<Rightarrow> unit action" where
  "publishTransition env jobId status queueId =
     catchA
       (callA env (E_publish status)
          (publish ''job:transitions''
             (transition_event jobId status queueId (clock env (E_publish status)))))
       (\<lambda>err. retA ())"

section \<open>The steps of an execution\<close>

definition mark_running :: "exec_env \<Rightarrow> ident \<Rightarrow> Job action" where
  "mark_running env jobId =
     callA env E_running
       (job_update jobId (\<lambda>j. j\<lparr>j_status := Running, j_updatedAt := clock env E_running\<rparr>))"

definition open_execution :: "exec_env \<Rightarrow> Job \<Rightarrow> ident \<Rightarrow> ident \<Rightarrow> JobExecution action" where
  "open_execution env job jobId workerId =
     callA env E_execution
       (exec_create \<lparr>x_id = fresh env E_execution, x_jobId = jobId, x_workerId = workerId,
          x_attemptNumber = j_attemptCount job + 1, x_startedAt = clock env E_execution,
          x_finishedAt = None, x_status = ''running'', x_errorMessage = None,
          x_durationMs = None\<rparr>)"

definition log_row :: "ident \<Rightarrow> timestamp \<Rightarrow> log_entry \<Rightarrow> JobLog" where
  "log_row x now e =
     \<lparr>l_executionId = x, l_timestamp = now, l_level = fst e, l_message = snd e\<rparr>"

definition flush_logs :: "ident \<Rightarrow> timestamp \<Rightarrow> log_entry list \<Rightarrow> unit action" where
  "flush_logs x now logBuffer = forA (\<lambda>e. log_create (log_row x now e)) logBuffer"

definition finish_execution ::
    "string \<Rightarrow> timestamp \<Rightarrow> int \<Rightarrow> string option \<Rightarrow> JobExecution \<Rightarrow> JobExecution" where
  "finish_execution status now durationMs err x =
     x\<lparr>x_status := status, x_finishedAt := Some now, x_durationMs := Some durationMs,
       x_errorMessage := (case err of None \<Rightarrow> x_errorMessage x | Some m \<Rightarrow> Some m)\<rparr>"

definition complete_transaction ::
    "exec_env \<Rightarrow> ident \<Rightarrow> ident \<Rightarrow> int \<Rightarrow> log_entry list \<Rightarrow> unit action" where
  "complete_transaction env jobId execution durationMs logBuffer =
     (let now = clock env E_completed in
      callA env E_completed (atomicA
        (bindA (job_update jobId (\<lambda>j. j\<lparr>j_status := Completed, j_updatedAt := now\<rparr>)) (\<lambda>_.
         bindA (exec_update execution (finish_execution ''completed'' now durationMs None)) (\<lambda>_.
         bindA (log_create (log_row execution now
           (''info'', ''Job completed successfully in '' @ show_int durationMs @ ''ms''))) (\<lambda>_.
         flush_logs execution now logBuffer))))))"

definition retry_transaction ::
    "exec_env \<Rightarrow> ident \<Rightarrow> ident \<Rightarrow> int \<Rightarrow> int \<Rightarrow> int \<Rightarrow> int \<Rightarrow> string \<Rightarrow> log_entry list \<Rightarrow> unit action" where
  "retry_transaction env jobId execution newAttemptCount maxAttempts delayMs durationMs
       errorMessage logBuffer =
     (let now = clock env E_retry; runAt = clock env E_requeue + delayMs in
      callA env E_retry (atomicA
        (bindA (job_update jobId (\<lambda>j. j\<lparr>j_status := Queued, j_attemptCount := newAttemptCount,
             j_runAt := runAt, j_updatedAt := now\<rparr>)) (\<lambda>_.
         bindA (exec_update execution
             (finish_execution ''failed'' now durationMs (Some errorMessage))) (\<lambda>_.
         bindA (log_create (log_row execution now
           (''error'', ''Job failed (attempt '' @ show_int newAttemptCount @ ''/'' @
              show_int maxAttempts @ ''): '' @ errorMessage @ ''. Retrying in '' @
              show_int delayMs @ ''ms''))) (\<lambda>_.
         flush_logs execution now logBuffer))))))"

definition dead_transaction ::
    "exec_env \<Rightarrow> Job \<Rightarrow> ident \<Rightarrow> ident \<Rightarrow> int \<Rightarrow> int \<Rightarrow> string \<Rightarrow> log_entry list \<Rightarrow> unit action" where
  "dead_transaction env job jobId execution newAttemptCount durationMs errorMessage logBuffer =
     (let now = clock env E_dead in
      callA env E_dead (atomicA
        (bindA (job_update jobId (\<lambda>j. j\<lparr>j_status := Dead_letter,
             j_attemptCount := newAttemptCount, j_updatedAt := now\<rparr>)) (\<lambda>_.
         bindA (exec_update execution
             (finish_execution ''failed'' now durationMs (Some errorMessage))) (\<lambda>_.
         bindA (dlq_create \<lparr>d_originalJobId = jobId, d_queueId = j_queueId job,
             d_payload = (if j_payload job = JNull then JObj [] else j_payload job),
             d_failureReason = errorMessage, d_attemptCount = newAttemptCount,
             d_movedAt = now\<rparr>) (\<lambda>_.
         bindA (log_create (log_row execution now
           (''error'', ''Job moved to dead letter queue after '' @ show_int newAttemptCount @
              '' attempts: '' @ errorMessage))) (\<lambda>_.
         flush_logs execution now logBuffer)))))))"

fun error_message :: "js_error \<Rightarrow> string" where
  "error_message (ChronosError code message statusCode details) = message"
| "error_message (PrismaError code message) = message"
| "error_message (FastifyValidationError v) = ''Validation error''"
| "error_message (PlainError message) = message"

text \<open>The \<open>catch\<close> block.\<close>

definition failure_path ::
    "exec_env \<Rightarrow> Job \<Rightarrow> EffectivePolicy \<Rightarrow> ident \<Rightarrow> JobExecution \<Rightarrow> log_entry list \<Rightarrow> js_error \<Rightarrow> unit action" where
  "failure_path env job policy jobId execution logBuffer err =
     (let durationMs = clock env E_failed - clock env E_started;
          errorMessage = error_message err;
          newAttemptCount = j_attemptCount job + 1
      in if newAttemptCount < ep_maxAttempts policy then
           (let delayMs = calculateDelay (ex_random env) (ep_strategy policy)
                  (ep_baseDelayMs policy) (ep_maxDelayMs policy) newAttemptCount
            in bindA (retry_transaction env jobId (x_id execution) newAttemptCount
                  (ep_maxAttempts policy) delayMs durationMs errorMessage logBuffer) (\<lambda>_.
               publishTransition env jobId ''failed_retrying'' (j_queueId job)))
         else
           bindA (dead_transaction env job jobId (x_id execution) newAttemptCount durationMs
              errorMessage logBuffer) (\<lambda>_.
           publishTransition env jobId ''dead_letter'' (j_queueId job)))"

text \<open>The \<open>try\<close> block, after the handler has been called.\<close>

definition success_path ::
    "exec_env \<Rightarrow> Job \<Rightarrow> ident \<Rightarrow> JobExecution \<Rightarrow> log_entry list \<Rightarrow> js_error + unit \<Rightarrow> unit action" where
  "success_path env job jobId execution logBuffer outcome =
     (case outcome of
        Inl err \<Rightarrow> throwA err
      | Inr _ \<Rightarrow>
          bindA (complete_transaction env jobId (x_id execution)
            (clock env E_finished - clock env E_started) logBuffer) (\<lambda>_.
          publishTransition env jobId ''completed'' (j_queueId job)))"

definition executeJob :: "exec_env \<Rightarrow> ident \<Rightarrow> ident \<Rightarrow> unit action" where
  "executeJob env jobId workerId =
     bindA (callA env E_find (readA (fetch_job jobId))) (\<lambda>found.
     case found of
       None \<Rightarrow> retA ()
     | Some (job, policy) \<Rightarrow>
         bindA (mark_running env jobId) (\<lambda>_.
         bindA (publishTransition env jobId ''running'' (j_queueId job)) (\<lambda>_.
         bindA (open_execution env job jobId workerId) (\<lambda>execution.
         case run_handler (ex_handlers env) (j_type job) (j_payload job) of
           (logBuffer, outcome) \<Rightarrow>
             catchA (success_path env job jobId execution logBuffer outcome)
               (failure_path env job policy jobId execution logBuffer)))))"

section \<open>A run in two parts\<close>

text \<open>
  While the handler of a job runs, the worker and the other services go on. \<open>flight\<close> holds what
  \<open>executeJob\<close> keeps in its variables until the handler has returned.
\<close>

record flight =
  fl_jobId :: ident
  fl_job :: Job
  fl_policy :: EffectivePolicy
  fl_execution :: JobExecution

definition begin_job :: "exec_env \<Rightarrow> ident \<Rightarrow> ident \<Rightarrow> flight option action" where
  "begin_job env jobId workerId =
     bindA (callA env E_find (readA (fetch_job jobId))) (\<lambda>found.
     case found of
       None \<Rightarrow> retA None
     | Some (job, policy) \<Rightarrow>
         bindA (mark_running env jobId) (\<lambda>_.
         bindA (publishTransition env jobId ''running'' (j_queueId job)) (\<lambda>_.
         bindA (open_execution env job jobId workerId) (\<lambda>execution.
         retA (Some \<lparr>fl_jobId = jobId, fl_job = job, fl_policy = policy, fl_execution = execution\<rparr>)))))"

definition finish_job :: "exec_env \<Rightarrow> flight \<Rightarrow> unit action" where
  "finish_job env f =
     (case run_handler (ex_handlers env) (j_type (fl_job f)) (j_payload (fl_job f)) of
        (logBuffer, outcome) \<Rightarrow>
          catchA (success_path env (fl_job f) (fl_jobId f) (fl_execution f) logBuffer outcome)
            (failure_path env (fl_job f) (fl_policy f) (fl_jobId f) (fl_execution f) logBuffer))"

lemma executeJob_split:
  "executeJob env jobId workerId = bindA (begin_job env jobId workerId) (\<lambda>found.
     case found of None \<Rightarrow> retA () | Some f \<Rightarrow> finish_job env f)"
  by (rule ext) (auto simp: executeJob_def begin_job_def finish_job_def bindA_assoc bindA_def retA_def
      split: prod.split sum.split option.split)

end
