(* ===== verification/ExecutorSpec.thy ===== *)
theory ExecutorSpec
  imports Executor Claimer Samples Invariants
begin

text \<open>
  What running one job does (\<open>worker/src/executor.ts\<close>). The first part computes the state each
  step leaves when the database answers; the publishes are left free to fail. The
  second part states the outcome of \<open>executeJob\<close> on its three paths, what it cannot touch
  whatever fails, and what a series of runs of a failing job does.
\<close>

section \<open>The steps when the database answers\<close>

definition emitted :: "exec_env \<Rightarrow> ident \<Rightarrow> string \<Rightarrow> ident \<Rightarrow> world \<Rightarrow> world" where
  "emitted env jobId status queueId w =
     (if fails env (E_publish status) = None
      then w\<lparr>published := published w @ [(''job:transitions'',
             JObj (transition_event jobId status queueId (clock env (E_publish status))))]\<rparr>
      else w)"

lemma publishTransition_run [simp]:
  "publishTransition env jobId status queueId w = (Inr (), emitted env jobId status queueId w)"
  by (cases "fails env (E_publish status)")
    (simp_all add: publishTransition_def emitted_def publish_def act_defs)

lemma emitted_frame [simp]:
  "job_find (emitted env j s q w) i = job_find w i"
  "exec_find (emitted env j s q w) i = exec_find w i"
  "dlq_find (emitted env j s q w) i = dlq_find w i"
  "worker_find (emitted env j s q w) i = worker_find w i"
  "queue_find (emitted env j s q w) i = queue_find w i"
  "policy_find (emitted env j s q w) i = policy_find w i"
  "jobs (emitted env j s q w) = jobs w"
  "job_logs (emitted env j s q w) = job_logs w"
  "job_executions (emitted env j s q w) = job_executions w"
  "dead_letter_jobs (emitted env j s q w) = dead_letter_jobs w"
  by (simp_all add: emitted_def)

definition new_execution :: "exec_env \<Rightarrow> Job \<Rightarrow> ident \<Rightarrow> ident \<Rightarrow> JobExecution" where
  "new_execution env job jobId workerId =
     \<lparr>x_id = fresh env E_execution, x_jobId = jobId, x_workerId = workerId,
      x_attemptNumber = j_attemptCount job + 1, x_startedAt = clock env E_execution,
      x_finishedAt = None, x_status = ''running'', x_errorMessage = None, x_durationMs = None\<rparr>"

definition started :: "exec_env \<Rightarrow> Job \<Rightarrow> ident \<Rightarrow> world \<Rightarrow> world" where
  "started env job jobId w =
     emitted env jobId ''running'' (j_queueId job)
       (job_put jobId (\<lambda>j. j\<lparr>j_status := Running, j_updatedAt := clock env E_running\<rparr>) w)"

definition opened :: "exec_env \<Rightarrow> Job \<Rightarrow> ident \<Rightarrow> ident \<Rightarrow> world \<Rightarrow> world" where
  "opened env job jobId workerId w =
     (let w' = started env job jobId w
      in w'\<lparr>job_executions := job_executions w' @ [new_execution env job jobId workerId]\<rparr>)"

text \<open>What the three transactions leave, as one function of the new job row and the logs.\<close>

definition settled ::
    "ident \<Rightarrow> (Job \<Rightarrow> Job) \<Rightarrow> ident \<Rightarrow> (JobExecution \<Rightarrow> JobExecution) \<Rightarrow> JobLog list \<Rightarrow> world \<Rightarrow> world" where
  "settled jobId f x g ls w =
     (exec_put x g (job_put jobId f w))\<lparr>job_logs := job_logs w @ ls\<rparr>"

lemma settled_fields [simp]:
  "keeps_key j_id f \<Longrightarrow> job_find (settled jobId f x g ls w) i =
     (if i = jobId then map_option f (job_find w jobId) else job_find w i)"
  "keeps_key x_id g \<Longrightarrow> exec_find (settled jobId f x g ls w) k =
     (if k = x then map_option g (exec_find w x) else exec_find w k)"
  "dlq_find (settled jobId f x g ls w) i = dlq_find w i"
  "worker_find (settled jobId f x g ls w) i = worker_find w i"
  "queue_find (settled jobId f x g ls w) i = queue_find w i"
  "policy_find (settled jobId f x g ls w) i = policy_find w i"
  "job_logs (settled jobId f x g ls w) = job_logs w @ ls"
  "dead_letter_jobs (settled jobId f x g ls w) = dead_letter_jobs w"
  "published (settled jobId f x g ls w) = published w"
  by (simp_all add: settled_def job_store.get_put exec_store.get_put)

lemma settle_steps:
  assumes "job_find w jobId \<noteq> None" "exec_find w x \<noteq> None"
    "keeps_key j_id f" "keeps_key x_id g" "l_executionId l = x" "\<And>e. l_executionId (row e) = x"
  shows "bindA (job_update jobId f) (\<lambda>_. bindA (exec_update x g) (\<lambda>_.
     bindA (log_create l) (\<lambda>_. forA (\<lambda>e. log_create (row e)) es))) w =
     (Inr (), settled jobId f x g (l # map row es) w)"
proof -
  from assms(1,2) obtain j e where "job_find w jobId = Some j" and "exec_find w x = Some e"
    by auto
  moreover from this have "exec_find (exec_put x g (job_put jobId f w)\<lparr>job_logs := ls\<rparr>) x \<noteq> None" for ls
    using assms(4) by (simp add: exec_store.get_put)
  note log_create_all [where f = row, OF this assms(6)]
  ultimately show ?thesis using assms(3-5)
    by (simp add: bindA_def job_update_def exec_update_def log_create_def exec_store.get_put
        settled_def)
qed

text \<open>The dead-letter transaction inserts a row between the execution update and the logs.\<close>

definition buried ::
    "DeadLetterJob \<Rightarrow> ident \<Rightarrow> (Job \<Rightarrow> Job) \<Rightarrow> ident \<Rightarrow> (JobExecution \<Rightarrow> JobExecution) \<Rightarrow> JobLog list \<Rightarrow> world \<Rightarrow> world" where
  "buried d jobId f x g ls w =
     (let w' = settled jobId f x g ls w in w'\<lparr>dead_letter_jobs := dead_letter_jobs w' @ [d]\<rparr>)"

lemma bury_steps:
  assumes "job_find w jobId \<noteq> None" "exec_find w x \<noteq> None" "dlq_find w jobId = None"
    "keeps_key j_id f" "keeps_key x_id g" "l_executionId l = x" "\<And>e. l_executionId (row e) = x"
    "d_originalJobId d = jobId"
  shows "bindA (job_update jobId f) (\<lambda>_. bindA (exec_update x g) (\<lambda>_. bindA (dlq_create d) (\<lambda>_.
     bindA (log_create l) (\<lambda>_. forA (\<lambda>e. log_create (row e)) es)))) w =
     (Inr (), buried d jobId f x g (l # map row es) w)"
proof -
  from assms(1,2) obtain j e where "job_find w jobId = Some j" and "exec_find w x = Some e"
    by auto
  moreover from this have "exec_find (exec_put x g (job_put jobId f w)
      \<lparr>dead_letter_jobs := ds, job_logs := ls\<rparr>) x \<noteq> None" for ds ls
    using assms(5) by (simp add: exec_store.get_put)
  note log_create_all [where f = row, OF this assms(7)]
  ultimately show ?thesis using assms(3-6,8)
    by (simp add: bindA_def job_update_def exec_update_def dlq_create_def log_create_def
        exec_store.get_put job_store.get_put buried_def settled_def)
qed


section \<open>The state the handler runs in\<close>

definition ready :: "exec_env \<Rightarrow> ident \<Rightarrow> world \<Rightarrow> bool" where
  \<comment> \<open>the first calls succeed, the worker is registered, the generated id is new\<close>
  "ready env workerId w \<longleftrightarrow>
     fails env E_find = None \<and> fails env E_running = None \<and> fails env E_execution = None \<and>
     worker_find w workerId \<noteq> None \<and> exec_find w (fresh env E_execution) = None"

lemma readyD [simp]:
  assumes "ready env workerId w"
  shows "fails env E_find = None" "fails env E_running = None" "fails env E_execution = None"
    "exec_find w (fresh env E_execution) = None"
    "(worker_find w workerId = None) = False"
  using assms by (simp_all add: ready_def)

lemma fetch_jobD:
  assumes "fetch_job jobId w = Some (job, policy)"
  shows "job_find w jobId = Some job" and "j_id job = jobId"
proof -
  show "job_find w jobId = Some job" using assms by (auto simp: fetch_job_def split: option.splits)
  then show "j_id job = jobId" by (rule job_store.get_key)
qed

lemma started_finds [simp]:
  "job_find (started env job jobId w) i =
    (if i = jobId then map_option (\<lambda>j. j\<lparr>j_status := Running, j_updatedAt := clock env E_running\<rparr>)
       (job_find w jobId) else job_find w i)"
  "exec_find (started env job jobId w) k = exec_find w k"
  "dlq_find (started env job jobId w) i = dlq_find w i"
  "worker_find (started env job jobId w) v = worker_find w v"
  "queue_find (started env job jobId w) q = queue_find w q"
  "policy_find (started env job jobId w) p = policy_find w p"
  "job_logs (started env job jobId w) = job_logs w"
  "dead_letter_jobs (started env job jobId w) = dead_letter_jobs w"
  "job_executions (started env job jobId w) = job_executions w"
  by (simp_all add: started_def job_store.get_put)

lemma opened_finds [simp]:
  "job_find (opened env job jobId workerId w) i = job_find (started env job jobId w) i"
  "exec_find (opened env job jobId workerId w) k = (case exec_find w k of
     None \<Rightarrow> if fresh env E_execution = k then Some (new_execution env job jobId workerId) else None
   | Some y \<Rightarrow> Some y)"
  "dlq_find (opened env job jobId workerId w) i = dlq_find w i"
  "worker_find (opened env job jobId workerId w) v = worker_find w v"
  "queue_find (opened env job jobId workerId w) q = queue_find w q"
  "policy_find (opened env job jobId workerId w) p = policy_find w p"
  "job_logs (opened env job jobId workerId w) = job_logs w"
  "dead_letter_jobs (opened env job jobId workerId w) = dead_letter_jobs w"
  "published (opened env job jobId workerId w) = published (started env job jobId w)"
  by (simp_all add: opened_def Let_def)
    (simp add: exec_find_def find_by_append new_execution_def split: option.split)

lemma mark_running_run:
  assumes "fails env E_running = None" and "job_find w jobId \<noteq> None"
  shows "\<exists>j. mark_running env jobId w = (Inr j,
    job_put jobId (\<lambda>j. j\<lparr>j_status := Running, j_updatedAt := clock env E_running\<rparr>) w)"
  using assms by (auto simp: mark_running_def job_update_def)

lemma open_execution_run:
  assumes "fails env E_execution = None" and "exec_find w (fresh env E_execution) = None"
    and "job_find w jobId \<noteq> None" and "worker_find w workerId \<noteq> None"
  shows "open_execution env job jobId workerId w = (Inr (new_execution env job jobId workerId),
    w\<lparr>job_executions := job_executions w @ [new_execution env job jobId workerId]\<rparr>)"
  using assms by (auto simp: open_execution_def exec_create_def new_execution_def)

lemma executeJob_opened:
  assumes "ready env workerId w" and "fetch_job jobId w = Some (job, policy)"
    and "run_handler (ex_handlers env) (j_type job) (j_payload job) = (logs, outcome)"
  shows "executeJob env jobId workerId w =
    catchA (success_path env job jobId (new_execution env job jobId workerId) logs outcome)
      (failure_path env job policy jobId (new_execution env job jobId workerId) logs)
      (opened env job jobId workerId w)"
proof -
  from assms(1) obtain j where run: "mark_running env jobId w = (Inr j,
      job_put jobId (\<lambda>j. j\<lparr>j_status := Running, j_updatedAt := clock env E_running\<rparr>) w)"
    using mark_running_run [of env w jobId] fetch_jobD [OF assms(2)] by auto
  have "open_execution env job jobId workerId (started env job jobId w) =
      (Inr (new_execution env job jobId workerId), opened env job jobId workerId w)"
    using assms(1) fetch_jobD [OF assms(2)] unfolding opened_def Let_def
    by (intro open_execution_run) simp_all
  then show ?thesis
    using assms run by (simp add: executeJob_def bindA_def readA_def started_def)
qed

lemma executeJob_missing:
  "fails env E_find = None \<Longrightarrow> job_find w jobId = None \<Longrightarrow>
    executeJob env jobId workerId w = (Inr (), w)"
  by (simp add: executeJob_def bindA_def readA_def fetch_job_def retA_def)

section \<open>The three ways a run ends\<close>

definition events :: "exec_env \<Rightarrow> ident \<Rightarrow> ident \<Rightarrow> string list \<Rightarrow> (string \<times> json) list" where
  \<comment> \<open>the messages of the transitions to these statuses, without those that failed to be sent\<close>
  "events env jobId queueId statuses =
     map (\<lambda>s. (''job:transitions'',
           JObj (transition_event jobId s queueId (clock env (E_publish s)))))
       (filter (\<lambda>s. fails env (E_publish s) = None) statuses)"

lemma emitted_events: "published (emitted env j s q w) = published w @ events env j q [s]"
  by (simp add: emitted_def events_def)

lemma started_events:
  "published (started env job jobId w) = published w @ events env jobId (j_queueId job) [''running'']"
  by (simp add: started_def emitted_events)

lemma events_two: "events env j q [s] @ events env j q [t] = events env j q [s, t]"
  by (simp add: events_def)

lemma new_execution_id [simp]:
  "x_id (new_execution env job jobId workerId) = fresh env E_execution"
  by (simp add: new_execution_def)

lemma finish_keeps_key [simp]: "keeps_key x_id (finish_execution st now d err)"
  by (simp add: finish_execution_def)

lemma finish_keeps_job [simp]: "x_jobId (finish_execution st now d err x) = x_jobId x"
  by (simp add: finish_execution_def)

lemma log_row_id [simp]: "l_executionId (log_row x now e) = x"
  by (simp add: log_row_def)

definition success_note :: "int \<Rightarrow> log_entry" where
  "success_note durationMs = (''info'', ''Job completed successfully in '' @ show_int durationMs @ ''ms'')"

definition retry_note :: "int \<Rightarrow> int \<Rightarrow> string \<Rightarrow> int \<Rightarrow> log_entry" where
  "retry_note attempt maxAttempts err delayMs =
     (''error'', ''Job failed (attempt '' @ show_int attempt @ ''/'' @ show_int maxAttempts @ ''): '' @
        err @ ''. Retrying in '' @ show_int delayMs @ ''ms'')"

definition dead_note :: "int \<Rightarrow> string \<Rightarrow> log_entry" where
  "dead_note attempt err =
     (''error'', ''Job moved to dead letter queue after '' @ show_int attempt @ '' attempts: '' @ err)"

lemma complete_transaction_run:
  assumes "fails env E_completed = None" "job_find w jobId \<noteq> None" "exec_find w x \<noteq> None"
  shows "complete_transaction env jobId x d logs w = (Inr (),
    settled jobId (\<lambda>j. j\<lparr>j_status := Completed, j_updatedAt := clock env E_completed\<rparr>)
      x (finish_execution ''completed'' (clock env E_completed) d None)
      (map (log_row x (clock env E_completed)) (success_note d # logs)) w)"
  using assms by (simp add: complete_transaction_def Let_def atomicA_def flush_logs_def settle_steps
      success_note_def)

lemma retry_transaction_run:
  assumes "fails env E_retry = None" "job_find w jobId \<noteq> None" "exec_find w x \<noteq> None"
  shows "retry_transaction env jobId x attempt maxAttempts delayMs d err logs w = (Inr (),
    settled jobId (\<lambda>j. j\<lparr>j_status := Queued, j_attemptCount := attempt,
        j_runAt := clock env E_requeue + delayMs, j_updatedAt := clock env E_retry\<rparr>)
      x (finish_execution ''failed'' (clock env E_retry) d (Some err))
      (map (log_row x (clock env E_retry)) (retry_note attempt maxAttempts err delayMs # logs)) w)"
  using assms by (simp add: retry_transaction_def Let_def atomicA_def flush_logs_def settle_steps
      retry_note_def)

definition dead_letter_row :: "exec_env \<Rightarrow> Job \<Rightarrow> ident \<Rightarrow> int \<Rightarrow> string \<Rightarrow> DeadLetterJob" where
  "dead_letter_row env job jobId attempt err =
     \<lparr>d_originalJobId = jobId, d_queueId = j_queueId job,
      d_payload = (if j_payload job = JNull then JObj [] else j_payload job),
      d_failureReason = err, d_attemptCount = attempt, d_movedAt = clock env E_dead\<rparr>"

lemma dead_transaction_run:
  assumes "fails env E_dead = None" "job_find w jobId \<noteq> None" "exec_find w x \<noteq> None"
    "dlq_find w jobId = None"
  shows "dead_transaction env job jobId x attempt d err logs w = (Inr (),
    buried (dead_letter_row env job jobId attempt err) jobId
      (\<lambda>j. j\<lparr>j_status := Dead_letter, j_attemptCount := attempt, j_updatedAt := clock env E_dead\<rparr>)
      x (finish_execution ''failed'' (clock env E_dead) d (Some err))
      (map (log_row x (clock env E_dead)) (dead_note attempt err # logs)) w)"
  using assms by (simp add: dead_transaction_def Let_def atomicA_def flush_logs_def bury_steps
      dead_note_def dead_letter_row_def)

text \<open>The states a run leaves on the three paths, from the state the handler ran in.\<close>

definition after_success :: "exec_env \<Rightarrow> Job \<Rightarrow> ident \<Rightarrow> log_entry list \<Rightarrow> world \<Rightarrow> world" where
  "after_success env job jobId logs w =
     (let x = fresh env E_execution; now = clock env E_completed;
          d = clock env E_finished - clock env E_started
      in emitted env jobId ''completed'' (j_queueId job)
        (settled jobId (\<lambda>j. j\<lparr>j_status := Completed, j_updatedAt := now\<rparr>)
          x (finish_execution ''completed'' now d None)
          (map (log_row x now) (success_note d # logs)) w))"

definition retry_delay_ms :: "exec_env \<Rightarrow> EffectivePolicy \<Rightarrow> Job \<Rightarrow> int" where
  "retry_delay_ms env policy job =
     calculateDelay (ex_random env) (ep_strategy policy) (ep_baseDelayMs policy)
       (ep_maxDelayMs policy) (j_attemptCount job + 1)"

definition after_retry ::
    "exec_env \<Rightarrow> Job \<Rightarrow> EffectivePolicy \<Rightarrow> ident \<Rightarrow> log_entry list \<Rightarrow> string \<Rightarrow> world \<Rightarrow> world" where
  "after_retry env job policy jobId logs err w =
     (let x = fresh env E_execution; now = clock env E_retry; n = j_attemptCount job + 1;
          d = clock env E_failed - clock env E_started; delayMs = retry_delay_ms env policy job
      in emitted env jobId ''failed_retrying'' (j_queueId job)
        (settled jobId (\<lambda>j. j\<lparr>j_status := Queued, j_attemptCount := n,
            j_runAt := clock env E_requeue + delayMs, j_updatedAt := now\<rparr>)
          x (finish_execution ''failed'' now d (Some err))
          (map (log_row x now) (retry_note n (ep_maxAttempts policy) err delayMs # logs)) w))"

definition after_death :: "exec_env \<Rightarrow> Job \<Rightarrow> ident \<Rightarrow> log_entry list \<Rightarrow> string \<Rightarrow> world \<Rightarrow> world" where
  "after_death env job jobId logs err w =
     (let x = fresh env E_execution; now = clock env E_dead; n = j_attemptCount job + 1;
          d = clock env E_failed - clock env E_started
      in emitted env jobId ''dead_letter'' (j_queueId job)
        (buried (dead_letter_row env job jobId n err) jobId
          (\<lambda>j. j\<lparr>j_status := Dead_letter, j_attemptCount := n, j_updatedAt := now\<rparr>)
          x (finish_execution ''failed'' now d (Some err))
          (map (log_row x now) (dead_note n err # logs)) w))"

lemma failure_path_retry:
  assumes "fails env E_retry = None" "job_find w jobId \<noteq> None"
    "exec_find w (fresh env E_execution) \<noteq> None"
    "j_attemptCount job + 1 < ep_maxAttempts policy"
  shows "failure_path env job policy jobId (new_execution env job i v) logs err w =
    (Inr (), after_retry env job policy jobId logs (error_message err) w)"
  using assms by (simp add: failure_path_def Let_def bindA_def retry_transaction_run after_retry_def
      retry_delay_ms_def)

lemma failure_path_dead:
  assumes "fails env E_dead = None" "job_find w jobId \<noteq> None"
    "exec_find w (fresh env E_execution) \<noteq> None" "dlq_find w jobId = None"
    "\<not> j_attemptCount job + 1 < ep_maxAttempts policy"
  shows "failure_path env job policy jobId (new_execution env job i v) logs err w =
    (Inr (), after_death env job jobId logs (error_message err) w)"
  using assms by (simp add: failure_path_def Let_def bindA_def dead_transaction_run after_death_def)

lemma success_path_run:
  assumes "fails env E_completed = None" "job_find w jobId \<noteq> None"
    "exec_find w (fresh env E_execution) \<noteq> None"
  shows "success_path env job jobId (new_execution env job i v) logs (Inr ()) w =
    (Inr (), after_success env job jobId logs w)"
  using assms by (simp add: success_path_def bindA_def complete_transaction_run after_success_def
      Let_def)

lemma opened_ready:
  assumes "ready env workerId w" and "fetch_job jobId w = Some (job, policy)"
  shows "job_find (opened env job jobId workerId w) jobId =
      Some (job\<lparr>j_status := Running, j_updatedAt := clock env E_running\<rparr>)"
    and "exec_find (opened env job jobId workerId w) (fresh env E_execution) =
      Some (new_execution env job jobId workerId)"
  using assms by (simp_all add: fetch_jobD)

lemma executeJob_cases:
  assumes "ready env workerId w" and "fetch_job jobId w = Some (job, policy)"
    and "run_handler (ex_handlers env) (j_type job) (j_payload job) = (logs, outcome)"
  defines "w1 \<equiv> opened env job jobId workerId w"
  shows "outcome = Inr () \<Longrightarrow> fails env E_completed = None \<Longrightarrow>
      executeJob env jobId workerId w = (Inr (), after_success env job jobId logs w1)"
    and "outcome = Inl err \<Longrightarrow> fails env E_retry = None \<Longrightarrow>
      j_attemptCount job + 1 < ep_maxAttempts policy \<Longrightarrow>
      executeJob env jobId workerId w =
        (Inr (), after_retry env job policy jobId logs (error_message err) w1)"
    and "outcome = Inl err \<Longrightarrow> fails env E_dead = None \<Longrightarrow>
      \<not> j_attemptCount job + 1 < ep_maxAttempts policy \<Longrightarrow>
      dlq_find w jobId = None \<Longrightarrow>
      executeJob env jobId workerId w =
        (Inr (), after_death env job jobId logs (error_message err) w1)"
proof -
  note run = executeJob_opened [OF assms(1-3)] and rows = opened_ready [OF assms(1,2), folded w1_def]
  have d: "dlq_find w1 jobId = dlq_find w jobId" by (simp add: w1_def)
  show "executeJob env jobId workerId w = (Inr (), after_success env job jobId logs w1)"
    if "outcome = Inr ()" "fails env E_completed = None"
    using that run rows assms(1)
    by (simp add: w1_def [symmetric] catchA_def success_path_run)
  show "executeJob env jobId workerId w =
        (Inr (), after_retry env job policy jobId logs (error_message err) w1)"
    if "outcome = Inl err" "fails env E_retry = None" "j_attemptCount job + 1 < ep_maxAttempts policy"
    using that run rows assms(1)
    by (simp add: w1_def [symmetric] catchA_def success_path_def throwA_def failure_path_retry)
  show "executeJob env jobId workerId w =
        (Inr (), after_death env job jobId logs (error_message err) w1)"
    if "outcome = Inl err" "fails env E_dead = None" "\<not> j_attemptCount job + 1 < ep_maxAttempts policy"
      "dlq_find w jobId = None"
    using that run rows assms(1) d
    by (simp add: w1_def [symmetric] catchA_def success_path_def throwA_def failure_path_dead)
qed

definition demo_handlers :: handler_env where
  "demo_handlers = \<lparr>stringify = (\<lambda>_. ''{}''), to_text = (\<lambda>_. []), type_error = (\<lambda>m. m),
     sleep_random = 0, fetch = (\<lambda>_ _. FetchFails ''down'')\<rparr>"

definition demo_env :: "timestamp \<Rightarrow> ident \<Rightarrow> exec_env" where
  "demo_env t x = \<lparr>fails = (\<lambda>_. None), clock = (\<lambda>_. t), fresh = (\<lambda>_. x), ex_random = 1 / 2,
     ex_handlers = demo_handlers\<rparr>"

definition demo_world :: "string \<Rightarrow> int \<Rightarrow> world" where
  "demo_world type n = empty_world\<lparr>queues := [sample_queue],
     jobs := [(sample_job ''a'' 0)\<lparr>j_type := type, j_status := Claimed, j_attemptCount := n\<rparr>],
     workers := [sample_worker ''v'' 0]\<rparr>"

definition demo_job :: "string \<Rightarrow> int \<Rightarrow> Job" where
  "demo_job type n = the (job_find (demo_world type n) ''a'')"

lemmas demo_defs =
  demo_handlers_def demo_env_def demo_world_def demo_job_def sample_defs job_find_def queue_find_def
  worker_find_def exec_find_def dlq_find_def policy_find_def

lemma demo_ready: "ready (demo_env 7 x) ''v'' (demo_world type n)"
  by (simp add: ready_def demo_defs)

lemma demo_fetch: "fetch_job ''a'' (demo_world type n) = Some (demo_job type n, DEFAULT_RETRY)"
  by (simp add: fetch_job_def resolve_policy_def demo_defs)

lemma demo_row [simp]:
  "j_type (demo_job type n) = type" "j_attemptCount (demo_job type n) = n"
  "dlq_find (demo_world type n) i = None" "ep_maxAttempts DEFAULT_RETRY = 3"
  "fails (demo_env t x) p = None" "j_payload (demo_job type n) = JObj []"
  "clock (demo_env t x) p = t" "fresh (demo_env t x) p = x"
  "dead_letter_jobs (demo_world type n) = []" "job_executions (demo_world type n) = []"
  "published (demo_world type n) = []" "job_logs (demo_world type n) = []"
  by (simp_all add: demo_defs DEFAULT_RETRY_def)

lemma demo_run:
  "\<exists>logs. run_handler henv ''echo'' (JObj []) = (logs, Inr ())"
  "\<exists>m. run_handler henv ''nope'' (JObj []) = ([], Inl (PlainError m))"
proof -
  show "\<exists>logs. run_handler henv ''echo'' (JObj []) = (logs, Inr ())"
    by (simp add: echoHandler_def Let_def)
  show "\<exists>m. run_handler henv ''nope'' (JObj []) = ([], Inl (PlainError m))"
    by (rule run_handler_unknown) (simp add: listHandlerTypes_def handlers_def object_prototype_def)
qed

text \<open>
  The handler returns: the job is \<open>completed\<close> with its attempt count unchanged, the execution
  row opened for this attempt is \<open>completed\<close> with its duration, the job's logs are the success
  note followed by what the handler logged in order, nothing goes to the dead letter queue, and
  the two transitions are published in order (except those Redis refuses, which changes nothing
  else).
\<close>

lemma executeJob_success:
  assumes "ready env workerId w" and "fetch_job jobId w = Some (job, policy)"
    and "run_handler (ex_handlers env) (j_type job) (j_payload job) = (logs, Inr ())"
    and "fails env E_completed = None"
  shows "\<exists>w'. executeJob env jobId workerId w = (Inr (), w') \<and>
    job_find w' jobId =
      Some (job\<lparr>j_status := Completed, j_updatedAt := clock env E_completed\<rparr>) \<and>
    exec_find w' (fresh env E_execution) = Some (finish_execution ''completed''
      (clock env E_completed) (clock env E_finished - clock env E_started) None
      (new_execution env job jobId workerId)) \<and>
    job_logs w' = job_logs w @ map (log_row (fresh env E_execution) (clock env E_completed))
      (success_note (clock env E_finished - clock env E_started) # logs) \<and>
    dead_letter_jobs w' = dead_letter_jobs w \<and>
    published w' = published w @ events env jobId (j_queueId job) [''running'', ''completed'']"
  using executeJob_cases(1) [OF assms(1-3)] assms(1,4) fetch_jobD [OF assms(2)]
  by (simp add: after_success_def Let_def emitted_events started_events events_two)

lemma executeJob_success_witness:
  "\<exists>logs w'. executeJob (demo_env 7 ''x'') ''a'' ''v'' (demo_world ''echo'' 1) = (Inr (), w') \<and>
    job_find w' ''a'' = Some ((demo_job ''echo'' 1)\<lparr>j_status := Completed, j_updatedAt := 7\<rparr>) \<and>
    length (job_logs w') = 1 + length (logs :: log_entry list) \<and> map fst (published w') = [''job:transitions'', ''job:transitions'']"
proof -
  obtain logs where "run_handler (ex_handlers (demo_env 7 ''x'')) ''echo'' (JObj []) = (logs, Inr ())"
    using demo_run(1) by blast
  then show ?thesis
    using executeJob_success [OF demo_ready demo_fetch, of "''x''" "''echo''" 1 logs]
    by (auto simp: events_def)
qed

text \<open>
  The handler throws and attempts remain: the job is back in \<open>queued\<close> with one more attempt
  and a run time at the policy's delay from now, its other fields unchanged; the execution is
  \<open>failed\<close> with the error message, nothing is dead-lettered.
\<close>

lemma executeJob_retry:
  assumes "ready env workerId w" and "fetch_job jobId w = Some (job, policy)"
    and "run_handler (ex_handlers env) (j_type job) (j_payload job) = (logs, Inl err)"
    and "j_attemptCount job + 1 < ep_maxAttempts policy" and "fails env E_retry = None"
  shows "\<exists>w'. executeJob env jobId workerId w = (Inr (), w') \<and>
    job_find w' jobId = Some (job\<lparr>j_status := Queued, j_attemptCount := j_attemptCount job + 1,
      j_runAt := clock env E_requeue + calculateDelay (ex_random env) (ep_strategy policy)
        (ep_baseDelayMs policy) (ep_maxDelayMs policy) (j_attemptCount job + 1),
      j_updatedAt := clock env E_retry\<rparr>) \<and>
    exec_find w' (fresh env E_execution) = Some (finish_execution ''failed'' (clock env E_retry)
      (clock env E_failed - clock env E_started) (Some (error_message err))
      (new_execution env job jobId workerId)) \<and>
    dead_letter_jobs w' = dead_letter_jobs w \<and>
    published w' =
      published w @ events env jobId (j_queueId job) [''running'', ''failed_retrying'']"
  using executeJob_cases(2) [OF assms(1-3)] assms(1,4,5) fetch_jobD [OF assms(2)]
  by (simp add: after_retry_def Let_def emitted_events started_events events_two
      retry_delay_ms_def)

lemma executeJob_retry_witness:
  "\<exists>w'. executeJob (demo_env 7 ''x'') ''a'' ''v'' (demo_world ''nope'' 1) = (Inr (), w') \<and>
    job_find w' ''a'' = Some ((demo_job ''nope'' 1)\<lparr>j_status := Queued, j_attemptCount := 2,
      j_runAt := 4057, j_updatedAt := 7\<rparr>) \<and> dead_letter_jobs w' = []"
proof -
  obtain m where "run_handler (ex_handlers (demo_env 7 ''x'')) ''nope'' (JObj []) = ([], Inl (PlainError m))"
    using demo_run(2) by blast
  then show ?thesis
    using executeJob_retry [OF demo_ready demo_fetch, of "''x''" "''nope''" 1 "[]" "PlainError m"]
    by (auto simp: DEFAULT_RETRY_def jitter_def demo_env_def [of _ "''x''"])
qed

text \<open>
  The handler throws on the last attempt: the job is \<open>dead_letter\<close>, and exactly one row is
  added to the dead letter queue, which keeps the job's queue, its payload (an empty object for a
  null payload), the error message and the attempt count; the execution is \<open>failed\<close>.
\<close>

lemma executeJob_dead_letter:
  assumes "ready env workerId w" and "fetch_job jobId w = Some (job, policy)"
    and "run_handler (ex_handlers env) (j_type job) (j_payload job) = (logs, Inl err)"
    and "ep_maxAttempts policy \<le> j_attemptCount job + 1" and "dlq_find w jobId = None"
    and "fails env E_dead = None"
  shows "\<exists>w'. executeJob env jobId workerId w = (Inr (), w') \<and>
    job_find w' jobId = Some (job\<lparr>j_status := Dead_letter,
      j_attemptCount := j_attemptCount job + 1, j_updatedAt := clock env E_dead\<rparr>) \<and>
    dead_letter_jobs w' = dead_letter_jobs w @
      [dead_letter_row env job jobId (j_attemptCount job + 1) (error_message err)] \<and>
    exec_find w' (fresh env E_execution) = Some (finish_execution ''failed'' (clock env E_dead)
      (clock env E_failed - clock env E_started) (Some (error_message err))
      (new_execution env job jobId workerId)) \<and>
    published w' = published w @ events env jobId (j_queueId job) [''running'', ''dead_letter'']"
  using executeJob_cases(3) [OF assms(1-3)] assms(1,4,5,6) fetch_jobD [OF assms(2)]
  by (simp add: after_death_def buried_def Let_def emitted_events started_events events_two)

lemma executeJob_dead_letter_witness:
  "\<exists>w'. executeJob (demo_env 7 ''x'') ''a'' ''v'' (demo_world ''nope'' 2) = (Inr (), w') \<and>
    job_find w' ''a'' = Some ((demo_job ''nope'' 2)\<lparr>j_status := Dead_letter, j_attemptCount := 3,
      j_updatedAt := 7\<rparr>) \<and> length (dead_letter_jobs w') = 1"
proof -
  obtain m where "run_handler (ex_handlers (demo_env 7 ''x'')) ''nope'' (JObj []) = ([], Inl (PlainError m))"
    using demo_run(2) by blast
  then show ?thesis
    using executeJob_dead_letter [OF demo_ready demo_fetch, of "''x''" "''nope''" 2 "[]" "PlainError m"]
    by auto
qed

section \<open>Under any failure of the database, Redis or the handler\<close>

text \<open>
  The steps in terms of a two-state relation \<open>R\<close> that the calls of the executor keep: the
  updates of the executed job's row, of executions and logs, and the two transactions whose effect
  is judged at their commit.
\<close>

lemma flight_guar:
  assumes R: "two_state R"
    and upd: "\<And>f. harmless f \<Longrightarrow> guar R (job_update jobId f)"
    and dead: "\<And>env job x n d err logs. guar R (dead_transaction env job jobId x n d err logs)"
    and calls: "\<And>x g. keeps_key x_jobId g \<Longrightarrow> guar R (exec_update x g)"
      "\<And>e. x_jobId e = jobId \<Longrightarrow> guar R (exec_create e)"
      "\<And>l. guar R (log_create l)" "\<And>c m. guar R (publish c m)"
  shows "guar R (begin_job env jobId workerId)" and "fl_jobId f = jobId \<Longrightarrow> guar R (finish_job env f)"
proof -
  note comb = two_state.guar_combinators [OF R] two_state.if_guar [OF R]
    two_state.option_guar [OF R] call_guar [OF R] calls
  have pub: "guar R (publishTransition env i s q)" for i s q
    unfolding publishTransition_def by (intro comb)
  have row: "guar R (job_update jobId (\<lambda>j. j\<lparr>j_status := Running, j_updatedAt := t\<rparr>))"
    "guar R (job_update jobId (\<lambda>j. j\<lparr>j_status := Completed, j_updatedAt := t\<rparr>))"
    "guar R (job_update jobId (\<lambda>j. j\<lparr>j_status := Queued, j_attemptCount := n, j_runAt := r,
       j_updatedAt := t\<rparr>))" for t n r
    by (rule upd, simp add: harmless_defs)+
  have complete: "guar R (complete_transaction env jobId x d logs)" for x d logs
    unfolding complete_transaction_def flush_logs_def Let_def by (intro comb row) simp
  have retry: "guar R (retry_transaction env jobId x n m dl d err logs)" for x n m dl d err logs
    unfolding retry_transaction_def flush_logs_def Let_def by (intro comb row) simp
  have failure: "guar R (failure_path env job policy jobId x logs err)" for job policy x logs err
    unfolding failure_path_def Let_def by (intro comb retry dead pub)
  have success: "guar R (success_path env job jobId x logs outcome)" for job x logs outcome
    unfolding success_path_def by (cases outcome) (auto intro!: comb complete pub)
  show "guar R (begin_job env jobId workerId)"
    unfolding begin_job_def mark_running_def open_execution_def case_prod_unfold
    by (rule comb, intro comb, rule two_state.option_guar [OF R])
      (intro comb row pub | clarsimp split: prod.split)+
  show "guar R (finish_job env f)" if f: "fl_jobId f = jobId"
    unfolding finish_job_def case_prod_unfold f by (intro comb success failure)
qed

lemma begin_job_flight:
  "begin_job env jobId workerId w = (Inr (Some f), w') \<Longrightarrow> fl_jobId f = jobId"
  by (auto simp: begin_job_def bindA_def retA_def split: prod.splits sum.splits option.splits)

lemma executeJob_guar:
  assumes R: "two_state R"
    and "\<And>f. harmless f \<Longrightarrow> guar R (job_update jobId f)"
    and "\<And>env job x n d err logs. guar R (dead_transaction env job jobId x n d err logs)"
    and "\<And>x g. keeps_key x_jobId g \<Longrightarrow> guar R (exec_update x g)"
    and "\<And>e. x_jobId e = jobId \<Longrightarrow> guar R (exec_create e)"
    and "\<And>l. guar R (log_create l)" and "\<And>c m. guar R (publish c m)"
  shows "guar R (executeJob env jobId workerId)"
proof (rule guarI)
  fix s
  obtain r t where run: "begin_job env jobId workerId s = (r, t)" by (cases "begin_job env jobId workerId s")
  note parts = flight_guar [OF assms]
  have begun: "R s t" using parts(1) run by (rule guarD')
  show "R s (snd (executeJob env jobId workerId s))"
  proof (cases "\<exists>f. r = Inr (Some f)")
    case True
    then obtain f where f: "r = Inr (Some f)" by blast
    then have "R t (snd (finish_job env f t))"
      using parts(2) [of f] begin_job_flight run by (blast intro: guarD)
    with begun f run show ?thesis
      by (simp add: executeJob_split bindA_def two_state.trans_R [OF R])
  qed (use begun run in \<open>auto simp: executeJob_split bindA_def retA_def split: sum.split option.split\<close>)
qed

context row_tables
begin

text \<open>The transaction that buries a job writes the status and the dead letter, or neither.\<close>

lemma dead_transaction_R: "guar R (dead_transaction env job jobId x n d err logs)"
proof -
  have body: "guar R (atomicA
        (bindA (job_update jobId (\<lambda>j. j\<lparr>j_status := Dead_letter, j_attemptCount := n, j_updatedAt := now\<rparr>)) (\<lambda>_.
         bindA (exec_update x g) (\<lambda>_. bindA (dlq_create row) (\<lambda>_.
         bindA (log_create l) (\<lambda>_. forA (\<lambda>e. log_create (f e)) logs))))))"
    if row: "d_originalJobId row = jobId" for now g l f and row
  proof (rule atomic_commit_guar)
    fix s t and r :: unit
    let ?u = "\<lambda>j. j\<lparr>j_status := Dead_letter, j_attemptCount := n, j_updatedAt := now\<rparr>"
    let ?logs = "bindA (log_create l) (\<lambda>_. forA (\<lambda>e. log_create (f e)) logs)"
    assume run: "bindA (job_update jobId ?u) (\<lambda>_. bindA (exec_update x g) (\<lambda>_.
        bindA (dlq_create row) (\<lambda>_. ?logs))) s = (Inr r, t)"
    define s1 where "s1 = exec_put x g (job_put jobId ?u s)"
    define s2 where "s2 = s1\<lparr>dead_letter_jobs := dead_letter_jobs s1 @ [row]\<rparr>"
    have "?logs s2 = (Inr r, t)"
      using run row by (auto simp: bindA_def job_update_def exec_update_def dlq_create_def s1_def
          s2_def split: option.splits if_splits)
    moreover have "guar R ?logs" by (intro walk)
    ultimately have "R s2 t" by (blast dest: guarD')
    moreover have "R s s2"
      by (rule frame_after, rule bury_R [OF _ row, of ?u])
        (simp_all add: keeps_columns_def s2_def s1_def job_put_def exec_put_def)
    ultimately show "R s t" by (blast intro: trans_R)
  qed
  show ?thesis
    unfolding dead_transaction_def flush_logs_def Let_def by (rule call_R, rule body) simp
qed

lemma executeJob_R: "guar R (executeJob env jobId workerId)"
  by (rule executeJob_guar [OF two_state_axioms job_update_R dead_transaction_R table_calls(1-4)])

lemma flight_R: "guar R (begin_job env jobId workerId)" "guar R (finish_job env f)"
  by (rule flight_guar [OF two_state_axioms job_update_R dead_transaction_R table_calls(1-4)]; simp)+

end

text \<open>
  Whatever fails during a run (any database call, Redis, the handler, the worker row missing)
  a job in status \<open>dead_letter\<close> has its row in the dead letter queue: the two are written in one
  transaction.
\<close>

lemma executeJob_keeps_dead_letters:
  "dead_letters_recorded w \<Longrightarrow> dead_letters_recorded (snd (executeJob env jobId workerId w))"
  using guarD [OF dlr.executeJob_R] by blast

lemma executeJob_keeps_dead_letters_witness:
  "dead_letters_recorded (snd (executeJob (demo_env 7 ''x'') ''a'' ''v'' (demo_world ''nope'' 2)))"
  by (rule executeJob_keeps_dead_letters) (simp add: dead_letters_recorded_def demo_defs)

text \<open>
  C11. "Safe to call concurrently; each invocation is isolated": whatever fails, running a job
  changes no other job's row and no other job's dead letter.
\<close>

theorem executeJob_isolated:
  "other_rows jobId (snd (executeJob env jobId workerId w)) = other_rows jobId w"
proof -
  have "guar (\<lambda>s t. other_rows jobId t = other_rows jobId s)
      (dead_transaction env job jobId x n d err logs)" for env job x n d err logs
    unfolding dead_transaction_def flush_logs_def Let_def
    by (intro guar_rules other_rows_calls) simp_all
  then have "guar (\<lambda>s t. other_rows jobId t = other_rows jobId s) (executeJob env jobId workerId)"
    by (intro executeJob_guar frame.two_state_axioms other_rows_calls)
      (simp add: harmless_defs keeps_key_def)
  then show ?thesis by (rule guarD)
qed

section \<open>The database fails after the handler has returned\<close>

text \<open>
  Handlers run at least once, not exactly once: when the handler has done its work but the
  commit of \<open>completed\<close> fails and attempts remain, the failure is treated like one of the handler,
  the job goes back to \<open>queued\<close> and the handler will run again.
\<close>

lemma executeJob_commit_failure:
  assumes "ready env workerId w" and "fetch_job jobId w = Some (job, policy)"
    and "run_handler (ex_handlers env) (j_type job) (j_payload job) = (logs, Inr ())"
    and "fails env E_completed = Some err" and "fails env E_retry = None"
    and "j_attemptCount job + 1 < ep_maxAttempts policy"
  shows "\<exists>w' j. executeJob env jobId workerId w = (Inr (), w') \<and> job_find w' jobId = Some j \<and>
    j_status j = Queued \<and> j_attemptCount j = j_attemptCount job + 1 \<and>
    map_option x_errorMessage (exec_find w' (fresh env E_execution)) =
      Some (Some (error_message err))"
proof -
  have "executeJob env jobId workerId w = (Inr (), after_retry env job policy jobId logs
      (error_message err) (opened env job jobId workerId w))"
    using assms(1,4-6) executeJob_opened [OF assms(1-3)] fetch_jobD [OF assms(2)]
    by (simp add: catchA_def success_path_def complete_transaction_def Let_def throwA_def
        failure_path_retry)
  then show ?thesis using assms(1) fetch_jobD [OF assms(2)]
    by (simp add: after_retry_def Let_def finish_execution_def)
qed

definition lossy_env :: "exec_point \<Rightarrow> exec_env" where
  "lossy_env p = (demo_env 7 ''x'')\<lparr>fails := (\<lambda>q. if q = p then Some (PlainError ''lost'') else None)\<rparr>"

lemma executeJob_commit_failure_witness:
  "\<exists>w' j. executeJob (lossy_env E_completed) ''a'' ''v'' (demo_world ''echo'' 0) = (Inr (), w') \<and>
    job_find w' ''a'' = Some j \<and> j_status j = Queued \<and> j_attemptCount j = 1"
proof -
  have "ready (lossy_env E_completed) ''v'' (demo_world ''echo'' 0)"
    unfolding ready_def by (simp add: lossy_env_def demo_defs)
  moreover obtain logs where "run_handler (ex_handlers (lossy_env E_completed)) ''echo'' (JObj []) = (logs, Inr ())"
    using demo_run(1) by blast
  ultimately show ?thesis
    using executeJob_commit_failure [OF _ demo_fetch, of "lossy_env E_completed" "''v''" "''echo''" 0 logs "PlainError ''lost''"]
    by (auto simp: lossy_env_def)
qed

text \<open>
  The other window: when the call that creates the execution throws, the error leaves
  \<open>executeJob\<close> before its \<open>try\<close>. The job stays \<open>running\<close> with the attempt uncounted and without
  any execution row.
\<close>

lemma executeJob_execution_failure:
  assumes "fails env E_find = None" and "fails env E_running = None"
    and "fails env E_execution = Some err" and "fetch_job jobId w = Some (job, policy)"
  shows "\<exists>w'. executeJob env jobId workerId w = (Inl err, w') \<and>
    job_find w' jobId = Some (job\<lparr>j_status := Running, j_updatedAt := clock env E_running\<rparr>) \<and>
    job_executions w' = job_executions w"
proof -
  note job = fetch_jobD [OF assms(4)]
  obtain j where "mark_running env jobId w = (Inr j,
      job_put jobId (\<lambda>j. j\<lparr>j_status := Running, j_updatedAt := clock env E_running\<rparr>) w)"
    using mark_running_run [OF assms(2), of w jobId] job by auto
  then show ?thesis using assms job
    by (simp add: executeJob_def bindA_def readA_def open_execution_def throwA_def
        job_store.get_put)
qed

lemma executeJob_execution_failure_witness:
  "\<exists>w'. executeJob (lossy_env E_execution) ''a'' ''v'' (demo_world ''echo'' 0) =
      (Inl (PlainError ''lost''), w') \<and> map_option j_status (job_find w' ''a'') = Some Running \<and>
    job_executions w' = []"
  using executeJob_execution_failure [OF _ _ _ demo_fetch, of "lossy_env E_execution" "PlainError ''lost''" "''v''" "''echo''" 0]
  by (auto simp: lossy_env_def)

section \<open>The life of a job over its attempts\<close>

text \<open>What one run does to the status and the attempt count, as the README describes it.\<close>

fun lifecycle :: "bool \<Rightarrow> int \<Rightarrow> int \<Rightarrow> JobStatus \<times> int" where
  "lifecycle True maxAttempts n = (Completed, n)"
| "lifecycle False maxAttempts n =
     (if n + 1 < maxAttempts then (Queued, n + 1) else (Dead_letter, n + 1))"

definition handler_ok :: "exec_env \<Rightarrow> Job \<Rightarrow> bool" where
  "handler_ok env job \<longleftrightarrow>
     (case snd (run_handler (ex_handlers env) (j_type job) (j_payload job)) of
        Inl _ \<Rightarrow> False | Inr _ \<Rightarrow> True)"

definition commits :: "exec_env \<Rightarrow> bool" where
  "commits env \<longleftrightarrow>
     fails env E_completed = None \<and> fails env E_retry = None \<and> fails env E_dead = None"

text \<open>
  C8. Refinement: with the database answering, the job's status and attempt count after
  \<open>executeJob\<close> are those of the abstract lifecycle, for the policy resolved from the job, its
  queue or the defaults.
\<close>

theorem executeJob_refines_lifecycle:
  assumes "ready env workerId w" and "commits env"
    and "fetch_job jobId w = Some (job, policy)" and "dlq_find w jobId = None"
  shows "map_option progress (job_find (snd (executeJob env jobId workerId w)) jobId) =
    Some (lifecycle (handler_ok env job) (ep_maxAttempts policy) (j_attemptCount job))"
proof -
  obtain logs outcome where
    run: "run_handler (ex_handlers env) (j_type job) (j_payload job) = (logs, outcome)"
    by (cases "run_handler (ex_handlers env) (j_type job) (j_payload job)")
  note cases = executeJob_cases [OF assms(1,3) run] and job = fetch_jobD [OF assms(3)]
  have ok: "fails env E_completed = None" "fails env E_retry = None" "fails env E_dead = None"
    using assms(2) by (simp_all add: commits_def)
  show ?thesis
  proof (cases outcome)
    case (Inl err)
    then show ?thesis using cases(2,3) [of err] ok assms(4) job run
      by (cases "j_attemptCount job + 1 < ep_maxAttempts policy")
        (simp_all add: handler_ok_def after_retry_def after_death_def buried_def Let_def progress_def)
  next
    case (Inr u)
    then show ?thesis using cases(1) ok job run
      by (simp add: handler_ok_def after_success_def Let_def progress_def)
  qed
qed

theorem executeJob_refines_lifecycle_witness:
  "map_option progress (job_find (snd (executeJob (demo_env 7 ''x'') ''a'' ''v''
      (demo_world ''echo'' 1))) ''a'') = Some (Completed, 1)"
proof -
  obtain logs where "run_handler (ex_handlers (demo_env 7 ''x'')) ''echo'' (JObj []) = (logs, Inr ())"
    using demo_run(1) by blast
  then have "handler_ok (demo_env 7 ''x'') (demo_job ''echo'' 1)" by (simp add: handler_ok_def)
  then show ?thesis
    using executeJob_refines_lifecycle [OF demo_ready _ demo_fetch, of "''x''" "''echo''" 1]
    by (simp add: commits_def)
qed

text \<open>
  A job is claimed and executed whenever it is queued (the wait for its run time left out);
  round \<open>i\<close> happens in the environment \<open>envs i\<close>.
\<close>

definition attempt_round :: "exec_env \<Rightarrow> ident \<Rightarrow> ident \<Rightarrow> world \<Rightarrow> world" where
  "attempt_round env jobId workerId w =
     (case job_find w jobId of
        None \<Rightarrow> w
      | Some j \<Rightarrow>
          if j_status j = Queued
          then snd (executeJob env jobId workerId (mark_claimed (clock env E_find) [jobId] w))
          else w)"

fun rounds :: "(nat \<Rightarrow> exec_env) \<Rightarrow> ident \<Rightarrow> ident \<Rightarrow> nat \<Rightarrow> world \<Rightarrow> world" where
  "rounds envs jobId workerId 0 w = w"
| "rounds envs jobId workerId (Suc n) w =
     attempt_round (envs n) jobId workerId (rounds envs jobId workerId n w)"

definition same_job :: "Job \<Rightarrow> Job \<Rightarrow> bool" where
  "same_job a b \<longleftrightarrow> j_type a = j_type b \<and> j_payload a = j_payload b \<and>
     j_queueId a = j_queueId b \<and> j_retryPolicyId a = j_retryPolicyId b"

definition same_config :: "world \<Rightarrow> world \<Rightarrow> bool" where
  "same_config v w \<longleftrightarrow> queue_find v = queue_find w \<and> policy_find v = policy_find w \<and>
     worker_find v = worker_find w"

lemma fetch_job_same:
  assumes "fetch_job i w = Some (job, policy)" and "same_config v w"
    and "job_find v i = Some j" and "same_job j job"
  shows "fetch_job i v = Some (j, policy)"
  using assms by (auto simp: fetch_job_def same_config_def same_job_def split: option.splits)

text \<open>The state in the middle of a series of failures: \<open>n\<close> of \<open>k\<close> attempts are used up.\<close>

definition failing ::
    "world \<Rightarrow> Job \<Rightarrow> ident \<Rightarrow> (nat \<Rightarrow> exec_env) \<Rightarrow> nat \<Rightarrow> nat \<Rightarrow> world \<Rightarrow> bool" where
  "failing w0 job jobId envs k n w \<longleftrightarrow>
     same_config w w0 \<and>
     (\<exists>j. job_find w jobId = Some j \<and> same_job j job \<and>
        j_status j = (if n < k then Queued else Dead_letter) \<and>
        j_attemptCount j = j_attemptCount job + int (min n k)) \<and>
     (n < k \<longrightarrow> dlq_find w jobId = None) \<and>
     (\<forall>m\<ge>n. exec_find w (fresh (envs m) E_execution) = None)"

lemma mark_claimed_finds [simp]:
  "exec_find (mark_claimed now ids w) x = exec_find w x"
  "dlq_find (mark_claimed now ids w) i = dlq_find w i"
  "worker_find (mark_claimed now ids w) v = worker_find w v"
  "queue_find (mark_claimed now ids w) q = queue_find w q"
  "policy_find (mark_claimed now ids w) p = policy_find w p"
  by (simp_all add: mark_claimed_def)

text \<open>What a failed run leaves for the next one.\<close>

lemma failed_run_finds:
  defines "w1 w env job i v \<equiv> opened env job i v w"
  shows "job_find w i = Some job \<Longrightarrow> job_find (after_retry env job policy i logs err (w1 w env job i v)) i =
      Some (job\<lparr>j_status := Queued, j_attemptCount := j_attemptCount job + 1,
        j_runAt := clock env E_requeue + retry_delay_ms env policy job,
        j_updatedAt := clock env E_retry\<rparr>)"
    and "job_find w i = Some job \<Longrightarrow> job_find (after_death env job i logs err (w1 w env job i v)) i =
      Some (job\<lparr>j_status := Dead_letter, j_attemptCount := j_attemptCount job + 1,
        j_updatedAt := clock env E_dead\<rparr>)"
    and "dlq_find (after_retry env job policy i logs err (w1 w env job i v)) k = dlq_find w k"
    and "same_config (after_retry env job policy i logs err (w1 w env job i v)) w"
    and "same_config (after_death env job i logs err (w1 w env job i v)) w"
    and "x \<noteq> fresh env E_execution \<Longrightarrow>
      exec_find (after_retry env job policy i logs err (w1 w env job i v)) x = exec_find w x"
    and "x \<noteq> fresh env E_execution \<Longrightarrow>
      exec_find (after_death env job i logs err (w1 w env job i v)) x = exec_find w x"
  unfolding w1_def
  by (auto simp: after_retry_def after_death_def buried_def Let_def same_config_def
      split: option.split)

definition failing_env :: "Job \<Rightarrow> exec_env \<Rightarrow> bool" where
  "failing_env job env \<longleftrightarrow> fails env E_find = None \<and> fails env E_running = None \<and>
     fails env E_execution = None \<and> commits env \<and> \<not> handler_ok env job"

definition attempts_left :: "EffectivePolicy \<Rightarrow> Job \<Rightarrow> nat" where
  "attempts_left policy job = nat (max 1 (ep_maxAttempts policy - j_attemptCount job))"

lemma failed_run:
  assumes "failing_env job env" and "same_job j job" and "fetch_job i w = Some (j, policy)"
    and "worker_find w v \<noteq> None" and "exec_find w (fresh env E_execution) = None"
    and "dlq_find w i = None"
  shows "\<exists>logs err. executeJob env i v w =
    (Inr (), if j_attemptCount j + 1 < ep_maxAttempts policy
             then after_retry env j policy i logs err (opened env j i v w)
             else after_death env j i logs err (opened env j i v w))"
proof -
  have "handler_ok env j = handler_ok env job"
    using assms(2) unfolding handler_ok_def same_job_def by metis
  then have "\<not> handler_ok env j" using assms(1) by (simp add: failing_env_def)
  then obtain err where "snd (run_handler (ex_handlers env) (j_type j) (j_payload j)) = Inl err"
    by (auto simp: handler_ok_def split: sum.splits)
  then obtain logs where
    run: "run_handler (ex_handlers env) (j_type j) (j_payload j) = (logs, Inl err)"
    by (metis prod.collapse)
  have "ready env v w" using assms(1,4,5) unfolding ready_def failing_env_def by simp
  note cases = executeJob_cases(2,3) [OF this assms(3) run refl]
  have "fails env E_retry = None" "fails env E_dead = None"
    using assms(1) by (simp_all add: failing_env_def commits_def)
  note cases = cases(1) [OF this(1)] cases(2) [OF this(2) _ assms(6)]
  show ?thesis
    by (intro exI [of _ logs] exI [of _ "error_message err"], cases "j_attemptCount j + 1 < ep_maxAttempts policy")
      (simp_all only: cases if_True if_False not_False_eq_True)
qed

lemma failing_step:
  assumes inv: "failing w0 job jobId envs k n w" and "n < k"
    and fetch: "fetch_job jobId w0 = Some (job, policy)" and k: "k = attempts_left policy job"
    and env: "failing_env job (envs n)" and v: "worker_find w0 v \<noteq> None"
    and inj: "inj (\<lambda>m. fresh (envs m) E_execution)"
  shows "failing w0 job jobId envs k (Suc n) (attempt_round (envs n) jobId v w)"
proof -
  let ?e = "envs n" and ?w = "mark_claimed (clock (envs n) E_find) [jobId] w"
  from inv \<open>n < k\<close> obtain j where j: "job_find w jobId = Some j" "same_job j job"
      "j_status j = Queued" "j_attemptCount j = j_attemptCount job + int n"
    and cfg: "same_config w w0" and dlq: "dlq_find w jobId = None"
    and fresh: "\<And>m. n \<le> m \<Longrightarrow> exec_find w (fresh (envs m) E_execution) = None"
    by (auto simp: failing_def)
  define c where "c = j\<lparr>j_status := Claimed, j_updatedAt := clock ?e E_find\<rparr>"
  have c: "job_find ?w jobId = Some c" "same_job c job" "j_attemptCount c = j_attemptCount job + int n"
    using j by (simp_all add: job_find_mark_claimed c_def same_job_def)
  have cfg': "same_config ?w w0" using cfg by (simp add: same_config_def fun_eq_iff)
  note fetch' = fetch_job_same [OF fetch cfg' c(1,2)]
  have "worker_find ?w v \<noteq> None" using cfg v by (simp add: same_config_def)
  moreover have "exec_find ?w (fresh ?e E_execution) = None" using fresh by simp
  moreover have "dlq_find ?w jobId = None" using dlq by simp
  ultimately obtain logs err where run: "executeJob ?e jobId v ?w =
    (Inr (), if j_attemptCount c + 1 < ep_maxAttempts policy
             then after_retry ?e c policy jobId logs err (opened ?e c jobId v ?w)
             else after_death ?e c jobId logs err (opened ?e c jobId v ?w))"
    using failed_run [OF env c(2) fetch', of v] by blast
  have last: "j_attemptCount c + 1 < ep_maxAttempts policy \<longleftrightarrow> Suc n < k"
    using \<open>n < k\<close> c(3) unfolding k attempts_left_def by linarith
  have other: "fresh (envs m) E_execution \<noteq> fresh ?e E_execution" if "Suc n \<le> m" for m
    using inj that by (auto dest: injD)
  have round: "attempt_round ?e jobId v w = snd (executeJob ?e jobId v ?w)"
    using j by (simp add: attempt_round_def)
  show ?thesis
    unfolding failing_def round run last
    using c cfg' dlq fresh other \<open>n < k\<close> failed_run_finds [where w = ?w and i = jobId and job = c and env = ?e]
    by (auto simp: same_config_def same_job_def fun_eq_iff)
qed

lemma failing_rounds:
  assumes fetch: "fetch_job jobId w0 = Some (job, policy)" and k: "k = attempts_left policy job"
    and env: "\<And>m. failing_env job (envs m)" and v: "worker_find w0 v \<noteq> None"
    and inj: "inj (\<lambda>m. fresh (envs m) E_execution)"
    and start: "failing w0 job jobId envs k 0 w0"
  shows "failing w0 job jobId envs k n (rounds envs jobId v n w0)"
proof (induction n)
  case (Suc n)
  show ?case
  proof (cases "n < k")
    case True
    from failing_step [OF Suc this fetch k env v inj] show ?thesis by simp
  next
    case False
    with Suc have "rounds envs jobId v (Suc n) w0 = rounds envs jobId v n w0"
      by (auto simp: failing_def attempt_round_def split: option.split)
    with Suc False show ?thesis by (auto simp: failing_def min_def)
  qed
qed (use start in simp)

text \<open>
  C7. A job whose handler always fails: it is back in \<open>queued\<close> after each of its attempts but the
  last, the attempt counter counts every failed run, and after exactly
  \<open>max 1 (maxAttempts - attemptCount)\<close> runs (a policy with \<open>maxAttempts\<close> 0 still runs it once) it
  is in \<open>dead_letter\<close>, where it stays.
\<close>

theorem failing_job_dead_letters:
  assumes "fetch_job jobId w = Some (job, policy)" and "j_status job = Queued"
    and "dlq_find w jobId = None" and "worker_find w v \<noteq> None"
    and "\<And>m. failing_env job (envs m)" and "inj (\<lambda>m. fresh (envs m) E_execution)"
    and "\<And>m. exec_find w (fresh (envs m) E_execution) = None"
  shows "map_option progress (job_find (rounds envs jobId v n w) jobId) =
    Some (if n < attempts_left policy job then Queued else Dead_letter,
      j_attemptCount job + int (min n (attempts_left policy job)))"
proof -
  have "0 < attempts_left policy job" by (simp add: attempts_left_def)
  then have "failing w job jobId envs (attempts_left policy job) 0 w"
    using assms(2,3,7) fetch_jobD [OF assms(1)] by (simp add: failing_def same_config_def same_job_def)
  from failing_rounds [OF assms(1) refl assms(5,4,6) this, of n] show ?thesis
    by (auto simp: failing_def progress_def)
qed

text \<open>Three runs of a job of an unknown type under the default policy.\<close>

definition demo_rounds :: "nat \<Rightarrow> world" where
  "demo_rounds n = rounds (\<lambda>m. demo_env 7 (show_nat m)) ''a'' ''v'' n
     ((demo_world ''nope'' 0)\<lparr>jobs := [(demo_job ''nope'' 0)\<lparr>j_status := Queued\<rparr>]\<rparr>)"

lemma demo_failing: "failing_env (demo_job ''nope'' 0\<lparr>j_status := Queued\<rparr>) (demo_env 7 x)"
proof -
  obtain m where "run_handler (ex_handlers (demo_env 7 x)) ''nope'' (JObj []) = ([], Inl (PlainError m))"
    using demo_run(2) by blast
  then show ?thesis by (simp add: failing_env_def commits_def handler_ok_def)
qed

theorem failing_job_dead_letters_witness:
  "map_option progress (job_find (demo_rounds 2) ''a'') = Some (Queued, 2) \<and>
   map_option progress (job_find (demo_rounds 3) ''a'') = Some (Dead_letter, 3)"
proof -
  let ?j = "demo_job ''nope'' 0\<lparr>j_status := Queued\<rparr>"
  let ?w = "(demo_world ''nope'' 0)\<lparr>jobs := [?j]\<rparr>"
  have fetch: "fetch_job ''a'' ?w = Some (?j, DEFAULT_RETRY)"
    by (simp add: fetch_job_def resolve_policy_def demo_defs)
  have "inj (\<lambda>m. fresh (demo_env 7 (show_nat m)) E_execution)"
    by (auto intro!: injI)
  then have "map_option progress (job_find (demo_rounds n) ''a'') =
      Some (if n < attempts_left DEFAULT_RETRY ?j then Queued else Dead_letter,
        j_attemptCount ?j + int (min n (attempts_left DEFAULT_RETRY ?j)))" for n
    unfolding demo_rounds_def
    by (intro failing_job_dead_letters [OF fetch] demo_failing) (simp_all add: demo_defs)
  from this [of 2] this [of 3] show ?thesis by (simp add: attempts_left_def)
qed

end
