(* ===== verification/Heartbeat.thy ===== *)
theory Heartbeat
  imports Samples Invariants
begin

text \<open>
  \<open>worker/src/heartbeat.ts\<close>: the counter of running jobs, the heartbeat writer with its pruning,
  and the reaper that recovers the jobs of dead workers. Each call of \<open>write\<close> and \<open>reap\<close>
  is an action; the timers that make the calls are in \<open>Timers\<close>. \<open>HEARTBEAT_TTL_SECONDS\<close>, which comes
  from the environment, is the argument \<open>ttl\<close>.
\<close>

section \<open>The counter\<close>

definition incrementActiveJobs :: "int \<Rightarrow> int" where
  "incrementActiveJobs n = n + 1"

definition decrementActiveJobs :: "int \<Rightarrow> int" where
  "decrementActiveJobs n = max 0 (n - 1)"

section \<open>The writer\<close>

datatype beat_point = H_worker | H_insert | H_prune | H_publish

definition heartbeat_create :: "WorkerHeartbeat \<Rightarrow> unit action" where
  "heartbeat_create h w =
     (if hb_id h \<in> hb_id ` set (worker_heartbeats w) then (Inl uniqueViolation, w)
      else if worker_find w (hb_workerId h) = None then (Inl foreignKeyViolation, w)
      else (Inr (), w\<lparr>worker_heartbeats := worker_heartbeats w @ [h]\<rparr>))"

definition newest_heartbeats :: "nat \<Rightarrow> ident \<Rightarrow> WorkerHeartbeat list \<Rightarrow> WorkerHeartbeat list" where
  "newest_heartbeats n workerId hs =
     take n (sort_key (\<lambda>h. - hb_timestamp h) (filter (\<lambda>h. hb_workerId h = workerId) hs))"

definition prune_heartbeats :: "ident \<Rightarrow> WorkerHeartbeat list \<Rightarrow> WorkerHeartbeat list" where
  "prune_heartbeats workerId hs =
     filter (\<lambda>h. \<not> (hb_workerId h = workerId \<and>
        hb_id h \<notin> hb_id ` set (newest_heartbeats 100 workerId hs))) hs"

definition write_heartbeat :: "beat_point env \<Rightarrow> ident \<Rightarrow> int \<Rightarrow> rat \<Rightarrow> unit action" where
  "write_heartbeat env workerId activeJobCount cpuLoad =
     catchA
       (bindA (callA env H_worker
          (worker_update workerId (\<lambda>v. v\<lparr>wk_lastHeartbeatAt := clock env H_worker\<rparr>))) (\<lambda>_.
        bindA (callA env H_insert
          (heartbeat_create \<lparr>hb_id = fresh env H_insert, hb_workerId = workerId,
             hb_timestamp = clock env H_insert, hb_activeJobCount = activeJobCount,
             hb_cpuLoad = cpuLoad\<rparr>)) (\<lambda>_.
        bindA (callA env H_prune (modifyA (\<lambda>w. w\<lparr>worker_heartbeats :=
             prune_heartbeats workerId (worker_heartbeats w)\<rparr>))) (\<lambda>_.
        callA env H_publish (publish ''worker:heartbeat''
          [(''workerId'', JStr workerId), (''activeJobCount'', jint activeJobCount),
           (''cpuLoad'', JNum cpuLoad), (''timestamp'', JDate (clock env H_publish))])))))
       (\<lambda>err. retA ())"

section \<open>The reaper\<close>

datatype reap_point =
    R_find
  | R_dead ident
  | R_executions ident
  | R_claimed ident
  | R_requeue ident ident  \<comment> \<open>worker, job\<close>
  | R_fail ident ident
  | R_publish ident ident

definition stale_worker :: "int \<Rightarrow> timestamp \<Rightarrow> Worker \<Rightarrow> bool" where
  "stale_worker ttl now v \<longleftrightarrow> wk_status v = Active \<and> wk_lastHeartbeatAt v < now - ttl * 1000"

definition stale_workers :: "int \<Rightarrow> timestamp \<Rightarrow> world \<Rightarrow> ident list" where
  "stale_workers ttl now w = map wk_id (filter (stale_worker ttl now) (workers w))"

definition js_set :: "'x list \<Rightarrow> 'x list" where
  \<comment> \<open>\<open>[...new Set(xs)]\<close>: the first occurrences, in order\<close>
  "js_set xs = rev (remdups (rev xs))"

definition running_of :: "ident \<Rightarrow> JobExecution \<Rightarrow> bool" where
  "running_of workerId x \<longleftrightarrow> x_workerId x = workerId \<and> x_status x = ''running''"

definition orphaned_executions :: "ident \<Rightarrow> world \<Rightarrow> ident list" where
  "orphaned_executions workerId w = map x_jobId (filter (running_of workerId) (job_executions w))"

definition claimed_jobs :: "ident \<Rightarrow> world \<Rightarrow> ident list" where
  "claimed_jobs workerId w =
     map j_id (filter (\<lambda>j. (j_status j = Claimed \<or> j_status j = Running) \<and>
        list_ex (\<lambda>x. x_jobId x = j_id j \<and> running_of workerId x) (job_executions w)) (jobs w))"

definition fail_open_executions :: "ident \<Rightarrow> ident \<Rightarrow> timestamp \<Rightarrow> world \<Rightarrow> world" where
  "fail_open_executions workerId jobId now w =
     w\<lparr>job_executions := update_where (\<lambda>x. x_jobId x = jobId \<and> x_status x = ''running'')
        (\<lambda>x. x\<lparr>x_status := ''failed'', x_finishedAt := Some now,
           x_errorMessage := Some (''Worker '' @ workerId @ '' died (stale heartbeat)'')\<rparr>)
        (job_executions w)\<rparr>"

definition requeue_orphan :: "reap_point env \<Rightarrow> ident \<Rightarrow> ident \<Rightarrow> unit action" where
  "requeue_orphan env workerId jid =
     catchA
       (bindA (callA env (R_requeue workerId jid)
          (job_update jid (\<lambda>j. j\<lparr>j_status := Queued, j_attemptCount := j_attemptCount j + 1,
             j_updatedAt := clock env (R_requeue workerId jid)\<rparr>))) (\<lambda>updatedJob.
        bindA (callA env (R_fail workerId jid)
          (modifyA (fail_open_executions workerId jid (clock env (R_fail workerId jid))))) (\<lambda>_.
        callA env (R_publish workerId jid) (publish ''job:transitions''
          [(''event'', JStr ''job:transition''), (''jobId'', JStr jid), (''status'', JStr ''queued''),
           (''queueId'', JStr (j_queueId updatedJob)), (''reason'', JStr ''worker_dead''),
           (''timestamp'', JDate (clock env (R_publish workerId jid)))]))))
       (\<lambda>err. retA ())"

definition reap_worker :: "reap_point env \<Rightarrow> ident \<Rightarrow> unit action" where
  "reap_worker env workerId =
     bindA (callA env (R_dead workerId) (worker_update workerId (\<lambda>v. v\<lparr>wk_status := Dead\<rparr>))) (\<lambda>_.
     bindA (callA env (R_executions workerId) (readA (orphaned_executions workerId))) (\<lambda>execs.
     let orphanedJobIds = js_set execs in
     if orphanedJobIds = [] then retA ()
     else bindA (callA env (R_claimed workerId) (readA (claimed_jobs workerId))) (\<lambda>claimed.
          forA (requeue_orphan env workerId) (js_set (orphanedJobIds @ claimed)))))"

definition reap :: "reap_point env \<Rightarrow> int \<Rightarrow> unit action" where
  "reap env ttl =
     catchA
       (bindA (callA env R_find (readA (stale_workers ttl (clock env R_find)))) (\<lambda>staleWorkers.
        if staleWorkers = [] then retA () else forA (reap_worker env) staleWorkers))
       (\<lambda>err. retA ())"

section \<open>The heartbeat table stays bounded\<close>

lemma length_newest: "length (newest_heartbeats n workerId hs) \<le> n"
  by (simp add: newest_heartbeats_def)

lemma newest_subset: "set (newest_heartbeats n workerId hs) \<subseteq> {h \<in> set hs. hb_workerId h = workerId}"
  using set_take_subset by (fastforce simp: newest_heartbeats_def)

lemma prune_other: "workerId \<noteq> v \<Longrightarrow>
    filter (\<lambda>h. hb_workerId h = v) (prune_heartbeats workerId hs) = filter (\<lambda>h. hb_workerId h = v) hs"
  by (auto simp: prune_heartbeats_def intro: filter_cong)

lemma prune_own:
  assumes "distinct (map hb_id hs)"
  shows "set (filter (\<lambda>h. hb_workerId h = v) (prune_heartbeats v hs)) = set (newest_heartbeats 100 v hs)"
proof -
  have inj: "inj_on hb_id (set hs)" using assms by (simp add: distinct_map)
  have sub: "set (newest_heartbeats 100 v hs) \<subseteq> set hs" "\<forall>h\<in>set (newest_heartbeats 100 v hs). hb_workerId h = v"
    using newest_subset [of 100 v hs] by auto
  have "h \<in> set (newest_heartbeats 100 v hs)"
    if "h \<in> set hs" "hb_id h \<in> hb_id ` set (newest_heartbeats 100 v hs)" for h
    using that sub(1) inj by (auto simp: inj_on_def)
  then show ?thesis using sub by (auto simp: prune_heartbeats_def)
qed

lemma prune_length:
  assumes "distinct (map hb_id hs)"
  shows "length (filter (\<lambda>h. hb_workerId h = v) (prune_heartbeats v hs)) \<le> 100"
proof -
  let ?own = "filter (\<lambda>h. hb_workerId h = v) (prune_heartbeats v hs)"
  have "distinct ?own"
    using assms by (simp add: prune_heartbeats_def distinct_map)
  then have "length ?own = card (set ?own)" by (metis distinct_card)
  also have "\<dots> = card (set (newest_heartbeats 100 v hs))" by (simp only: prune_own [OF assms])
  also have "\<dots> \<le> 100" using card_length length_newest le_trans by blast
  finally show ?thesis .
qed

lemma take_sorted_le:
  assumes "sorted (map f xs)" "x \<in> set (take n xs)" "y \<in> set (drop n xs)"
  shows "f x \<le> f y"
proof -
  have "sorted (map f (take n xs) @ map f (drop n xs))"
    using assms(1) by (simp flip: map_append)
  with assms(2,3) show ?thesis by (auto simp: sorted_append)
qed

lemma newest_are_newest:
  assumes "k \<in> set (newest_heartbeats n v hs)" and "d \<in> set hs" and "hb_workerId d = v"
    and "d \<notin> set (newest_heartbeats n v hs)"
  shows "hb_timestamp d \<le> hb_timestamp k"
proof -
  let ?s = "sort_key (\<lambda>h. - hb_timestamp h) (filter (\<lambda>h. hb_workerId h = v) hs)"
  have "d \<in> set ?s" using assms(2,3) by simp
  then have "d \<in> set (take n ?s) \<or> d \<in> set (drop n ?s)"
    by (metis Un_iff append_take_drop_id set_append)
  then have "d \<in> set (drop n ?s)" using assms(4) by (simp add: newest_heartbeats_def)
  then show ?thesis
    using take_sorted_le [OF sorted_sort_key, of k n _ _ d] assms(1)
    by (fastforce simp: newest_heartbeats_def)
qed

definition beats_of :: "ident \<Rightarrow> world \<Rightarrow> WorkerHeartbeat list" where
  "beats_of v w = filter (\<lambda>h. hb_workerId h = v) (worker_heartbeats w)"

text \<open>
  A heartbeat that is written leaves at most 100 samples of the worker, the newest ones: no
  sample kept is older than one deleted. The samples of other workers and the jobs are as before,
  and the worker's row carries the time of the beat.
\<close>

lemma heartbeat_table_bounded:
  assumes "distinct (map hb_id (worker_heartbeats w))" and "\<And>p. fails env p = None"
    and "worker_find w v = Some r" and "fresh env H_insert \<notin> hb_id ` set (worker_heartbeats w)"
  shows "\<exists>w'. write_heartbeat env v n cpu w = (Inr (), w') \<and> length (beats_of v w') \<le> 100 \<and>
    (\<forall>k\<in>set (beats_of v w'). \<forall>d\<in>set (beats_of v w) - set (beats_of v w').
       hb_timestamp d \<le> hb_timestamp k) \<and>
    (\<forall>u. u \<noteq> v \<longrightarrow> beats_of u w' = beats_of u w) \<and> jobs w' = jobs w \<and>
    worker_find w' v = Some (r\<lparr>wk_lastHeartbeatAt := clock env H_worker\<rparr>)"
proof -
  define h where "h = \<lparr>hb_id = fresh env H_insert, hb_workerId = v, hb_timestamp = clock env H_insert,
     hb_activeJobCount = n, hb_cpuLoad = cpu\<rparr>"
  define hs where "hs = worker_heartbeats w @ [h]"
  let ?u = "worker_put v (\<lambda>v. v\<lparr>wk_lastHeartbeatAt := clock env H_worker\<rparr>) w"
  have ins: "heartbeat_create h ?u = (Inr (), ?u\<lparr>worker_heartbeats := hs\<rparr>)"
    using assms(3,4) by (simp add: heartbeat_create_def h_def hs_def worker_store.get_put)
      (simp add: worker_put_def)
  define w' where "w' = ?u\<lparr>worker_heartbeats := prune_heartbeats v hs,
    published := published w @ [(''worker:heartbeat'', JObj
          [(''workerId'', JStr v), (''activeJobCount'', jint n),
           (''cpuLoad'', JNum cpu), (''timestamp'', JDate (clock env H_publish))])]\<rparr>"
  have run: "write_heartbeat env v n cpu w = (Inr (), w')"
    using assms(2,3) ins
    by (simp add: write_heartbeat_def catchA_def bindA_def worker_update_def modifyA_def
        publish_def h_def [symmetric] w'_def) (simp add: worker_put_def)
  have dist: "distinct (map hb_id hs)" using assms(1,4) by (simp add: hs_def h_def)
  have own: "beats_of v w' = filter (\<lambda>h. hb_workerId h = v) (prune_heartbeats v hs)"
    by (simp add: beats_of_def w'_def)
  have "hb_timestamp d \<le> hb_timestamp k"
    if "k \<in> set (beats_of v w')" "d \<in> set (beats_of v w) - set (beats_of v w')" for k d
  proof (rule newest_are_newest)
    show "k \<in> set (newest_heartbeats 100 v hs)" "d \<notin> set (newest_heartbeats 100 v hs)"
      using that prune_own [OF dist, of v] unfolding own by blast+
    show "d \<in> set hs" "hb_workerId d = v" using that(2) by (auto simp: beats_of_def hs_def)
  qed
  moreover have "beats_of u w' = beats_of u w" if "u \<noteq> v" for u
    using that prune_other [of v u hs] by (simp add: beats_of_def w'_def hs_def h_def)
  moreover have "length (beats_of v w') \<le> 100"
    unfolding own by (rule prune_length [OF dist])
  moreover have "worker_find w' v = Some (r\<lparr>wk_lastHeartbeatAt := clock env H_worker\<rparr>)"
    using assms(3) by (simp add: w'_def worker_store.get_put)
  moreover have "jobs w' = jobs w" by (simp add: w'_def worker_put_def)
  ultimately show ?thesis using run by blast
qed

lemma heartbeat_table_bounded_witness:
  "\<exists>w'. write_heartbeat (calm_env 9) ''v'' 0 0 (empty_world\<lparr>workers := [sample_worker ''v'' 0]\<rparr>) =
      (Inr (), w') \<and> length (beats_of ''v'' w') \<le> 100 \<and>
    worker_find w' ''v'' = Some (sample_worker ''v'' 9)"
  using heartbeat_table_bounded [of "empty_world\<lparr>workers := [sample_worker ''v'' 0]\<rparr>" "calm_env 9"
      "''v''" "sample_worker ''v'' 0" 0 0]
  by (auto simp: sample_defs worker_find_def)

section \<open>The reaper recovers the jobs of stale workers\<close>

lemma js_set_simps [simp]: "set (js_set xs) = set xs" "distinct (js_set xs)"
  "js_set xs = [] \<longleftrightarrow> xs = []"
  by (simp_all add: js_set_def)

text \<open>What the reaper decides over: progress of a job, open executions, worker statuses.\<close>

definition job_progress :: "world \<Rightarrow> ident \<Rightarrow> (JobStatus \<times> int) option" where
  "job_progress w i = map_option progress (job_find w i)"

definition exec_states :: "world \<Rightarrow> (ident \<times> ident \<times> ident \<times> string) list" where
  "exec_states w = map (\<lambda>x. (x_id x, x_jobId x, x_workerId x, x_status x)) (job_executions w)"

definition worker_states :: "world \<Rightarrow> (ident \<times> WorkerStatus) list" where
  "worker_states w = map (\<lambda>v. (wk_id v, wk_status v)) (workers w)"

text \<open>The jobs \<open>S\<close> have been requeued and the workers \<open>D\<close> declared dead, nothing else.\<close>

definition reaped :: "ident set \<Rightarrow> ident set \<Rightarrow> world \<Rightarrow> world \<Rightarrow> bool" where
  "reaped S D w0 w \<longleftrightarrow>
     (\<forall>i. job_progress w i =
        map_option (\<lambda>(st, n). if i \<in> S then (Queued, n + 1) else (st, n)) (job_progress w0 i)) \<and>
     exec_states w = map (\<lambda>(x, j, v, st).
        (x, j, v, if st = ''running'' \<and> j \<in> S then ''failed'' else st)) (exec_states w0) \<and>
     worker_states w = map (\<lambda>(v, st). (v, if v \<in> D then Dead else st)) (worker_states w0)"

definition open_jobs :: "ident \<Rightarrow> world \<Rightarrow> ident set" where
  "open_jobs v w = {j. \<exists>x. (x, j, v, ''running'') \<in> set (exec_states w)}"

lemma reaped_refl: "reaped {} {} w w"
  by (simp add: reaped_def option.map_id0 id_def [symmetric] case_prod_eta)

lemma reaped_run_requeue:
  assumes "\<And>p. fails env p = None" and "job_find w jid = Some j"
  shows "\<exists>w'. requeue_orphan env v jid w = (Inr (), w') \<and>
    job_progress w' = (job_progress w)(jid := Some (Queued, j_attemptCount j + 1)) \<and>
    exec_states w' = map (\<lambda>(x, j, v, st).
        (x, j, v, if st = ''running'' \<and> j = jid then ''failed'' else st)) (exec_states w) \<and>
    worker_states w' = worker_states w"
proof -
  let ?f = "\<lambda>j. j\<lparr>j_status := Queued, j_attemptCount := j_attemptCount j + 1,
     j_updatedAt := clock env (R_requeue v jid)\<rparr>"
  let ?w1 = "job_put jid ?f w"
  let ?w2 = "fail_open_executions v jid (clock env (R_fail v jid)) ?w1"
  obtain m where "requeue_orphan env v jid w = (Inr (), ?w2\<lparr>published := m\<rparr>)"
    using assms by (simp add: requeue_orphan_def catchA_def bindA_def job_update_def modifyA_def
        publish_def)
  moreover have "job_progress (?w2\<lparr>published := m\<rparr>) =
      (job_progress w)(jid := Some (Queued, j_attemptCount j + 1))"
    using assms(2)
    by (auto simp: job_progress_def fail_open_executions_def job_store.get_put progress_def)
  moreover have "exec_states (?w2\<lparr>published := m\<rparr>) = map (\<lambda>(x, j, v, st).
        (x, j, v, if st = ''running'' \<and> j = jid then ''failed'' else st)) (exec_states w)"
    by (simp add: exec_states_def fail_open_executions_def update_where_def job_put_def)
  moreover have "worker_states (?w2\<lparr>published := m\<rparr>) = worker_states w"
    by (simp add: worker_states_def fail_open_executions_def job_put_def)
  ultimately show ?thesis by blast
qed

lemma reaped_requeue:
  assumes "\<And>p. fails env p = None" and "reaped S D w0 w" and "jid \<notin> S"
    and "job_progress w0 jid \<noteq> None"
  shows "\<exists>w'. requeue_orphan env v jid w = (Inr (), w') \<and> reaped (insert jid S) D w0 w'"
proof -
  have same: "job_progress w jid = job_progress w0 jid"
    using assms(2,3) by (simp add: reaped_def option.map_id0 id_def [symmetric] case_prod_eta)
  with assms(4) obtain j where j: "job_find w jid = Some j"
    by (auto simp: job_progress_def)
  from reaped_run_requeue [OF assms(1) j] obtain w' where
    run: "requeue_orphan env v jid w = (Inr (), w')" and
    jobs: "job_progress w' = (job_progress w)(jid := Some (Queued, j_attemptCount j + 1))" and
    execs: "exec_states w' = map (\<lambda>(x, j, v, st).
        (x, j, v, if st = ''running'' \<and> j = jid then ''failed'' else st)) (exec_states w)" and
    ws: "worker_states w' = worker_states w" by blast
  have "job_progress w0 jid = Some (progress j)"
    using j same by (simp add: job_progress_def)
  then have "job_progress w' i = map_option (\<lambda>(st, n). if i \<in> insert jid S then (Queued, n + 1) else (st, n))
      (job_progress w0 i)" for i
    using assms(2,3) unfolding jobs by (auto simp: reaped_def progress_def)
  moreover have "exec_states w' = map (\<lambda>(x, j, v, st).
      (x, j, v, if st = ''running'' \<and> j \<in> insert jid S then ''failed'' else st)) (exec_states w0)"
    using assms(2) unfolding execs by (auto simp: reaped_def)
  ultimately have "reaped (insert jid S) D w0 w'"
    using assms(2) ws by (simp add: reaped_def)
  with run show ?thesis by blast
qed

lemma reaped_requeue_all:
  assumes "\<And>p. fails env p = None"
  shows "reaped S D w0 w \<Longrightarrow> distinct ids \<Longrightarrow> set ids \<inter> S = {} \<Longrightarrow>
    \<forall>i\<in>set ids. job_progress w0 i \<noteq> None \<Longrightarrow>
    \<exists>w'. forA (requeue_orphan env v) ids w = (Inr (), w') \<and> reaped (S \<union> set ids) D w0 w'"
proof (induction ids arbitrary: S w)
  case (Cons i ids)
  then obtain w1 where w1: "requeue_orphan env v i w = (Inr (), w1)" "reaped (insert i S) D w0 w1"
    using reaped_requeue [OF assms, of S D w0 w i v] by auto
  have "\<exists>w'. forA (requeue_orphan env v) ids w1 = (Inr (), w') \<and> reaped (insert i S \<union> set ids) D w0 w'"
    using Cons.IH [OF w1(2)] Cons.prems(2-4) by auto
  then show ?case using w1(1) by (simp add: bindA_def)
qed (simp add: retA_def)

lemma open_jobs_exec: "open_jobs v w =
    {x_jobId x | x. x \<in> set (job_executions w) \<and> x_workerId x = v \<and> x_status x = ''running''}"
  by (auto simp: open_jobs_def exec_states_def image_iff) metis

lemma orphaned_executions_open: "set (orphaned_executions v w) = open_jobs v w"
  unfolding open_jobs_exec by (auto simp: orphaned_executions_def running_of_def)

lemma claimed_jobs_open: "set (claimed_jobs v w) \<subseteq> open_jobs v w"
  unfolding open_jobs_exec by (auto simp: claimed_jobs_def running_of_def list_ex_iff) metis+

lemma open_jobs_reaped: "reaped S D w0 w \<Longrightarrow> open_jobs v w = open_jobs v w0 - S"
proof -
  assume "reaped S D w0 w"
  then have "exec_states w = map (\<lambda>(x, j, v, st).
      (x, j, v, if st = ''running'' \<and> j \<in> S then ''failed'' else st)) (exec_states w0)"
    by (simp add: reaped_def)
  then have "(x, j, v, ''running'') \<in> set (exec_states w) \<longleftrightarrow>
      (x, j, v, ''running'') \<in> set (exec_states w0) \<and> j \<notin> S" for x j
    by (auto simp: image_iff split: if_splits intro: bexI [of _ "(x, j, v, ''running'')"])
  then show ?thesis by (auto simp: open_jobs_def)
qed

lemma reaped_worker:
  assumes "\<And>p. fails env p = None" and "reaped S D w0 w" and "v \<in> wk_id ` set (workers w0)"
    and "\<forall>i\<in>open_jobs v w0. job_progress w0 i \<noteq> None"
  shows "\<exists>w'. reap_worker env v w = (Inr (), w') \<and> reaped (S \<union> open_jobs v w0) (insert v D) w0 w'"
proof -
  let ?w1 = "worker_put v (\<lambda>v. v\<lparr>wk_status := Dead\<rparr>) w"
  have "wk_id ` set (workers w) = wk_id ` set (workers w0)"
  proof -
    have "map fst (worker_states w) = map fst (worker_states w0)"
      using assms(2) by (simp add: reaped_def comp_def case_prod_beta)
    then have "map wk_id (workers w) = map wk_id (workers w0)"
      by (simp add: worker_states_def comp_def)
    then show ?thesis by (metis set_map)
  qed
  then have found: "worker_find w v \<noteq> None"
    using assms(3) by (simp add: worker_find_def find_by_None_iff)
  have reaped1: "reaped S (insert v D) w0 ?w1"
  proof -
    have "worker_states ?w1 = map (\<lambda>(u, st). (u, if u = v then Dead else st)) (worker_states w)"
      by (simp add: worker_states_def worker_put_def update_by_def)
    then show ?thesis
      using assms(2) by (auto simp: reaped_def job_progress_def exec_states_def worker_put_def)
  qed
  let ?ids = "js_set (orphaned_executions v ?w1)"
  let ?all = "js_set (?ids @ claimed_jobs v ?w1)"
  have ids: "set ?ids = open_jobs v w0 - S"
    by (simp add: orphaned_executions_open open_jobs_reaped [OF reaped1])
  then have all: "set ?all = open_jobs v w0 - S"
    using claimed_jobs_open [of v ?w1] by (auto simp: open_jobs_reaped [OF reaped1])
  have step: "reap_worker env v w = (if ?ids = [] then retA () else forA (requeue_orphan env v) ?all) ?w1"
    using assms(1) found by (auto simp: reap_worker_def bindA_def worker_update_def readA_def Let_def)
  show ?thesis
  proof (cases "?ids = []")
    case True
    with ids have "S \<union> open_jobs v w0 = S" by auto
    with True show ?thesis using reaped1 step by (simp add: retA_def)
  next
    case False
    have "\<exists>w'. forA (requeue_orphan env v) ?all ?w1 = (Inr (), w') \<and>
        reaped (S \<union> set ?all) (insert v D) w0 w'"
      by (rule reaped_requeue_all [OF assms(1) reaped1]) (use all assms(4) in auto)
    with False show ?thesis using step all by (simp add: Un_Diff_cancel)
  qed
qed

lemma reaped_workers:
  assumes "\<And>p. fails env p = None"
    and "\<And>v. \<forall>i\<in>open_jobs v w0. job_progress w0 i \<noteq> None"
  shows "reaped S D w0 w \<Longrightarrow> set vs \<subseteq> wk_id ` set (workers w0) \<Longrightarrow>
    \<exists>w'. forA (reap_worker env) vs w = (Inr (), w') \<and>
      reaped (S \<union> (\<Union>v\<in>set vs. open_jobs v w0)) (D \<union> set vs) w0 w'"
proof (induction vs arbitrary: S D w)
  case (Cons v vs)
  then obtain w1 where w1: "reap_worker env v w = (Inr (), w1)"
      "reaped (S \<union> open_jobs v w0) (insert v D) w0 w1"
    using reaped_worker [OF assms(1) Cons.prems(1), of v] assms(2) by auto
  have "\<exists>w'. forA (reap_worker env) vs w1 = (Inr (), w') \<and>
      reaped (S \<union> open_jobs v w0 \<union> (\<Union>v\<in>set vs. open_jobs v w0)) (insert v D \<union> set vs) w0 w'"
    using Cons.IH [OF w1(2)] Cons.prems(2) by simp
  then show ?case using w1(1) by (simp add: bindA_def Un_assoc)
qed (simp add: retA_def)

definition stale_jobs :: "int \<Rightarrow> timestamp \<Rightarrow> world \<Rightarrow> ident set" where
  "stale_jobs ttl now w = (\<Union>v\<in>set (stale_workers ttl now w). open_jobs v w)"

lemma reap_run:
  assumes "\<And>p. fails env p = None"
    and "\<forall>x\<in>set (job_executions w). job_find w (x_jobId x) \<noteq> None"
  shows "\<exists>w'. reap env ttl w = (Inr (), w') \<and>
    reaped (stale_jobs ttl (clock env R_find) w) (set (stale_workers ttl (clock env R_find) w)) w w'"
proof -
  have jobs: "\<forall>i\<in>open_jobs v w. job_progress w i \<noteq> None" for v
    using assms(2) by (auto simp: open_jobs_exec job_progress_def)
  have "\<exists>w'. forA (reap_worker env) (stale_workers ttl (clock env R_find) w) w = (Inr (), w') \<and>
      reaped ({} \<union> stale_jobs ttl (clock env R_find) w)
        ({} \<union> set (stale_workers ttl (clock env R_find) w)) w w'"
    unfolding stale_jobs_def
    by (rule reaped_workers [OF assms(1) jobs reaped_refl]) (auto simp: stale_workers_def)
  moreover have "reap env ttl w =
      catchA (forA (reap_worker env) (stale_workers ttl (clock env R_find) w)) (\<lambda>e. retA ()) w"
    using assms(1) by (simp add: reap_def catchA_def bindA_def readA_def)
  ultimately show ?thesis by (auto simp: catchA_def)
qed

text \<open>
  C9. Crash recovery. A reap cycle declares dead exactly the active workers whose last heartbeat is
  older than the limit; every job with an open execution on one of them is back in \<open>queued\<close> with
  its attempt counted once (also when several dead workers have executions of it), those open
  executions are failed, and no other job, execution or worker changes its state.
\<close>

theorem reap_recovers:
  assumes "\<And>p. fails env p = None"
    and "\<forall>x\<in>set (job_executions w). job_find w (x_jobId x) \<noteq> None"
  shows "\<exists>w'. reap env ttl w = (Inr (), w') \<and>
    reaped (stale_jobs ttl (clock env R_find) w) (set (stale_workers ttl (clock env R_find) w)) w w'"
  using assms by (rule reap_run)

definition crashed :: world where
  "crashed = empty_world\<lparr>
     jobs := [(sample_job ''a'' 0)\<lparr>j_status := Running\<rparr>, (sample_job ''b'' 0)\<lparr>j_status := Claimed\<rparr>],
     job_executions := [sample_execution ''x'' ''a'' ''v''],
     workers := [sample_worker ''v'' 0, sample_worker ''u'' 50000]\<rparr>"

lemmas crashed_defs = crashed_def sample_defs

theorem reap_recovers_witness:
  "\<exists>w'. reap (calm_env 60000) 30 crashed = (Inr (), w') \<and>
    job_progress w' ''a'' = Some (Queued, 1) \<and> job_progress w' ''b'' = Some (Claimed, 0) \<and>
    worker_states w' = [(''v'', Dead), (''u'', Active)]"
proof -
  have stale: "stale_workers 30 60000 crashed = [''v'']"
    by (simp add: stale_workers_def stale_worker_def crashed_defs)
  have "open_jobs ''v'' crashed = {''a''}"
    by (auto simp: open_jobs_exec crashed_defs)
  then have jobs: "stale_jobs 30 60000 crashed = {''a''}" by (simp add: stale_jobs_def stale)
  have before: "job_progress crashed ''a'' = Some (Running, 0)" "job_progress crashed ''b'' = Some (Claimed, 0)"
    "worker_states crashed = [(''v'', Active), (''u'', Active)]"
    by (simp_all add: job_progress_def job_find_def progress_def worker_states_def crashed_defs)
  have "\<exists>w'. reap (calm_env 60000) 30 crashed = (Inr (), w') \<and> reaped {''a''} {''v''} crashed w'"
    using reap_recovers [of "calm_env 60000" crashed 30] stale jobs
    by (simp add: crashed_defs job_find_def)
  then show ?thesis unfolding reaped_def by (elim exE conjE) (simp add: before)
qed

section \<open>What the reaper does not see\<close>

text \<open>The row of a job none of whose open executions is on a worker of \<open>D\<close>.\<close>

definition unseen :: "ident set \<Rightarrow> ident \<Rightarrow> Job option \<Rightarrow> world \<Rightarrow> bool" where
  "unseen D i row w \<longleftrightarrow> job_find w i = row \<and> (\<forall>v\<in>D. i \<notin> open_jobs v w)"

lemma unseen_requeue:
  assumes "jid \<noteq> i"
  shows "guar (\<lambda>s t. unseen D i row s \<longrightarrow> unseen D i row t) (requeue_orphan env v jid)"
proof -
  have upd: "guar (\<lambda>s t. unseen D i row s \<longrightarrow> unseen D i row t) (job_update jid f)"
    if "keeps_key j_id f" for f
    using that assms by (intro guarI)
      (auto simp: job_update_def unseen_def open_jobs_exec job_store.get_put split: option.split)
  have fail: "guar (\<lambda>s t. unseen D i row s \<longrightarrow> unseen D i row t)
      (modifyA (fail_open_executions v jid now))" for now
    by (rule guarI) (auto simp: modifyA_def unseen_def open_jobs_exec fail_open_executions_def
        update_where_def)
  have pub: "guar (\<lambda>s t. unseen D i row s \<longrightarrow> unseen D i row t) (publish c m)" for c m
    by (rule guarI) (auto simp: publish_def modifyA_def unseen_def open_jobs_exec)
  show ?thesis unfolding requeue_orphan_def by (intro guar_rules upd fail pub) simp
qed

text \<open>An invariant under which the reaper does not see job \<open>i\<close> survives it, if requeuing others keeps it.\<close>

lemma reap_worker_keeps:
  assumes see: "\<And>s. I s \<Longrightarrow> i \<notin> set (orphaned_executions v s) \<and> i \<notin> set (claimed_jobs v s)"
    and dead: "guar (\<lambda>s t. I s \<longrightarrow> I t) (worker_update v (\<lambda>r. r\<lparr>wk_status := Dead\<rparr>))"
    and requeue: "\<And>jid. jid \<noteq> i \<Longrightarrow> guar (\<lambda>s t. I s \<longrightarrow> I t) (requeue_orphan env v jid)"
  shows "guar (\<lambda>s t. I s \<longrightarrow> I t) (reap_worker env v)"
proof -
  have inner: "guar (\<lambda>s t. I s \<longrightarrow> I t)
      (bindA (callA env (R_claimed v) (readA (claimed_jobs v))) (\<lambda>claimed.
        forA (requeue_orphan env v) (js_set (js_set execs @ claimed))))"
    if "i \<notin> set execs" for execs
    by (rule keeps_read [where Q = "\<lambda>cl. i \<notin> set cl"])
      (use see that in \<open>auto intro!: keeps.for_guar requeue\<close>)
  have "guar (\<lambda>s t. I s \<longrightarrow> I t)
      (bindA (callA env (R_executions v) (readA (orphaned_executions v))) (\<lambda>execs.
        let ids = js_set execs in if ids = [] then retA ()
        else bindA (callA env (R_claimed v) (readA (claimed_jobs v))) (\<lambda>claimed.
          forA (requeue_orphan env v) (js_set (ids @ claimed)))))"
    unfolding Let_def
    by (rule keeps_read [where Q = "\<lambda>xs. i \<notin> set xs"])
      (use see in \<open>auto intro!: keeps.if_guar keeps.ret_guar inner\<close>)
  then show ?thesis
    unfolding reap_worker_def
    by - (rule keeps.bind_guar, rule call_guar_keeps, rule dead)
qed

lemma unseen_reap_worker:
  assumes "v \<in> D"
  shows "guar (\<lambda>s t. unseen D i row s \<longrightarrow> unseen D i row t) (reap_worker env v)"
proof (rule reap_worker_keeps)
  show "i \<notin> set (orphaned_executions v s) \<and> i \<notin> set (claimed_jobs v s)" if "unseen D i row s" for s
    using that assms claimed_jobs_open [of v s] by (auto simp: unseen_def orphaned_executions_open)
  show "guar (\<lambda>s t. unseen D i row s \<longrightarrow> unseen D i row t) (worker_update v (\<lambda>r. r\<lparr>wk_status := Dead\<rparr>))"
    by (rule guarI) (auto simp: worker_update_def unseen_def open_jobs_exec worker_put_def
        job_find_def split: option.split)
qed (rule unseen_requeue)

text \<open>
  The reaper sees a job only through an open execution on a worker that is \<open>active\<close> and stale.
  Whatever fails, every other job keeps its row: one that was claimed and has no execution yet
  (its worker died in between, or stopped), one whose worker died while \<open>draining\<close>, and one whose
  worker had been declared dead before and went on.
\<close>

lemma reap_leaves_unseen_jobs:
  assumes "\<And>x. x \<in> set (job_executions w) \<Longrightarrow> x_jobId x = i \<Longrightarrow> x_status x = ''running'' \<Longrightarrow>
    \<forall>v\<in>set (workers w). wk_id v = x_workerId x \<longrightarrow> \<not> stale_worker ttl (clock env R_find) v"
  shows "job_find (snd (reap env ttl w)) i = job_find w i"
proof -
  let ?vs = "stale_workers ttl (clock env R_find) w"
  have start: "unseen (set ?vs) i (job_find w i) w"
    using assms by (auto simp: unseen_def open_jobs_exec stale_workers_def)
  have "guar (\<lambda>s t. unseen (set ?vs) i (job_find w i) s \<longrightarrow> unseen (set ?vs) i (job_find w i) t)
      (forA (reap_worker env) ?vs)"
    by (intro guar_rules unseen_reap_worker)
  from guarD [OF this, of w] start
  have "unseen (set ?vs) i (job_find w i) (snd (forA (reap_worker env) ?vs w))" by blast
  then show ?thesis using start
    by (auto simp: unseen_def reap_def catchA_def bindA_def callA_def readA_def throwA_def retA_def
        split: option.split prod.splits sum.split)
qed

lemma reap_leaves_unseen_jobs_witness:
  "map_option j_status (job_find (snd (reap (calm_env 60000) 30 crashed)) ''b'') = Some Claimed"
proof -
  have "job_find (snd (reap (calm_env 60000) 30 crashed)) ''b'' = job_find crashed ''b''"
    by (rule reap_leaves_unseen_jobs) (simp add: crashed_defs)
  then show ?thesis by (simp add: crashed_defs job_find_def)
qed

section \<open>What the reaper and the writer do to the tables of jobs\<close>

context row_tables
begin

lemma reap_guar:
  assumes "\<And>v. guar R (worker_update v (\<lambda>r. r\<lparr>wk_status := Dead\<rparr>))"
  shows "guar R (reap env ttl)"
proof -
  have fail: "guar R (modifyA (fail_open_executions v jid now))" for v jid now
    by (rule modify_frame) (simp add: fail_open_executions_def)
  have requeue: "guar R (requeue_orphan env v jid)" for v jid
    unfolding requeue_orphan_def
    by (intro walk job_update_R fail) (simp add: harmless_defs)
  show ?thesis
    unfolding reap_def reap_worker_def Let_def by (intro walk requeue assms)
qed

end

context job_tables
begin

lemma reap_R: "guar R (reap env ttl)"
  by (rule reap_guar) (rule worker_update_R)

lemma write_heartbeat_R: "guar R (write_heartbeat env v n cpu)"
proof -
  have create: "guar R (heartbeat_create h)" for h
    by (rule same_call) (simp add: heartbeat_create_def)
  have prune: "guar R (modifyA (\<lambda>w. w\<lparr>worker_heartbeats := prune_heartbeats v (worker_heartbeats w)\<rparr>))"
    by (rule modify_frame) simp
  show ?thesis
    unfolding write_heartbeat_def
    by (intro catch_guar bind_guar ret_guar call_R create prune table_calls worker_update_R)
qed

end

end
