(* ===== verification/Scheduler.thy ===== *)
theory Scheduler
  imports Samples Invariants
begin

text \<open>
  \<open>worker/src/scheduler.ts\<close>: the tick that turns due cron definitions into jobs. The package
  \<open>croner\<close> is the argument \<open>cron\<close>: from an expression and the present time it gives the next run
  (\<open>None\<close> when there is none) or throws for an expression it cannot parse. Its documented
  behaviour, that a next run lies in the future, is a hypothesis where a property needs it.
\<close>

type_synonym cron = "string \<Rightarrow> timestamp \<Rightarrow> js_error + timestamp option"

datatype tick_point =
  T_find | T_cron ident | T_deactivate ident | T_create ident | T_advance ident | T_publish ident

section \<open>Templates\<close>

definition isJobTemplate :: "json \<Rightarrow> bool" where
  "isJobTemplate v = (case jget v ''type'' of Some (JStr _) \<Rightarrow> True | _ \<Rightarrow> False)"

text \<open>
  \<open>prisma.job.create\<close> refuses values of the wrong type (the template is stored JSON that no code
  has checked beyond its \<open>type\<close>).
\<close>

definition prismaValidation :: js_error where
  "prismaValidation = PlainError ''Invalid `prisma.job.create()` invocation''"

definition template_priority :: "json \<Rightarrow> int option" where
  "template_priority t = (case jget t ''priority'' of
     None \<Rightarrow> Some 0 | Some v \<Rightarrow> (if v = JNull then Some 0 else json_int v))"

definition template_payload :: "json \<Rightarrow> json" where
  "template_payload t = (case jget t ''payload'' of
     None \<Rightarrow> JObj [] | Some v \<Rightarrow> (if v = JNull then JObj [] else v))"

definition template_policy :: "json \<Rightarrow> ident option option" where
  "template_policy t = (case jget t ''retryPolicyId'' of
     None \<Rightarrow> Some None
   | Some v \<Rightarrow> (case v of JNull \<Rightarrow> Some None | JStr p \<Rightarrow> Some (Some p) | _ \<Rightarrow> None))"

definition template_job :: "tick_point env \<Rightarrow> ScheduledJob \<Rightarrow> js_error + Job" where
  "template_job env d =
     (let now = clock env (T_create (s_id d)); t = s_jobTemplate d in
      case (jget t ''type'', template_priority t, template_policy t) of
        (Some (JStr type), Some priority, Some policy) \<Rightarrow>
          Inr \<lparr>j_id = fresh env (T_create (s_id d)), j_queueId = s_queueId d, j_type = type,
            j_payload = template_payload t, j_status = Queued, j_priority = priority,
            j_runAt = now, j_batchId = None, j_attemptCount = 0, j_retryPolicyId = policy,
            j_idempotencyKey = None, j_createdAt = now, j_updatedAt = now\<rparr>
      | _ \<Rightarrow> Inl prismaValidation)"

section \<open>The tick\<close>

definition due :: "timestamp \<Rightarrow> ScheduledJob \<Rightarrow> bool" where
  "due now d \<longleftrightarrow> s_isActive d \<and> (case s_nextRunAt d of None \<Rightarrow> False | Some t \<Rightarrow> t \<le> now)"

definition due_jobs :: "timestamp \<Rightarrow> world \<Rightarrow> ScheduledJob list" where
  "due_jobs now w = filter (due now) (scheduled_jobs w)"

definition advance :: "timestamp \<Rightarrow> timestamp \<Rightarrow> ScheduledJob \<Rightarrow> ScheduledJob" where
  "advance now nextRun d = d\<lparr>s_lastRunAt := Some now, s_nextRunAt := Some nextRun\<rparr>"

definition created_event :: "ident \<Rightarrow> ScheduledJob \<Rightarrow> timestamp \<Rightarrow> (string \<times> json) list" where
  "created_event jobId d now =
     [(''event'', JStr ''job:created''), (''jobId'', JStr jobId), (''queueId'', JStr (s_queueId d)),
      (''scheduledJobId'', JStr (s_id d)), (''timestamp'', JDate now)]"

definition materialize :: "tick_point env \<Rightarrow> cron \<Rightarrow> ScheduledJob \<Rightarrow> unit action" where
  "materialize env cron d =
     catchA
       (if \<not> isJobTemplate (s_jobTemplate d) then retA ()
        else case cron (s_cronExpression d) (clock env (T_cron (s_id d))) of
          Inl e \<Rightarrow> throwA e
        | Inr None \<Rightarrow>
            callA env (T_deactivate (s_id d)) (sched_update (s_id d) (\<lambda>r. r\<lparr>s_isActive := False\<rparr>))
        | Inr (Some nextRun) \<Rightarrow>
            bindA (callA env (T_create (s_id d))
              (case template_job env d of Inl e \<Rightarrow> throwA e | Inr j \<Rightarrow> job_create j)) (\<lambda>newJob.
            bindA (callA env (T_advance (s_id d))
              (sched_update (s_id d) (advance (clock env (T_advance (s_id d))) nextRun))) (\<lambda>_.
            callA env (T_publish (s_id d)) (publish ''job:transitions''
              (created_event (j_id newJob) d (clock env (T_publish (s_id d))))))))
       (\<lambda>err. retA ())"

definition tick :: "tick_point env \<Rightarrow> cron \<Rightarrow> unit action" where
  "tick env cron =
     (case fails env T_find of
        Some err \<Rightarrow> retA ()
      | None \<Rightarrow> bindA (readA (due_jobs (clock env T_find))) (\<lambda>ds.
          if ds = [] then retA () else forA (materialize env cron) ds))"

section \<open>One definition, one job\<close>

definition materializes :: "tick_point env \<Rightarrow> cron \<Rightarrow> world \<Rightarrow> ScheduledJob \<Rightarrow> Job \<Rightarrow> timestamp \<Rightarrow> bool" where
  \<comment> \<open>the template is well typed, the expression has a next run, queue and policy exist\<close>
  "materializes env cron w d j nextRun \<longleftrightarrow>
     template_job env d = Inr j \<and>
     cron (s_cronExpression d) (clock env (T_cron (s_id d))) = Inr (Some nextRun) \<and>
     queue_find w (s_queueId d) \<noteq> None \<and>
     (case j_retryPolicyId j of None \<Rightarrow> True | Some p \<Rightarrow> policy_find w p \<noteq> None)"

lemma template_job_fields:
  assumes "template_job env d = Inr j"
  shows "isJobTemplate (s_jobTemplate d)" "j_id j = fresh env (T_create (s_id d))"
    "j_queueId j = s_queueId d" "j_status j = Queued" "j_idempotencyKey j = None"
    "j_attemptCount j = 0"
  using assms
  by (auto simp: template_job_def isJobTemplate_def Let_def split: option.splits json.splits)

lemma idem_clash_None [simp]: "j_idempotencyKey j = None \<Longrightarrow> \<not> idem_clash j k"
  by (simp add: idem_clash_def)

lemma create_from_template:
  assumes "materializes env cron w d j nextRun" and "job_find w (j_id j) = None"
  shows "job_create j w = (Inr j, w\<lparr>jobs := jobs w @ [j]\<rparr>)"
proof -
  note j = template_job_fields [of env d j]
  have "template_job env d = Inr j" using assms(1) by (simp add: materializes_def)
  note j = j [OF this]
  have "list_ex (idem_clash j) (jobs w) = False"
    using j(5) by (simp add: list_ex_iff)
  then show ?thesis
    using assms j by (auto simp: job_create_def materializes_def split: option.splits)
qed

lemma materialize_run:
  assumes "\<And>p. fails env p = None" and "materializes env cron w d j nextRun"
    and "job_find w (j_id j) = None" and "sched_find w (s_id d) \<noteq> None"
  shows "materialize env cron d w = (Inr (), w\<lparr>jobs := jobs w @ [j],
      scheduled_jobs := update_by s_id (s_id d)
        (advance (clock env (T_advance (s_id d))) nextRun) (scheduled_jobs w),
      published := published w @ [(''job:transitions'',
        JObj (created_event (j_id j) d (clock env (T_publish (s_id d)))))]\<rparr>)"
proof -
  have t: "template_job env d = Inr j"
    and c: "cron (s_cronExpression d) (clock env (T_cron (s_id d))) = Inr (Some nextRun)"
    using assms(2) by (simp_all add: materializes_def)
  have "sched_find (w\<lparr>jobs := jobs w @ [j]\<rparr>) (s_id d) \<noteq> None"
    using assms(4) by (simp add: sched_find_def)
  then show ?thesis
    using assms(1) t c create_from_template [OF assms(2,3)] template_job_fields(1) [OF t]
    by (auto simp: materialize_def catchA_def bindA_def sched_update_def sched_put_def publish_def
        modifyA_def)
qed

definition advanced :: "tick_point env \<Rightarrow> (ScheduledJob \<Rightarrow> timestamp) \<Rightarrow> ScheduledJob \<Rightarrow> ScheduledJob \<Rightarrow> ScheduledJob" where
  "advanced env nr d = advance (clock env (T_advance (s_id d))) (nr d)"

lemma advanced_id [simp]: "s_id (advanced env nr d r) = s_id r"
  by (simp add: advanced_def advance_def)

lemma materialize_all:
  assumes "\<And>p. fails env p = None"
  shows "distinct (map s_id ds) \<Longrightarrow> distinct (map (\<lambda>d. j_id (row d)) ds) \<Longrightarrow>
    (\<And>d. d \<in> set ds \<Longrightarrow> materializes env cron w d (row d) (nr d) \<and>
      job_find w (j_id (row d)) = None \<and> sched_find w (s_id d) \<noteq> None) \<Longrightarrow>
    \<exists>ev. forA (materialize env cron) ds w = (Inr (), w\<lparr>jobs := jobs w @ map row ds,
      scheduled_jobs := fold (\<lambda>d. update_by s_id (s_id d) (advanced env nr d)) ds (scheduled_jobs w),
      published := published w @ ev\<rparr>)"
proof (induction ds arbitrary: w)
  case (Cons d ds)
  let ?ev = "(''job:transitions'', JObj (created_event (j_id (row d)) d (clock env (T_publish (s_id d)))))"
  define w1 where "w1 = w\<lparr>jobs := jobs w @ [row d],
      scheduled_jobs := update_by s_id (s_id d) (advanced env nr d) (scheduled_jobs w),
      published := published w @ [?ev]\<rparr>"
  have "materialize env cron d w = (Inr (), w1)"
    unfolding w1_def advanced_def using Cons.prems(3) by (intro materialize_run [OF assms]) auto
  moreover have "materializes env cron w1 e (row e) (nr e) \<and>
      job_find w1 (j_id (row e)) = None \<and> sched_find w1 (s_id e) \<noteq> None" if "e \<in> set ds" for e
  proof -
    have "j_id (row e) \<noteq> j_id (row d)" using Cons.prems(2) that by (auto simp: image_iff)
    then have "job_find w1 (j_id (row e)) = job_find w (j_id (row e))"
      by (simp add: w1_def job_find_def find_by_append split: option.split)
    moreover have "sched_find w1 (s_id e) = map_option (\<lambda>r. if s_id r = s_id d then advanced env nr d r else r)
        (sched_find w (s_id e))"
      unfolding w1_def sched_find_def update_by_def update_where_def [symmetric]
      by (simp add: find_by_update_where)
    moreover have "queue_find w1 = queue_find w" "policy_find w1 = policy_find w"
      by (simp_all add: w1_def queue_find_def policy_find_def fun_eq_iff)
    ultimately show ?thesis
      using Cons.prems(3) [of e] that
      by (auto simp: materializes_def cong: option.case_cong)
  qed
  then obtain ev where "forA (materialize env cron) ds w1 = (Inr (), w1\<lparr>jobs := jobs w1 @ map row ds,
      scheduled_jobs := fold (\<lambda>d. update_by s_id (s_id d) (advanced env nr d)) ds (scheduled_jobs w1),
      published := published w1 @ ev\<rparr>)"
    using Cons.IH [of w1] Cons.prems(1,2) by auto
  ultimately show ?case
    by (intro exI [of _ "?ev # ev"]) (simp add: bindA_def w1_def)
qed (intro exI [of _ "[]"], simp add: retA_def)

text \<open>Updating each of a list of rows of a table in turn.\<close>

lemma fold_update_rows:
  assumes "\<And>d r. key (f d r) = key r"
  shows "distinct (map key ds) \<Longrightarrow>
    fold (\<lambda>d. update_by key (key d) (f d)) ds rows =
      map (\<lambda>r. case find_by key (key r) ds of None \<Rightarrow> r | Some d \<Rightarrow> f d r) rows"
proof (induction ds arbitrary: rows)
  case (Cons d ds)
  have "find_by key (key d) ds = None" using Cons.prems by (simp add: find_by_None_iff)
  then show ?case using Cons by (auto simp: update_by_def assms)
qed simp

lemma find_by_filter:
  assumes "distinct (map key rows)" and "r \<in> set rows"
  shows "find_by key (key r) (filter p rows) = (if p r then Some r else None)"
proof (cases "p r")
  case True
  have "distinct (map key (filter p rows))" using assms(1) by (simp add: distinct_map_filter)
  from find_by_distinct [OF this, of r] True assms(2) show ?thesis by simp
next
  case False
  with assms have "key r \<notin> key ` set (filter p rows)"
    by (auto simp: distinct_map dest: inj_onD)
  then have "find_by key (key r) (filter p rows) = None" by (rule find_by_None_iff [THEN iffD2])
  with False show ?thesis by (simp del: filter_set)
qed

text \<open>
  C32. A tick with the database answering creates one \<open>queued\<close> job for each due definition and no
  other, and advances exactly those definitions; since a next run lies in the future, nothing is
  due any more at the time of the tick: a firing is materialized once by a scheduler that runs
  alone.
\<close>

theorem tick_materializes_due:
  assumes "\<And>p. fails env p = None" and "distinct (map s_id (scheduled_jobs w))"
    and "\<And>d. d \<in> set (due_jobs (clock env T_find) w) \<Longrightarrow>
      materializes env cron w d (row d) (nr d) \<and> clock env T_find < nr d \<and>
      job_find w (j_id (row d)) = None"
    and "distinct (map (\<lambda>d. j_id (row d)) (due_jobs (clock env T_find) w))"
  shows "\<exists>w'. tick env cron w = (Inr (), w') \<and>
    jobs w' = jobs w @ map row (due_jobs (clock env T_find) w) \<and>
    scheduled_jobs w' = map (\<lambda>d. if due (clock env T_find) d
      then advance (clock env (T_advance (s_id d))) (nr d) d else d) (scheduled_jobs w) \<and>
    due_jobs (clock env T_find) w' = []"
proof -
  let ?now = "clock env T_find" and ?ds = "due_jobs (clock env T_find) w"
  have ids: "distinct (map s_id ?ds)"
    using assms(2) by (simp add: due_jobs_def distinct_map_filter)
  have rows: "materializes env cron w d (row d) (nr d) \<and>
      job_find w (j_id (row d)) = None \<and> sched_find w (s_id d) \<noteq> None" if "d \<in> set ?ds" for d
  proof -
    have "d \<in> set (scheduled_jobs w)" using that by (simp add: due_jobs_def)
    then have "sched_find w (s_id d) \<noteq> None"
      unfolding sched_find_def find_by_None_iff by blast
    with assms(3) [OF that] show ?thesis by blast
  qed
  obtain ev where run: "forA (materialize env cron) ?ds w = (Inr (), w\<lparr>jobs := jobs w @ map row ?ds,
      scheduled_jobs := fold (\<lambda>d. update_by s_id (s_id d) (advanced env nr d)) ?ds (scheduled_jobs w),
      published := published w @ ev\<rparr>)"
    using materialize_all [OF assms(1) ids assms(4) rows] by blast
  have upd: "fold (\<lambda>d. update_by s_id (s_id d) (advanced env nr d)) ?ds (scheduled_jobs w) =
      map (\<lambda>d. if due ?now d then advanced env nr d d else d) (scheduled_jobs w)"
  proof -
    have "fold (\<lambda>d. update_by s_id (s_id d) (advanced env nr d)) ?ds (scheduled_jobs w) =
        map (\<lambda>r. case find_by s_id (s_id r) ?ds of None \<Rightarrow> r | Some d \<Rightarrow> advanced env nr d r)
          (scheduled_jobs w)"
      by (rule fold_update_rows [OF advanced_id ids])
    also have "\<dots> = map (\<lambda>d. if due ?now d then advanced env nr d d else d) (scheduled_jobs w)"
      by (rule map_cong [OF refl]) (simp add: due_jobs_def find_by_filter [OF assms(2)])
    finally show ?thesis .
  qed
  have "\<not> due ?now (if due ?now d then advanced env nr d d else d)"
    if "d \<in> set (scheduled_jobs w)" for d
    using assms(3) [of d] that by (auto simp: due_jobs_def advanced_def advance_def due_def)
  then have none: "filter (due ?now) (map (\<lambda>d. if due ?now d then advanced env nr d d else d)
      (scheduled_jobs w)) = []"
    unfolding filter_empty_conv set_map by blast
  have "tick env cron w = forA (materialize env cron) ?ds w"
    using assms(1) by (auto simp: tick_def bindA_def readA_def retA_def)
  with run upd none show ?thesis by (auto simp: due_jobs_def advanced_def)
qed

definition cron_def :: "ident \<Rightarrow> timestamp \<Rightarrow> ScheduledJob" where
  "cron_def i t = \<lparr>s_id = i, s_projectId = ''p'', s_cronExpression = ''* * * * *'', s_queueId = ''q'',
     s_jobTemplate = JObj [(''type'', JStr ''echo'')], s_isActive = True, s_lastRunAt = None,
     s_nextRunAt = Some t, s_createdAt = 0\<rparr>"

definition every_minute :: cron where
  "every_minute expr now = Inr (Some (60000 * (now div 60000 + 1)))"

definition cron_world :: world where
  "cron_world = empty_world\<lparr>queues := [sample_queue],
     scheduled_jobs := [cron_def ''c'' 60000, cron_def ''d'' 180000]\<rparr>"

lemmas cron_defs = cron_world_def cron_def_def every_minute_def sample_defs

definition cron_job :: "timestamp \<Rightarrow> ident \<Rightarrow> Job" where
  "cron_job now i = (sample_job i 0)\<lparr>j_runAt := now, j_createdAt := now, j_updatedAt := now\<rparr>"

theorem tick_materializes_due_witness:
  "\<exists>w'. tick (calm_env 70000) every_minute cron_world = (Inr (), w') \<and>
    jobs w' = [cron_job 70000 ''new''] \<and> map s_nextRunAt (scheduled_jobs w') = [Some 120000, Some 180000]"
proof -
  have due: "due_jobs 70000 cron_world = [cron_def ''c'' 60000]"
    by (simp add: due_jobs_def due_def cron_defs)
  have "materializes (calm_env 70000) every_minute cron_world (cron_def ''c'' 60000) (cron_job 70000 ''new'') 120000"
    by (simp add: materializes_def template_job_def template_priority_def template_payload_def
        template_policy_def cron_job_def cron_defs queue_find_def)
  moreover have "distinct (map s_id (scheduled_jobs cron_world))" "job_find cron_world ''new'' = None"
    by (simp_all add: cron_defs job_find_def)
  ultimately have "\<exists>w'. tick (calm_env 70000) every_minute cron_world = (Inr (), w') \<and>
      jobs w' = jobs cron_world @ [cron_job 70000 ''new''] \<and>
      scheduled_jobs w' = map (\<lambda>d. if due 70000 d then advance 70000 120000 d else d) (scheduled_jobs cron_world)"
    using tick_materializes_due [of "calm_env 70000" cron_world every_minute
        "\<lambda>_. cron_job 70000 ''new''" "\<lambda>_. 120000"] due
    by (auto simp: cron_job_def sample_job_def cong: if_cong)
  then show ?thesis by (auto simp: cron_defs due_def advance_def)
qed

section \<open>What a tick can do whatever fails\<close>

text \<open>The jobs table only grows, by new queued jobs that have not been attempted.\<close>

definition jobs_grow :: "world \<Rightarrow> world \<Rightarrow> bool" where
  "jobs_grow s t \<longleftrightarrow> (\<exists>new. jobs t = jobs s @ new \<and>
     (\<forall>j\<in>set new. j_status j = Queued \<and> j_attemptCount j = 0))"

interpretation growing: two_state jobs_grow
proof unfold_locales
  show "jobs_grow s s" for s by (simp add: jobs_grow_def)
  show "jobs_grow s t \<Longrightarrow> jobs_grow t u \<Longrightarrow> jobs_grow s u" for s t u
    by (fastforce simp: jobs_grow_def)
qed

lemma materialize_cases_guar:
  assumes R: "two_state R"
    and create: "\<And>j. template_job env d = Inr j \<Longrightarrow> guar R (job_create j)"
    and upd: "\<And>f. guar R (sched_update (s_id d) f)" and pub: "\<And>c m. guar R (publish c m)"
  shows "guar R (materialize env cron d)"
proof -
  note comb = two_state.guar_combinators [OF R] two_state.if_guar [OF R] call_guar [OF R]
  have "guar R (case cron (s_cronExpression d) now of
      Inl e \<Rightarrow> throwA e
    | Inr None \<Rightarrow> callA env (T_deactivate (s_id d)) (sched_update (s_id d) (\<lambda>r. r\<lparr>s_isActive := False\<rparr>))
    | Inr (Some nextRun) \<Rightarrow>
        bindA (callA env (T_create (s_id d))
          (case template_job env d of Inl e \<Rightarrow> throwA e | Inr j \<Rightarrow> job_create j)) (\<lambda>newJob.
        bindA (callA env (T_advance (s_id d))
          (sched_update (s_id d) (advance (clock env (T_advance (s_id d))) nextRun))) (\<lambda>_.
        callA env (T_publish (s_id d)) (publish ''job:transitions''
          (created_event (j_id newJob) d (clock env (T_publish (s_id d))))))))" for now
    by (auto split: sum.split option.split intro!: comb create upd pub)
  then show ?thesis unfolding materialize_def by (intro comb)
qed

lemma tick_guar:
  assumes R: "two_state R"
    and create: "\<And>d j. template_job env d = Inr j \<Longrightarrow> guar R (job_create j)"
    and upd: "\<And>i f. guar R (sched_update i f)" and pub: "\<And>c m. guar R (publish c m)"
  shows "guar R (tick env cron)"
proof -
  note comb = two_state.guar_combinators [OF R] two_state.if_guar [OF R]
    two_state.option_guar [OF R]
  have "guar R (materialize env cron d)" for d
    by (rule materialize_cases_guar [OF R]) (rule create upd pub, assumption?)+
  then show ?thesis unfolding tick_def by (intro comb)
qed

text \<open>
  Whatever fails, a tick leaves the existing jobs as they are and adds only new, unattempted
  jobs in \<open>queued\<close>.
\<close>

lemma tick_only_adds_queued_jobs:
  "\<exists>new. jobs (snd (tick env cron w)) = jobs w @ new \<and>
     progress ` set new \<subseteq> {(Queued, 0)}"
proof -
  have "guar jobs_grow (job_create j)" if "template_job env d = Inr j" for d j
    using template_job_fields [OF that]
    by (intro guarI) (auto simp: job_create_def jobs_grow_def)
  moreover have "guar jobs_grow (sched_update i f)" for i f
    by (rule guarI) (auto simp: sched_update_def sched_put_def jobs_grow_def split: option.split)
  moreover have "guar jobs_grow (publish c m)" for c m
    by (rule guarI) (auto simp: publish_def modifyA_def jobs_grow_def)
  ultimately have "guar jobs_grow (tick env cron)"
    by (rule tick_guar [OF growing.two_state_axioms])
  from guarD [OF this, of w] show ?thesis by (auto simp: jobs_grow_def progress_def image_subset_iff)
qed

context row_tables
begin

lemma tick_R: "guar R (tick env cron)"
proof (rule tick_guar [OF two_state_axioms])
  show "guar R (job_create j)" if "template_job env d = Inr j" for d j
    using template_job_fields(4) [OF that] by (intro job_create_R) simp
qed (rule table_calls)+

end

section \<open>Where a firing is materialized twice\<close>

text \<open>
  The job is created before the definition is advanced, in two calls: when the second fails,
  the job exists, the definition is unchanged and stays due, and the next tick materializes the
  same firing again.
\<close>

lemma tick_advance_failure:
  assumes "fails env (T_create (s_id d)) = None" and "fails env (T_advance (s_id d)) = Some err"
    and "materializes env cron w d j nextRun" and "job_find w (j_id j) = None"
  shows "materialize env cron d w = (Inr (), w\<lparr>jobs := jobs w @ [j]\<rparr>) \<and>
    due_jobs now (w\<lparr>jobs := jobs w @ [j]\<rparr>) = due_jobs now w"
proof -
  have t: "template_job env d = Inr j"
    and c: "cron (s_cronExpression d) (clock env (T_cron (s_id d))) = Inr (Some nextRun)"
    using assms(3) by (simp_all add: materializes_def)
  show ?thesis
    using assms(1,2) t c create_from_template [OF assms(3,4)] template_job_fields(1) [OF t]
    by (simp add: materialize_def catchA_def bindA_def throwA_def retA_def due_jobs_def)
qed

definition stuck_advance :: "tick_point env" where
  "stuck_advance = (calm_env 70000)\<lparr>fails := (\<lambda>p. case p of T_advance _ \<Rightarrow> Some (PlainError ''lost'') | _ \<Rightarrow> None)\<rparr>"

lemma tick_advance_failure_witness:
  "materialize stuck_advance every_minute (cron_def ''c'' 60000) cron_world =
    (Inr (), cron_world\<lparr>jobs := [cron_job 70000 ''new'']\<rparr>)"
proof -
  have "materializes stuck_advance every_minute cron_world (cron_def ''c'' 60000) (cron_job 70000 ''new'') 120000"
    by (simp add: materializes_def template_job_def template_priority_def template_payload_def
        template_policy_def cron_job_def cron_defs queue_find_def stuck_advance_def)
  then show ?thesis
    using tick_advance_failure [of stuck_advance "cron_def ''c'' 60000" "PlainError ''lost''"
        every_minute cron_world "cron_job 70000 ''new''" 120000]
    by (simp add: stuck_advance_def cron_job_def job_find_def cron_defs)
qed

text \<open>
  Every worker process runs a scheduler and nothing locks the definitions: when two of them
  have read the due definitions before either advances them, each creates its own job for every
  firing.
\<close>

lemma racing_ticks_duplicate:
  assumes "\<And>p. fails env1 p = None" and "\<And>p. fails env2 p = None"
    and "distinct (map s_id (scheduled_jobs w))" and "ds = due_jobs now w"
    and "\<And>d. d \<in> set ds \<Longrightarrow> materializes env1 cron w d (row1 d) (nr1 d) \<and> job_find w (j_id (row1 d)) = None"
    and "\<And>d. d \<in> set ds \<Longrightarrow> materializes env2 cron w d (row2 d) (nr2 d) \<and> job_find w (j_id (row2 d)) = None"
    and "distinct (map (\<lambda>d. j_id (row1 d)) ds @ map (\<lambda>d. j_id (row2 d)) ds)"
  shows "\<exists>w1 w2. forA (materialize env1 cron) ds w = (Inr (), w1) \<and>
    forA (materialize env2 cron) ds w1 = (Inr (), w2) \<and>
    jobs w2 = jobs w @ map row1 ds @ map row2 ds"
proof -
  have ids: "distinct (map s_id ds)"
    using assms(3) by (simp add: assms(4) due_jobs_def distinct_map_filter)
  have found: "sched_find w (s_id d) \<noteq> None" if "d \<in> set ds" for d
    using that unfolding assms(4) due_jobs_def sched_find_def find_by_None_iff by auto
  have rows1: "materializes env1 cron w d (row1 d) (nr1 d) \<and> job_find w (j_id (row1 d)) = None \<and>
      sched_find w (s_id d) \<noteq> None" if "d \<in> set ds" for d
    using assms(5) [OF that] found [OF that] by blast
  have dist: "distinct (map (\<lambda>d. j_id (row1 d)) ds)" "distinct (map (\<lambda>d. j_id (row2 d)) ds)"
    using assms(7) by simp_all
  obtain ev where run1: "forA (materialize env1 cron) ds w = (Inr (), w\<lparr>jobs := jobs w @ map row1 ds,
      scheduled_jobs := fold (\<lambda>d. update_by s_id (s_id d) (advanced env1 nr1 d)) ds (scheduled_jobs w),
      published := published w @ ev\<rparr>)" (is "_ = (_, ?w1)")
    using materialize_all [OF assms(1) ids dist(1) rows1] by blast
  have "materializes env2 cron ?w1 d (row2 d) (nr2 d) \<and> job_find ?w1 (j_id (row2 d)) = None \<and>
      sched_find ?w1 (s_id d) \<noteq> None" if d: "d \<in> set ds" for d
  proof -
    have "j_id (row2 d) \<notin> j_id ` set (map row1 ds)"
      using assms(7) d by (auto simp: image_iff)
    then have "find_by j_id (j_id (row2 d)) (map row1 ds) = None"
      unfolding find_by_None_iff .
    then have "job_find ?w1 (j_id (row2 d)) = None"
      using assms(6) [OF d] by (simp add: job_find_def find_by_append)
    moreover have "sched_find ?w1 (s_id d) \<noteq> None"
    proof -
      have "s_id ` set (fold (\<lambda>d. update_by s_id (s_id d) (advanced env1 nr1 d)) ds (scheduled_jobs w)) =
          s_id ` set (scheduled_jobs w)"
        unfolding fold_update_rows [where key = s_id, OF advanced_id ids] set_map image_image
        by (rule image_cong [OF refl]) (simp split: option.split)
      then show ?thesis using found [OF d] by (simp add: sched_find_def find_by_None_iff del: find_by_Cons)
    qed
    moreover have "queue_find ?w1 = queue_find w" "policy_find ?w1 = policy_find w"
      by (simp_all add: queue_find_def policy_find_def fun_eq_iff)
    ultimately show ?thesis
      using assms(6) [OF d] by (auto simp: materializes_def cong: option.case_cong)
  qed
  from materialize_all [OF assms(2) ids dist(2) this] run1 show ?thesis by auto
qed

lemma racing_ticks_duplicate_witness:
  "\<exists>w1 w2. forA (materialize (calm_env 70000) every_minute) [cron_def ''c'' 60000] cron_world = (Inr (), w1) \<and>
    forA (materialize ((calm_env 70001)\<lparr>fresh := (\<lambda>_. ''too'')\<rparr>) every_minute) [cron_def ''c'' 60000] w1 = (Inr (), w2) \<and>
    jobs w2 = [cron_job 70000 ''new'', cron_job 70001 ''too'']"
proof -
  have due: "due_jobs 70000 cron_world = [cron_def ''c'' 60000]"
    by (simp add: due_jobs_def due_def cron_defs)
  have "materializes (calm_env 70000) every_minute cron_world (cron_def ''c'' 60000) (cron_job 70000 ''new'') 120000"
    "materializes ((calm_env 70001)\<lparr>fresh := (\<lambda>_. ''too'')\<rparr>) every_minute cron_world (cron_def ''c'' 60000) (cron_job 70001 ''too'') 120000"
    by (simp_all add: materializes_def template_job_def template_priority_def template_payload_def
        template_policy_def cron_job_def cron_defs queue_find_def)
  moreover have "distinct (map s_id (scheduled_jobs cron_world))" "job_find cron_world i = None"
    "jobs cron_world = []" for i
    by (simp_all add: cron_defs job_find_def)
  ultimately show ?thesis
    using racing_ticks_duplicate [of "calm_env 70000" "(calm_env 70001)\<lparr>fresh := (\<lambda>_. ''too'')\<rparr>"
        cron_world "[cron_def ''c'' 60000]" 70000 every_minute
        "\<lambda>_. cron_job 70000 ''new''" "\<lambda>_. 120000" "\<lambda>_. cron_job 70001 ''too''" "\<lambda>_. 120000"] due
    by (simp add: cron_job_def sample_job_def)
qed

end
