(* ===== verification/Poller.thy ===== *)
theory Poller
  imports Claimer Heartbeat
begin

text \<open>
  \<open>worker/src/poller.ts\<close>: the claim-and-execute loop of one worker. The module's variables are the
  record \<open>poller\<close>; \<open>po_inFlight\<close> lists the job of each promise in the set \<open>inFlight\<close>. While a
  cycle awaits \<open>claimJobs\<close>, other callbacks run: an execution settles, \<open>stopPoller\<close> is called.
  What happens during the await for a queue is part of \<open>poll_env\<close>, and between the calls of the
  launching loop nothing can happen, as there is no \<open>await\<close> in it.
\<close>

record poller =
  po_running :: bool
  po_stopping :: bool
  po_inFlight :: "ident list"
  po_active :: int  \<comment> \<open>\<open>_activeJobCount\<close> of heartbeat.ts\<close>

definition initial_poller :: poller where
  "initial_poller = \<lparr>po_running = False, po_stopping = False, po_inFlight = [], po_active = 0\<rparr>"

definition getInFlightCount :: "poller \<Rightarrow> nat" where
  "getInFlightCount p = length (po_inFlight p)"

definition stopPoller :: "poller \<Rightarrow> poller" where
  "stopPoller p = p\<lparr>po_stopping := True\<rparr>"

text \<open>Starting an execution, and the \<open>finally\<close> of its promise.\<close>

definition launch :: "ident \<Rightarrow> poller \<Rightarrow> poller" where
  "launch jobId p = p\<lparr>po_active := incrementActiveJobs (po_active p),
     po_inFlight := po_inFlight p @ [jobId]\<rparr>"

definition settle_job :: "ident \<Rightarrow> poller \<Rightarrow> poller" where
  "settle_job jobId p = p\<lparr>po_active := decrementActiveJobs (po_active p),
     po_inFlight := remove1 jobId (po_inFlight p)\<rparr>"

fun launch_all :: "ident list \<Rightarrow> poller \<Rightarrow> poller" where
  "launch_all [] p = p"
| "launch_all (jobId # ids) p = (if po_stopping p then p else launch_all ids (launch jobId p))"

datatype callback = Settled ident | Stop_requested

fun callback_step :: "callback \<Rightarrow> poller \<Rightarrow> poller" where
  "callback_step (Settled i) p = (if i \<in> set (po_inFlight p) then settle_job i p else p)"
| "callback_step Stop_requested p = stopPoller p"

record poll_env =
  pe_fetch_fails :: "js_error option"
  pe_claim :: "ident \<Rightarrow> claim_point env"
  pe_locked :: "ident \<Rightarrow> ident set"
  pe_during :: "ident \<Rightarrow> callback list"  \<comment> \<open>while \<open>claimJobs\<close> of this queue is awaited\<close>

fun poll_queues :: "poll_env \<Rightarrow> Queue list \<Rightarrow> poller \<times> world \<Rightarrow> poller \<times> world" where
  "poll_queues env [] s = s"
| "poll_queues env (q # qs) (p, w) =
     (if po_stopping p then (p, w)
      else let p' = fold callback_step (pe_during env (q_id q)) p in
        case claimJobs (pe_claim env (q_id q)) (pe_locked env (q_id q)) (q_id q) (q_concurrencyLimit q) w of
          (Inl err, w') \<Rightarrow> poll_queues env qs (p', w')
        | (Inr claimedIds, w') \<Rightarrow> poll_queues env qs (launch_all claimedIds p', w'))"

definition pollCycle :: "poll_env \<Rightarrow> poller \<times> world \<Rightarrow> poller \<times> world" where
  "pollCycle env s =
     (case pe_fetch_fails env of
        Some err \<Rightarrow> s
      | None \<Rightarrow> poll_queues env (filter (\<lambda>q. \<not> q_isPaused q) (queues (snd s))) s)"

text \<open>
  \<open>startPoller\<close>: one environment per turn of the loop, \<open>pt_sleep\<close> being what happens during the
  sleep that follows the cycle. \<open>None\<close> when the turns given run out before a stop is requested.
\<close>

record poll_turn =
  pt_cycle :: poll_env
  pt_sleep :: "callback list"

fun poll_loop :: "poll_turn list \<Rightarrow> poller \<times> world \<Rightarrow> (poller \<times> world) option" where
  "poll_loop ts (p, w) =
     (if po_stopping p then Some (p\<lparr>po_running := False\<rparr>, w)
      else case ts of
        [] \<Rightarrow> None
      | t # ts' \<Rightarrow>
          (case pollCycle (pt_cycle t) (p, w) of
             (p', w') \<Rightarrow> poll_loop ts' (fold callback_step (pt_sleep t) p', w')))"

declare poll_loop.simps [simp del]

definition startPoller :: "poll_turn list \<Rightarrow> poller \<times> world \<Rightarrow> (poller \<times> world) option" where
  "startPoller ts s =
     (if po_running (fst s) then Some s
      else poll_loop ts ((fst s)\<lparr>po_running := True, po_stopping := False\<rparr>, snd s))"

section \<open>The counter of active jobs\<close>

definition counted :: "poller \<Rightarrow> bool" where
  "counted p \<longleftrightarrow> po_active p = int (length (po_inFlight p))"

lemma counted_callback: "counted p \<Longrightarrow> counted (callback_step c p)"
proof (cases c)
  case (Settled i)
  moreover have "i \<in> set xs \<Longrightarrow> 0 < length xs" for xs :: "ident list" by (cases xs) auto
  ultimately show "counted p \<Longrightarrow> counted (callback_step c p)"
    by (auto simp: counted_def settle_job_def decrementActiveJobs_def length_remove1 of_nat_diff
        Suc_le_eq split: if_splits)
qed (simp add: counted_def stopPoller_def)

lemma counted_callbacks: "counted p \<Longrightarrow> counted (fold callback_step cs p)"
  by (induction cs arbitrary: p) (simp_all add: counted_callback)

lemma counted_launch: "counted p \<Longrightarrow> counted (launch i p)"
  by (simp add: counted_def launch_def incrementActiveJobs_def)

lemma counted_launch_all: "counted p \<Longrightarrow> counted (launch_all ids p)"
  by (induction ids arbitrary: p) (simp_all add: counted_launch)

lemma counted_queues: "counted (fst s) \<Longrightarrow> counted (fst (poll_queues env qs s))"
  by (induction env qs s rule: poll_queues.induct)
    (auto simp: Let_def counted_callbacks counted_launch_all split: prod.split sum.split)

lemma counted_cycle: "counted (fst s) \<Longrightarrow> counted (fst (pollCycle env s))"
  by (simp add: pollCycle_def counted_queues split: option.split)

datatype poller_event = Cycle poll_env | Callback callback

fun poller_do :: "poller_event \<Rightarrow> poller \<times> world \<Rightarrow> poller \<times> world" where
  "poller_do (Cycle env) s = pollCycle env s"
| "poller_do (Callback c) (p, w) = (callback_step c p, w)"

text \<open>
  The active-job count a worker reports in its heartbeats is the number of executions in
  flight, after any sequence of cycles, settled executions and stop requests: the clamp at 0 of
  the decrement never hides a lost count.
\<close>

lemma active_count_is_in_flight:
  "po_active (fst (fold poller_do es (initial_poller, w))) =
    int (getInFlightCount (fst (fold poller_do es (initial_poller, w))))"
proof -
  have "counted (fst (poller_do e s))" if "counted (fst s)" for e s
    using that by (cases "(e, s)" rule: poller_do.cases) (auto simp: counted_cycle counted_callback)
  then have "counted (fst s) \<Longrightarrow> counted (fst (fold poller_do es s))" for s
    by (induction es arbitrary: s) auto
  from this [of "(initial_poller, w)"] show ?thesis
    by (simp add: counted_def initial_poller_def getInFlightCount_def)
qed

section \<open>A cycle on its own\<close>

text \<open>What visiting some queues leaves of the jobs of any queue.\<close>

definition visited :: "ident set \<Rightarrow> Queue list \<Rightarrow> world \<Rightarrow> world \<Rightarrow> bool" where
  "visited Q qs w w' \<longleftrightarrow> map j_id (jobs w') = map j_id (jobs w) \<and> queues w' = queues w \<and>
     (\<forall>i. i \<notin> Q \<longrightarrow> filter (\<lambda>j. j_queueId j = i) (jobs w') = filter (\<lambda>j. j_queueId j = i) (jobs w)) \<and>
     (\<forall>q\<in>set qs. int (in_flight (q_id q) w') \<le> max (int (in_flight (q_id q) w)) (q_concurrencyLimit q))"

lemma poll_queues_visited:
  "distinct (map j_id (jobs w)) \<Longrightarrow> distinct (map q_id qs) \<Longrightarrow>
    visited (q_id ` set qs) qs w (snd (poll_queues env qs (p, w)))"
proof (induction qs arbitrary: p w)
  case (Cons q qs)
  show ?case
  proof (cases "po_stopping p")
    case False
    let ?c = "claimJobs (pe_claim env (q_id q)) (pe_locked env (q_id q)) (q_id q) (q_concurrencyLimit q)"
    let ?w1 = "snd (?c w)"
    have "\<exists>p1. poll_queues env (q # qs) (p, w) = poll_queues env qs (p1, w1)"
      if "?c w = (r, w1)" for r w1
      using False that by (cases r) (auto simp: Let_def)
    then obtain p1 where step: "poll_queues env (q # qs) (p, w) = poll_queues env qs (p1, ?w1)"
      by (metis prod.collapse)
    let ?w2 = "snd (poll_queues env qs (p1, ?w1))"
    have ids: "distinct (map j_id (jobs ?w1))" using Cons.prems(1) by simp
    have IH: "visited (q_id ` set qs) qs ?w1 ?w2"
      using Cons.IH [OF ids] Cons.prems(2) by simp
    have other: "filter (\<lambda>j. j_queueId j = i) (jobs ?w1) = filter (\<lambda>j. j_queueId j = i) (jobs w)"
      if "i \<noteq> q_id q" for i by (rule claimJobs_other_queue [OF Cons.prems(1) that])
    have "in_flight (q_id q) ?w2 = in_flight (q_id q) ?w1"
      using IH Cons.prems(2) by (simp add: visited_def in_flight_queue_rows image_iff)
    then have head: "int (in_flight (q_id q) ?w2) \<le> max (int (in_flight (q_id q) w)) (q_concurrencyLimit q)"
      using claimJobs_in_flight [OF Cons.prems(1)] by simp
    have rest: "in_flight (q_id r) ?w1 = in_flight (q_id r) w" if "r \<in> set qs" for r
    proof -
      have "q_id r \<noteq> q_id q" using Cons.prems(2) that by (metis distinct.simps(2) image_eqI list.map(2) set_map)
      from other [OF this] show ?thesis by (simp add: in_flight_queue_rows)
    qed
    show ?thesis
      unfolding step using IH head other rest by (auto simp: visited_def)
  qed (simp add: visited_def)
qed (simp add: visited_def)

text \<open>
  C33. A poll cycle of a worker that runs alone, whatever calls fail and whenever a stop arrives: no
  queue that is within its concurrency limit gets beyond it, and the jobs of paused queues stay as
  they are.
\<close>

theorem pollCycle_respects_queues:
  assumes "distinct (map j_id (jobs w))" and "distinct (map q_id (queues w))"
    and "pollCycle env (p, w) = (p', w')" and "q \<in> set (queues w)"
  shows "int (in_flight (q_id q) w') \<le> max (int (in_flight (q_id q) w)) (q_concurrencyLimit q) \<and>
    (q_isPaused q \<longrightarrow>
      filter (\<lambda>j. j_queueId j = q_id q) (jobs w') = filter (\<lambda>j. j_queueId j = q_id q) (jobs w))"
proof (cases "pe_fetch_fails env")
  case None
  let ?qs = "filter (\<lambda>q. \<not> q_isPaused q) (queues w)"
  have "distinct (map q_id ?qs)" using assms(2) by (simp add: distinct_map_filter)
  from poll_queues_visited [OF assms(1) this, of env p] None assms(3)
  have v: "visited (q_id ` set ?qs) ?qs w w'" by (simp add: pollCycle_def)
  show ?thesis
  proof (cases "q_isPaused q")
    case True
    have "q_id q \<notin> q_id ` set ?qs"
      using True assms(2,4) by (auto simp: distinct_map dest: inj_onD)
    then have "filter (\<lambda>j. j_queueId j = q_id q) (jobs w') = filter (\<lambda>j. j_queueId j = q_id q) (jobs w)"
      using v by (simp add: visited_def)
    then show ?thesis by (simp add: in_flight_queue_rows)
  next
    case False
    then show ?thesis using v assms(4) by (simp add: visited_def)
  qed
qed (use assms in \<open>simp add: pollCycle_def\<close>)

definition quiet_cycle :: poll_env where
  "quiet_cycle = \<lparr>pe_fetch_fails = None, pe_claim = (\<lambda>_. calm_env 9), pe_locked = (\<lambda>_. {}),
     pe_during = (\<lambda>_. [])\<rparr>"

definition poll_world :: world where
  "poll_world = empty_world\<lparr>queues := [sample_queue],
     jobs := [sample_job ''a'' 0, sample_job ''b'' 5, sample_job ''c'' 0]\<rparr>"

lemmas poll_defs = poll_world_def quiet_cycle_def sample_defs

theorem pollCycle_respects_queues_witness:
  "int (in_flight ''q'' (snd (pollCycle quiet_cycle (initial_poller, poll_world)))) \<le> 2"
proof -
  obtain p' w' where run: "pollCycle quiet_cycle (initial_poller, poll_world) = (p', w')"
    by (cases "pollCycle quiet_cycle (initial_poller, poll_world)")
  have "distinct (map j_id (jobs poll_world))" "distinct (map q_id (queues poll_world))"
    "sample_queue \<in> set (queues poll_world)" "in_flight ''q'' poll_world = 0"
    by (simp_all add: poll_defs in_flight_def count_where_def in_flight_status_def)
  then show ?thesis
    using pollCycle_respects_queues [OF _ _ run, of sample_queue] run by (simp add: sample_queue_def)
qed

section \<open>Stopping\<close>

text \<open>
  A stop request that arrives while the claim of a queue is awaited: the jobs of that claim are
  in status \<open>claimed\<close> in the database, none of them is launched, and the cycle ends.
\<close>

lemma stop_strands_claimed_jobs:
  assumes "\<not> po_stopping p" and "pe_during env (q_id q) = [Stop_requested]"
    and "claimJobs (pe_claim env (q_id q)) (pe_locked env (q_id q)) (q_id q) (q_concurrencyLimit q) w
      = (Inr ids, w')"
  shows "poll_queues env (q # qs) (p, w) = (stopPoller p, w') \<and>
    po_inFlight (stopPoller p) = po_inFlight p \<and>
    (\<forall>i\<in>set ids. map_option j_status (job_find w' i) = Some Claimed)"
proof -
  have stopped: "launch_all is (stopPoller p) = stopPoller p" for "is"
    by (cases "is") (simp_all add: stopPoller_def)
  have "poll_queues env qs (stopPoller p, w') = (stopPoller p, w')"
    by (cases qs) (simp_all add: stopPoller_def)
  moreover have "map_option j_status (job_find w' i) = Some Claimed" if "i \<in> set ids" for i
  proof -
    obtain ids' where ids': "set ids' \<subseteq> {i. \<exists>j\<in>set (jobs w). j_id j = i \<and> j_queueId j = q_id q \<and> j_status j = Queued}"
        "snd (claimJobs (pe_claim env (q_id q)) (pe_locked env (q_id q)) (q_id q) (q_concurrencyLimit q) w) =
          mark_claimed (clock (pe_claim env (q_id q)) C_transaction) ids' w"
        "\<forall>r. fst (claimJobs (pe_claim env (q_id q)) (pe_locked env (q_id q)) (q_id q) (q_concurrencyLimit q) w) = Inr r \<longrightarrow> r = ids'"
      using claimJobs_result [of w "q_id q" "q_concurrencyLimit q" "pe_claim env (q_id q)" "pe_locked env (q_id q)"]
      by blast
    then have "job_find w i \<noteq> None" and "ids = ids'"
      using that assms(3) by (auto simp: job_find_def find_by_None_iff)
    then show ?thesis using ids' assms(3) that by (auto simp: job_find_mark_claimed)
  qed
  ultimately show ?thesis
    using assms stopped by (simp add: Let_def) (simp add: stopPoller_def)
qed

lemma stop_strands_claimed_jobs_witness:
  "\<exists>w' ids. poll_queues (quiet_cycle\<lparr>pe_during := (\<lambda>_. [Stop_requested])\<rparr>) [sample_queue]
      (initial_poller, poll_world) = (stopPoller initial_poller, w') \<and> ids \<noteq> [] \<and>
    (\<forall>i\<in>set ids. map_option j_status (job_find w' i) = Some Claimed)"
proof -
  let ?env = "quiet_cycle\<lparr>pe_during := (\<lambda>_. [Stop_requested])\<rparr>"
  have "claimJobs (calm_env 9) {} ''q'' 2 poll_world = (Inr [''b'', ''a''], mark_claimed 9 [''b'', ''a''] poll_world)"
    by (simp add: claimJobs_run poll_defs in_flight_def count_where_def in_flight_status_def
        available_slots_def select_for_update_def claimable_def claim_order_def numeral_2_eq_2 Let_def)
  then have "poll_queues ?env [sample_queue] (initial_poller, poll_world) =
      (stopPoller initial_poller, mark_claimed 9 [''b'', ''a''] poll_world) \<and>
      po_inFlight (stopPoller initial_poller) = po_inFlight initial_poller \<and>
      (\<forall>i\<in>set [''b'', ''a'']. map_option j_status
        (job_find (mark_claimed 9 [''b'', ''a''] poll_world) i) = Some Claimed)"
    by (intro stop_strands_claimed_jobs)
      (simp_all add: initial_poller_def quiet_cycle_def sample_queue_def)
  then show ?thesis by (intro exI [of _ "[''b'', ''a'']"] exI) auto
qed



end
