(* ===== verification/Access.thy ===== *)
theory Access
  imports Errors Text Samples
begin

text \<open>
  \<open>api/src/middleware/auth.ts\<close>, \<open>api/src/middleware/rbac.ts\<close> and \<open>ROLE_HIERARCHY\<close> of
  \<open>api/src/types\<close>: who may call a route. The verification of a token is done by
  \<open>@fastify/jwt\<close>, the argument \<open>verify\<close>. A handler reads the request and the database and throws
  the error that becomes the response.
\<close>

record JwtPayload =
  jp_sub :: ident
  jp_email :: string
  jp_role :: string
  jp_type :: string
  jp_jti :: "string option"

record request =
  rq_authorization :: "string option"
  rq_cookies :: "(string \<times> string) list"
  rq_params :: "(string \<times> string) list"
  rq_query :: "(string \<times> string) list"
  rq_body :: json
  rq_ip :: "string option"
  rq_user :: "JwtPayload option"

definition truthy_str :: "string option \<Rightarrow> string option" where
  \<comment> \<open>an optional string as a condition: the empty string counts as absent\<close>
  "truthy_str v = (case v of Some [] \<Rightarrow> None | _ \<Rightarrow> v)"

lemma truthy_str_Some [simp]: "truthy_str v = Some x \<longleftrightarrow> v = Some x \<and> x \<noteq> []"
  by (auto simp: truthy_str_def split: option.splits list.splits)

lemma truthy_str_None: "truthy_str v = None \<longleftrightarrow> v = None \<or> v = Some []"
  by (auto simp: truthy_str_def split: option.splits list.splits)

section \<open>requireAuth\<close>

definition auth_token :: "request \<Rightarrow> string option" where
  "auth_token req =
     (let header = (case rq_authorization req of
            Some h \<Rightarrow> if starts_with ''Bearer '' h then Some (drop 7 h) else None
          | None \<Rightarrow> None)
      in case truthy_str header of
           Some t \<Rightarrow> Some t
         | None \<Rightarrow> truthy_str (map_of (rq_cookies req) ''accessToken''))"

definition requireAuth :: "(request \<Rightarrow> js_error + JwtPayload) \<Rightarrow> request \<Rightarrow> js_error + request" where
  "requireAuth verify req =
     (case auth_token req of
        None \<Rightarrow> Inl (UnauthorizedError ''No authentication token provided'' None)
      | Some token \<Rightarrow>
          (case verify req of
             Inl err \<Rightarrow> Inl (UnauthorizedError ''Invalid or expired token'' None)
           | Inr payload \<Rightarrow>
               if jp_type payload \<noteq> ''access''
               then Inl (UnauthorizedError ''Invalid token type'' None)
               else Inr (req\<lparr>rq_user := Some payload\<rparr>)))"

text \<open>
  A request passes \<open>requireAuth\<close> exactly when it carries a token (a bearer header or the cookie
  \<open>accessToken\<close>) that verifies and is an access token; it then runs as the token's subject. Every
  other request gets a 401, also one with a valid refresh token.
\<close>

lemma requireAuth_accepts:
  "case requireAuth verify req of
     Inl e \<Rightarrow> fst (errorHandler e) = 401 \<and>
       \<not> (auth_token req \<noteq> None \<and> (\<exists>p. verify req = Inr p \<and> jp_type p = ''access''))
   | Inr req' \<Rightarrow> auth_token req \<noteq> None \<and>
       (\<exists>p. verify req = Inr p \<and> jp_type p = ''access'' \<and> req' = req\<lparr>rq_user := Some p\<rparr>)"
  by (auto simp: requireAuth_def UnauthorizedError_def split: option.splits sum.splits if_splits)

section \<open>Roles\<close>

fun ROLE_HIERARCHY :: "OrgMemberRole \<Rightarrow> nat" where
  "ROLE_HIERARCHY Owner = 3"
| "ROLE_HIERARCHY Admin = 2"
| "ROLE_HIERARCHY Member = 1"

fun role_name :: "OrgMemberRole \<Rightarrow> string" where
  "role_name Owner = ''owner''"
| "role_name Admin = ''admin''"
| "role_name Member = ''member''"

lemma ROLE_HIERARCHY_inject [simp]: "ROLE_HIERARCHY a = ROLE_HIERARCHY b \<longleftrightarrow> a = b"
  by (cases a; cases b) simp_all

text \<open>The hierarchy as the order of the roles: a role may do what the roles below it may.\<close>

instantiation OrgMemberRole :: linorder
begin

definition less_eq_OrgMemberRole :: "OrgMemberRole \<Rightarrow> OrgMemberRole \<Rightarrow> bool" where
  "less_eq_OrgMemberRole a b \<longleftrightarrow> ROLE_HIERARCHY a \<le> ROLE_HIERARCHY b"

definition less_OrgMemberRole :: "OrgMemberRole \<Rightarrow> OrgMemberRole \<Rightarrow> bool" where
  "less_OrgMemberRole a b \<longleftrightarrow> ROLE_HIERARCHY a < ROLE_HIERARCHY b"

instance
  by standard (auto simp: less_eq_OrgMemberRole_def less_OrgMemberRole_def)

end

section \<open>Looking up the organization\<close>

definition project_find :: "world \<Rightarrow> ident \<Rightarrow> Project option" where
  "project_find w i = find_by p_id i (projects w)"

definition membership_find :: "world \<Rightarrow> ident \<Rightarrow> ident \<Rightarrow> OrgMembership option" where
  "membership_find w orgId userId =
     find_by (\<lambda>m. (m_orgId m, m_userId m)) (orgId, userId) (org_memberships w)"

text \<open>The \<open>select\<close>s that follow \<open>queue.project.orgId\<close>; the foreign keys make every step found.\<close>

definition project_org :: "world \<Rightarrow> ident \<Rightarrow> ident option" where
  "project_org w i = map_option p_orgId (project_find w i)"

definition queue_org :: "world \<Rightarrow> ident \<Rightarrow> ident option" where
  "queue_org w i = Option.bind (queue_find w i) (\<lambda>q. project_org w (q_projectId q))"

definition job_org :: "world \<Rightarrow> ident \<Rightarrow> ident option" where
  "job_org w i = Option.bind (job_find w i) (\<lambda>j. queue_org w (j_queueId j))"

section \<open>requireOrgMember\<close>

datatype access_point = A_project | A_queue | A_job | A_membership

definition resolve_org :: "(access_point, 'z) env_scheme \<Rightarrow> (string \<times> string) list \<Rightarrow> ident option action" where
  "resolve_org env params =
     (let param = (\<lambda>k. truthy_str (map_of params k)) in
      bindA (case (param ''orgId'', param ''projectId'') of
          (None, Some projectId) \<Rightarrow>
            bindA (callA env A_project (readA (\<lambda>w. project_org w projectId))) (\<lambda>org.
            bindA (someA (NotFoundError ''Project not found'' None) org) (\<lambda>o'. retA (Some o')))
        | (org, _) \<Rightarrow> retA org) (\<lambda>orgId.
      bindA (case (truthy_str orgId, param ''queueId'') of
          (None, Some queueId) \<Rightarrow>
            bindA (callA env A_queue (readA (\<lambda>w. queue_org w queueId))) (\<lambda>org.
            bindA (someA (NotFoundError ''Queue not found'' None) org) (\<lambda>o'. retA (Some o')))
        | _ \<Rightarrow> retA orgId) (\<lambda>orgId.
      case (truthy_str orgId, param ''id'') of
          (None, Some jobId) \<Rightarrow>
            bindA (callA env A_job (readA (\<lambda>w. job_org w jobId))) (\<lambda>org. retA
              (case org of None \<Rightarrow> orgId | Some o' \<Rightarrow> Some o'))
        | _ \<Rightarrow> retA orgId)))"

definition requireOrgMember ::
    "(access_point, 'z) env_scheme \<Rightarrow> OrgMemberRole \<Rightarrow> request \<Rightarrow> unit action" where
  "requireOrgMember env minRole req =
     (case rq_user req of
        None \<Rightarrow> throwA (UnauthorizedError ''Authentication required'' None)
      | Some user \<Rightarrow>
          bindA (resolve_org env (rq_params req)) (\<lambda>org.
          bindA (someA (ForbiddenError ''Cannot determine organization for this resource'' None)
             (truthy_str org)) (\<lambda>orgId.
          bindA (callA env A_membership (readA (\<lambda>w. membership_find w orgId (jp_sub user)))) (\<lambda>m.
          bindA (someA (ForbiddenError ''You are not a member of this organization'' None) m) (\<lambda>membership.
          unlessA (\<not> ROLE_HIERARCHY (m_role membership) < ROLE_HIERARCHY minRole)
            (ForbiddenError (''This action requires at least '' @ [CHR 0x27] @ role_name minRole @
               [CHR 0x27] @ '' role in the organization'') None))))))"

section \<open>What the checks let through\<close>

text \<open>The organization a request is about, as the comment of \<open>requireOrgMember\<close> says it is found.\<close>

definition request_org :: "world \<Rightarrow> (string \<times> string) list \<Rightarrow> ident option" where
  "request_org w params =
     (let param = (\<lambda>k. truthy_str (map_of params k)) in
      case param ''orgId'' of Some orgId \<Rightarrow> Some orgId
      | None \<Rightarrow> (case param ''projectId'' of Some projectId \<Rightarrow> project_org w projectId
      | None \<Rightarrow> (case param ''queueId'' of Some queueId \<Rightarrow> queue_org w queueId
      | None \<Rightarrow> (case param ''id'' of Some jobId \<Rightarrow> job_org w jobId | None \<Rightarrow> None))))"

definition named_orgs :: "world \<Rightarrow> bool" where
  "named_orgs w \<longleftrightarrow> (\<forall>p\<in>set (projects w). p_orgId p \<noteq> [])"

lemma project_org_named: "named_orgs w \<Longrightarrow> project_org w i \<noteq> Some []"
  by (auto simp: project_org_def project_find_def named_orgs_def dest: find_by_SomeD)

lemma org_named:
  "named_orgs w \<Longrightarrow> queue_org w i \<noteq> Some []"
  "named_orgs w \<Longrightarrow> job_org w i \<noteq> Some []"
  by (auto simp: queue_org_def job_org_def bind_eq_Some_conv project_org_named)

lemma truthy_org [simp]:
  "named_orgs w \<Longrightarrow> project_org w i = Some x \<Longrightarrow> x \<noteq> []"
  "named_orgs w \<Longrightarrow> queue_org w i = Some x \<Longrightarrow> x \<noteq> []"
  "named_orgs w \<Longrightarrow> job_org w i = Some x \<Longrightarrow> x \<noteq> []"
  using project_org_named org_named by blast+

lemma truthy_str_id [simp]: "x \<noteq> [] \<Longrightarrow> truthy_str (Some x) = Some x" "truthy_str None = None"
  by (simp_all add: truthy_str_def split: list.split)

lemma resolve_org_run:
  assumes "\<And>p. fails env p = None" and "named_orgs w"
  shows "\<exists>r. resolve_org env params w = (r, w) \<and>
    (case r of Inl e \<Rightarrow> request_org w params = None \<and> fst (errorHandler e) = 404
     | Inr org \<Rightarrow> truthy_str org = request_org w params)"
  using assms
  by (auto simp: resolve_org_def request_org_def Let_def bindA_def readA_def retA_def throwA_def
      someA_def NotFoundError_def split: option.split)

text \<open>
  C14. Authorization: with the database answering, a request of an authenticated user passes
  \<open>requireOrgMember(minRole)\<close> exactly when it resolves to an organization in which the user has a
  membership of at least \<open>minRole\<close>; otherwise the response is 403 or 404. The check changes
  nothing.
\<close>

theorem requireOrgMember_iff:
  assumes "\<And>p. fails env p = None" and "named_orgs w" and "rq_user req = Some user"
  shows "\<exists>r. requireOrgMember env minRole req w = (r, w) \<and>
    (r = Inr () \<longleftrightarrow> (\<exists>orgId m. request_org w (rq_params req) = Some orgId \<and>
       membership_find w orgId (jp_sub user) = Some m \<and> minRole \<le> m_role m)) \<and>
    (case r of Inl e \<Rightarrow> fst (errorHandler e) = 403 \<or> fst (errorHandler e) = 404 | Inr _ \<Rightarrow> True)"
proof -
  obtain r where r: "resolve_org env (rq_params req) w = (r, w)"
      "case r of Inl e \<Rightarrow> request_org w (rq_params req) = None \<and> fst (errorHandler e) = 404
       | Inr org \<Rightarrow> truthy_str org = request_org w (rq_params req)"
    using resolve_org_run [OF assms(1,2)] by blast
  then show ?thesis
    using assms(1,3)
    by (cases r; cases "request_org w (rq_params req)")
      (auto simp: requireOrgMember_def bindA_def readA_def retA_def throwA_def someA_def unlessA_def
        ForbiddenError_def less_eq_OrgMemberRole_def not_less split: option.split)
qed

definition rbac_world :: world where
  "rbac_world = empty_world\<lparr>
     projects := [\<lparr>p_id = ''p'', p_orgId = ''o'', p_name = ''n'', p_apiKey = ''k'', p_createdAt = 0\<rparr>],
     org_memberships := [\<lparr>m_orgId = ''o'', m_userId = ''ann'', m_role = Owner\<rparr>,
       \<lparr>m_orgId = ''o'', m_userId = ''bob'', m_role = Member\<rparr>],
     queues := [sample_queue], jobs := [sample_job ''a'' 0]\<rparr>"

definition request_of :: "ident \<Rightarrow> (string \<times> string) list \<Rightarrow> request" where
  "request_of user params = \<lparr>rq_authorization = None, rq_cookies = [], rq_params = params,
     rq_query = [], rq_body = JNull, rq_ip = None,
     rq_user = Some \<lparr>jp_sub = user, jp_email = [], jp_role = [], jp_type = ''access'', jp_jti = None\<rparr>\<rparr>"

lemmas rbac_defs = rbac_world_def request_of_def sample_defs project_find_def queue_find_def
  job_find_def membership_find_def project_org_def queue_org_def job_org_def

theorem requireOrgMember_iff_witness:
  "fst (requireOrgMember (calm_env 0) Admin (request_of ''ann'' [(''queueId'', ''q'')]) rbac_world) = Inr () \<and>
   fst (requireOrgMember (calm_env 0) Admin (request_of ''bob'' [(''queueId'', ''q'')]) rbac_world) \<noteq> Inr ()"
proof -
  have named: "named_orgs rbac_world" by (simp add: named_orgs_def rbac_defs)
  have org: "request_org rbac_world [(''queueId'', ''q'')] = Some ''o''"
    by (simp add: request_org_def truthy_str_def rbac_defs)
  have roles: "membership_find rbac_world ''o'' ''ann'' = Some \<lparr>m_orgId = ''o'', m_userId = ''ann'', m_role = Owner\<rparr>"
    "membership_find rbac_world ''o'' ''bob'' = Some \<lparr>m_orgId = ''o'', m_userId = ''bob'', m_role = Member\<rparr>"
    by (simp_all add: rbac_defs)
  show ?thesis
    using requireOrgMember_iff [OF _ named, of "calm_env 0" "request_of ''ann'' [(''queueId'', ''q'')]" _ Admin]
      requireOrgMember_iff [OF _ named, of "calm_env 0" "request_of ''bob'' [(''queueId'', ''q'')]" _ Admin]
    by (auto simp: org roles request_of_def less_eq_OrgMemberRole_def)
qed

text \<open>
  A parameter \<open>id\<close> is always taken for a job. On \<open>PATCH /queues/:id\<close> and
  \<open>GET /queues/:id/stats\<close> it names a queue, so everyone is refused, also the owner of the
  organization (unless a job happens to have the queue's id).
\<close>

lemma queue_id_routes_forbidden:
  assumes "fails env A_job = None" and "rq_user req = Some user"
    and "rq_params req = [(''id'', queueId)]" and "job_find w queueId = None"
  shows "\<exists>e. requireOrgMember env minRole req w = (Inl e, w) \<and> fst (errorHandler e) = 403"
proof (cases "queueId = []")
  case True
  with assms show ?thesis
    by (simp add: requireOrgMember_def resolve_org_def Let_def bindA_def retA_def someA_def
        throwA_def truthy_str_def ForbiddenError_def)
next
  case False
  with assms show ?thesis
    by (simp add: requireOrgMember_def resolve_org_def Let_def bindA_def retA_def readA_def someA_def
        throwA_def job_org_def ForbiddenError_def)
qed

lemma queue_id_routes_forbidden_witness:
  "\<exists>e. requireOrgMember (calm_env 0) Admin (request_of ''ann'' [(''id'', ''q'')]) rbac_world =
     (Inl e, rbac_world) \<and> fst (errorHandler e) = 403"
  by (rule queue_id_routes_forbidden [where queueId = "''q''"]) (simp_all add: rbac_defs)

end
