(* ===== verification/RateLimit.thy ===== *)
theory RateLimit
  imports Access
begin

text \<open>
  \<open>api/src/middleware/rateLimit.ts\<close>: a token bucket per identity and endpoint, kept in Redis and
  updated by a Lua script, which Redis runs as one atomic step. Numbers are exact rationals here
  (IEEE doubles in the code), times are seconds. A bucket Redis has expired is \<open>None\<close>.
\<close>

record RateLimitConfig =
  rl_maxTokens :: rat
  rl_windowSecs :: rat

definition JOB_SUBMISSION_LIMIT :: RateLimitConfig where
  "JOB_SUBMISSION_LIMIT = \<lparr>rl_maxTokens = 100, rl_windowSecs = 60\<rparr>"

definition AUTH_LIMIT :: RateLimitConfig where
  "AUTH_LIMIT = \<lparr>rl_maxTokens = 10, rl_windowSecs = 60\<rparr>"

record bucket =
  bk_tokens :: rat
  bk_lastRefill :: rat

section \<open>The script\<close>

definition refilled :: "RateLimitConfig \<Rightarrow> rat \<Rightarrow> bucket option \<Rightarrow> rat" where
  "refilled cfg now b =
     (let tokens = (case b of None \<Rightarrow> rl_maxTokens cfg | Some b \<Rightarrow> bk_tokens b);
          lastRefill = (case b of None \<Rightarrow> now | Some b \<Rightarrow> bk_lastRefill b);
          elapsed = now - lastRefill;
          refill = (elapsed / rl_windowSecs cfg) * rl_maxTokens cfg
      in min (rl_maxTokens cfg) (tokens + refill))"

text \<open>The result \<open>{allowed, retryAfter}\<close> and the bucket stored.\<close>

definition luaScript :: "RateLimitConfig \<Rightarrow> rat \<Rightarrow> bucket option \<Rightarrow> (bool \<times> int) \<times> bucket" where
  "luaScript cfg now b =
     (let tokens = refilled cfg now b in
      if tokens < 1
      then ((False, \<lceil>(1 - tokens) / (rl_maxTokens cfg / rl_windowSecs cfg)\<rceil>),
            \<lparr>bk_tokens = tokens, bk_lastRefill = now\<rparr>)
      else ((True, 0), \<lparr>bk_tokens = tokens - 1, bk_lastRefill = now\<rparr>))"

section \<open>The preHandler\<close>

definition identity_of :: "request \<Rightarrow> string" where
  "identity_of req =
     (case rq_user req of
        Some user \<Rightarrow> jp_sub user
      | None \<Rightarrow> (case rq_ip req of Some ip \<Rightarrow> ip | None \<Rightarrow> ''anonymous''))"

definition bucket_key :: "request \<Rightarrow> string \<Rightarrow> string" where
  "bucket_key req endpoint = ''ratelimit:'' @ identity_of req @ '':'' @ endpoint"

text \<open>The buckets with the time they expire at (\<open>EXPIRE key windowSecs * 2\<close>).\<close>

type_synonym buckets = "string \<Rightarrow> (bucket \<times> rat) option"

definition live_bucket :: "buckets \<Rightarrow> rat \<Rightarrow> string \<Rightarrow> bucket option" where
  "live_bucket bs now key =
     (case bs key of Some (b, expiry) \<Rightarrow> if now < expiry then Some b else None | None \<Rightarrow> None)"

definition rateLimit ::
    "string \<Rightarrow> RateLimitConfig \<Rightarrow> rat \<Rightarrow> request \<Rightarrow> buckets \<Rightarrow> (js_error + unit) \<times> buckets" where
  "rateLimit endpoint cfg now req bs =
     (let key = bucket_key req endpoint in
      case luaScript cfg now (live_bucket bs now key) of
        ((allowed, retryAfter), b) \<Rightarrow>
          (if allowed then Inr () else Inl (RateLimitError retryAfter),
           bs(key \<mapsto> (b, now + rl_windowSecs cfg * 2))))"

section \<open>The rate it admits\<close>

definition sane :: "RateLimitConfig \<Rightarrow> bool" where
  "sane cfg \<longleftrightarrow> 1 \<le> rl_maxTokens cfg \<and> 0 < rl_windowSecs cfg"

definition rate :: "RateLimitConfig \<Rightarrow> rat" where
  "rate cfg = rl_maxTokens cfg / rl_windowSecs cfg"

lemma presets_sane [simp]: "sane JOB_SUBMISSION_LIMIT" "sane AUTH_LIMIT"
  by (simp_all add: sane_def JOB_SUBMISSION_LIMIT_def AUTH_LIMIT_def)

lemma rate_nonneg: "sane cfg \<Longrightarrow> 0 < rate cfg"
  by (simp add: sane_def rate_def)

lemma refilled_Some:
  "refilled cfg now (Some b) = min (rl_maxTokens cfg) (bk_tokens b + (now - bk_lastRefill b) * rate cfg)"
  by (simp add: refilled_def rate_def Let_def)

lemma refilled_None: "refilled cfg now None = rl_maxTokens cfg"
  by (simp add: refilled_def Let_def)

lemma refilled_le: "refilled cfg now b \<le> rl_maxTokens cfg"
  by (simp add: refilled_def Let_def)

text \<open>A bucket written by the script holds between 0 and \<open>maxTokens\<close> tokens.\<close>

definition filled :: "RateLimitConfig \<Rightarrow> bucket \<Rightarrow> bool" where
  "filled cfg b \<longleftrightarrow> 0 \<le> bk_tokens b \<and> bk_tokens b \<le> rl_maxTokens cfg"

lemma refilled_nonneg:
  assumes "sane cfg" and "\<And>b'. b = Some b' \<Longrightarrow> filled cfg b' \<and> bk_lastRefill b' \<le> now"
  shows "0 \<le> refilled cfg now b"
proof (cases b)
  case None
  then show ?thesis using assms(1) by (simp add: refilled_None sane_def)
next
  case (Some b')
  have "0 \<le> (now - bk_lastRefill b') * rate cfg"
    using assms(2) [OF Some] rate_nonneg [OF assms(1)] by simp
  then show ?thesis using assms(1) assms(2) [OF Some] by (simp add: Some refilled_Some filled_def sane_def)
qed

lemma luaScript_filled:
  assumes "sane cfg" and "\<And>b'. b = Some b' \<Longrightarrow> filled cfg b' \<and> bk_lastRefill b' \<le> now"
  shows "filled cfg (snd (luaScript cfg now b))" "bk_lastRefill (snd (luaScript cfg now b)) = now"
  using refilled_nonneg [OF assms] refilled_le [of cfg now b]
  by (simp_all add: luaScript_def Let_def filled_def)

text \<open>
  An expired bucket behaves like a stored one: after \<open>2 * windowSecs\<close> without a request it would
  be full again.
\<close>

lemma expiry_harmless:
  assumes "sane cfg" and "filled cfg b" and "bk_lastRefill b + rl_windowSecs cfg * 2 \<le> now"
  shows "luaScript cfg now (Some b) = luaScript cfg now None"
proof -
  have "rl_windowSecs cfg * 2 * rate cfg \<le> (now - bk_lastRefill b) * rate cfg"
    using assms(3) rate_nonneg [OF assms(1)] by (intro mult_right_mono) auto
  moreover have "rl_windowSecs cfg * 2 * rate cfg = 2 * rl_maxTokens cfg"
    using assms(1) by (simp add: rate_def sane_def)
  ultimately have "rl_maxTokens cfg \<le> bk_tokens b + (now - bk_lastRefill b) * rate cfg"
    using assms(1,2) by (simp add: filled_def sane_def)
  then have "refilled cfg now (Some b) = refilled cfg now None"
    by (simp add: refilled_Some refilled_None)
  then show ?thesis by (simp add: luaScript_def)
qed

text \<open>The answers to a series of requests on one bucket, and how many were allowed.\<close>

fun admitted :: "RateLimitConfig \<Rightarrow> rat list \<Rightarrow> bucket option \<Rightarrow> nat" where
  "admitted cfg [] b = 0"
| "admitted cfg (t # ts) b =
     (case luaScript cfg t b of ((allowed, _), b') \<Rightarrow>
        (if allowed then 1 else 0) + admitted cfg ts (Some b'))"

lemma admitted_Some:
  assumes "sane cfg"
  shows "sorted (t0 # ts) \<Longrightarrow> bk_lastRefill b = t0 \<Longrightarrow> filled cfg b \<Longrightarrow>
    of_nat (admitted cfg ts (Some b)) \<le> bk_tokens b + (last (t0 # ts) - t0) * rate cfg"
proof (induction ts arbitrary: t0 b)
  case (Cons t ts)
  let ?tokens = "refilled cfg t (Some b)" and ?r = "luaScript cfg t (Some b)"
  have t: "t0 \<le> t" using Cons.prems(1) by simp
  have f: "filled cfg (snd ?r)" "bk_lastRefill (snd ?r) = t"
    using luaScript_filled [OF assms, of "Some b" t] Cons.prems t by auto
  have "of_nat (admitted cfg ts (Some (snd ?r))) \<le> bk_tokens (snd ?r) + (last (t # ts) - t) * rate cfg"
    using Cons.IH [OF _ f(2,1)] Cons.prems(1) by auto
  moreover have "bk_tokens (snd ?r) + (if fst (fst ?r) then 1 else 0) = ?tokens"
    by (simp add: luaScript_def Let_def)
  moreover have "?tokens \<le> bk_tokens b + (t - t0) * rate cfg"
    using Cons.prems(2) by (simp add: refilled_Some)
  moreover have "admitted cfg (t # ts) (Some b) =
      (if fst (fst ?r) then 1 else 0) + admitted cfg ts (Some (snd ?r))"
    by (simp split: prod.split)
  moreover have "(t - t0) * rate cfg + (last (t # ts) - t) * rate cfg = (last (t # ts) - t0) * rate cfg"
    by (simp only: distrib_right [symmetric]) simp
  ultimately show ?case by (auto simp: split: if_splits)
qed (simp add: filled_def)

lemma admitted_bound:
  assumes "sane cfg" and "sorted (t0 # ts)"
    and "\<And>b'. b = Some b' \<Longrightarrow> filled cfg b' \<and> bk_lastRefill b' \<le> t0"
  shows "of_nat (admitted cfg (t0 # ts) b) \<le> rl_maxTokens cfg + (last (t0 # ts) - t0) * rate cfg"
proof -
  let ?r = "luaScript cfg t0 b"
  have f: "filled cfg (snd ?r)" "bk_lastRefill (snd ?r) = t0"
    using luaScript_filled [OF assms(1,3)] by auto
  have "of_nat (admitted cfg ts (Some (snd ?r))) \<le> bk_tokens (snd ?r) + (last (t0 # ts) - t0) * rate cfg"
    by (rule admitted_Some [OF assms(1,2) f(2,1)])
  moreover have "bk_tokens (snd ?r) + (if fst (fst ?r) then 1 else 0) \<le> rl_maxTokens cfg"
    using refilled_le [of cfg t0 b] by (simp add: luaScript_def Let_def)
  moreover have "admitted cfg (t0 # ts) b =
      (if fst (fst ?r) then 1 else 0) + admitted cfg ts (Some (snd ?r))"
    by (simp split: prod.split)
  ultimately show ?thesis by (auto split: if_splits)
qed

text \<open>A series of requests to one endpoint, and how many with a given key passed.\<close>

fun passed :: "string \<Rightarrow> RateLimitConfig \<Rightarrow> string \<Rightarrow> (rat \<times> request) list \<Rightarrow> buckets \<Rightarrow> nat" where
  "passed endpoint cfg key [] bs = 0"
| "passed endpoint cfg key ((now, req) # rs) bs =
     (case rateLimit endpoint cfg now req bs of (r, bs') \<Rightarrow>
        (if bucket_key req endpoint = key \<and> r = Inr () then 1 else 0) +
        passed endpoint cfg key rs bs')"

definition stored_ok :: "RateLimitConfig \<Rightarrow> (bucket \<times> rat) option \<Rightarrow> rat \<Rightarrow> bool" where
  "stored_ok cfg s now \<longleftrightarrow> (case s of None \<Rightarrow> True
     | Some (b, expiry) \<Rightarrow> filled cfg b \<and> expiry = bk_lastRefill b + rl_windowSecs cfg * 2 \<and>
         bk_lastRefill b \<le> now)"

definition times_of :: "string \<Rightarrow> string \<Rightarrow> (rat \<times> request) list \<Rightarrow> rat list" where
  "times_of endpoint key rs = map fst (filter (\<lambda>(_, req). bucket_key req endpoint = key) rs)"

lemma live_like_stored:
  assumes "sane cfg" and "stored_ok cfg (bs key) now"
  shows "luaScript cfg now (live_bucket bs now key) = luaScript cfg now (map_option fst (bs key))"
proof (cases "bs key")
  case (Some s)
  obtain b e where s: "s = (b, e)" by (cases s)
  show ?thesis
    using assms expiry_harmless [OF assms(1), of b now]
    by (auto simp: Some s live_bucket_def stored_ok_def)
qed (simp add: live_bucket_def)

lemma passed_admitted:
  assumes "sane cfg"
  shows "sorted (now0 # map fst rs) \<Longrightarrow> stored_ok cfg (bs key) now0 \<Longrightarrow>
    passed endpoint cfg key rs bs = admitted cfg (times_of endpoint key rs) (map_option fst (bs key))"
proof (induction rs arbitrary: bs now0)
  case (Cons r rs)
  obtain now req where r: "r = (now, req)" by (cases r)
  have now: "now0 \<le> now" "sorted (now # map fst rs)" using Cons.prems(1) r by simp_all
  have ok: "stored_ok cfg (bs key) now"
    using Cons.prems(2) now(1) by (auto simp: stored_ok_def split: option.splits)
  let ?bs' = "snd (rateLimit endpoint cfg now req bs)"
  show ?case
  proof (cases "bucket_key req endpoint = key")
    case True
    let ?s = "luaScript cfg now (map_option fst (bs key))"
    have s: "?bs' key = Some (snd ?s, now + rl_windowSecs cfg * 2)"
      "fst (rateLimit endpoint cfg now req bs) = Inr () \<longleftrightarrow> fst (fst ?s)"
      using True live_like_stored [of cfg bs key now, OF assms ok]
      by (auto simp: rateLimit_def Let_def split: prod.split)
    have before: "filled cfg b' \<and> bk_lastRefill b' \<le> now" if "map_option fst (bs key) = Some b'" for b'
      using that ok by (auto simp: stored_ok_def)
    note luaScript_filled [OF assms this, of "map_option fst (bs key)"]
    then have "filled cfg (snd ?s)" "bk_lastRefill (snd ?s) = now" by blast+
    then have "stored_ok cfg (?bs' key) now" by (simp add: stored_ok_def s)
    from Cons.IH [where bs = ?bs', OF now(2) this] show ?thesis
      using True s by (simp add: r times_of_def case_prod_beta)
  next
    case False
    then have "?bs' key = bs key"
      by (auto simp: rateLimit_def Let_def split: prod.split)
    with Cons.IH [OF now(2), of ?bs'] ok False show ?thesis
      by (simp add: r times_of_def case_prod_beta)
  qed
qed (simp add: times_of_def)

text \<open>
  C17. Of any series of requests, of any users and at any (not decreasing) times, at most
  \<open>maxTokens + maxTokens / windowSecs * T\<close> requests of one identity pass, where \<open>T\<close> is the time
  from its first to its last request: 100 job submissions in a burst and 100 a minute after that.
  Expired keys and other identities change nothing in this.
\<close>

theorem rate_limit_bound:
  assumes "sane cfg" and "sorted (map fst rs)" and "stored_ok cfg (bs key) (fst (hd rs))"
    and "times_of endpoint key rs = t0 # ts"
  shows "of_nat (passed endpoint cfg key rs bs) \<le>
    rl_maxTokens cfg + (last (t0 # ts) - t0) * (rl_maxTokens cfg / rl_windowSecs cfg)"
proof -
  have ne: "rs \<noteq> []" using assms(4) by (auto simp: times_of_def)
  have hd: "\<forall>t\<in>set (map fst rs). fst (hd rs) \<le> t"
    using assms(2) ne by (cases rs) auto
  then have "sorted (fst (hd rs) # map fst rs)" using assms(2) by simp
  note eq = passed_admitted [where bs = bs and key = key and endpoint = endpoint,
      OF assms(1) this assms(3)]
  have "t0 \<in> set (map fst rs)"
    using assms(4) by (force simp: times_of_def Cons_eq_map_conv dest: filter_eq_ConsD)
  then have "fst (hd rs) \<le> t0" using hd by blast
  then have b: "filled cfg b' \<and> bk_lastRefill b' \<le> t0" if "map_option fst (bs key) = Some b'" for b'
    using that assms(3) by (auto simp: stored_ok_def)
  have "sorted (times_of endpoint key rs)"
    using assms(2) unfolding times_of_def by (rule sorted_filter)
  then have "sorted (t0 # ts)" using assms(4) by simp
  from admitted_bound [OF assms(1) this b] show ?thesis
    unfolding eq assms(4) rate_def .
qed

theorem rate_limit_bound_witness:
  "of_nat (passed ''auth'' AUTH_LIMIT (bucket_key (request_of ''ann'' []) ''auth'')
     (map (\<lambda>t. (t, request_of ''ann'' [])) [0, 1, 2, 60]) (\<lambda>_. None)) \<le> (20 :: rat)"
proof -
  have "times_of ''auth'' (bucket_key (request_of ''ann'' []) ''auth'')
      (map (\<lambda>t. (t, request_of ''ann'' [])) [0, 1, 2, 60]) = [0, 1, 2, 60]"
    by (simp add: times_of_def)
  from rate_limit_bound [OF _ _ _ this, of AUTH_LIMIT "\<lambda>_. None"] show ?thesis
    by (simp add: stored_ok_def) (simp add: AUTH_LIMIT_def)
qed

text \<open>
  A client that was refused and waits the announced \<open>Retry-After\<close> seconds (at least one)
  passes, if no other request of its identity comes in between.
\<close>

lemma retry_after_suffices:
  assumes "sane cfg" and "stored_ok cfg (bs (bucket_key req endpoint)) now"
    and "rateLimit endpoint cfg now req bs = (Inl (RateLimitError retryAfter), bs')"
    and "now + of_int retryAfter \<le> later"
  shows "1 \<le> retryAfter \<and> fst (rateLimit endpoint cfg later req bs') = Inr ()"
proof -
  let ?key = "bucket_key req endpoint" and ?b = "live_bucket bs now (bucket_key req endpoint)"
  let ?tokens = "refilled cfg now ?b"
  have b: "filled cfg b' \<and> bk_lastRefill b' \<le> now" if "?b = Some b'" for b'
    using that assms(2) by (auto simp: live_bucket_def stored_ok_def split: option.splits if_splits)
  have low: "?tokens < 1" and ra: "retryAfter = \<lceil>(1 - ?tokens) / rate cfg\<rceil>"
    and bs': "bs' ?key = Some (\<lparr>bk_tokens = ?tokens, bk_lastRefill = now\<rparr>, now + rl_windowSecs cfg * 2)"
    using assms(3)
    by (auto simp: rateLimit_def Let_def luaScript_def RateLimitError_def jint_def rate_def
        split: prod.splits if_splits)
  have pos: "0 < (1 - ?tokens) / rate cfg" using low rate_nonneg [OF assms(1)] by simp
  then have one: "1 \<le> retryAfter" unfolding ra by simp
  have "(1 - ?tokens) / rate cfg \<le> later - now"
    using assms(4) ra le_of_int_ceiling [of "(1 - ?tokens) / rate cfg"] by linarith
  then have "1 - ?tokens \<le> (later - now) * rate cfg"
    using rate_nonneg [OF assms(1)] by (simp add: pos_divide_le_eq)
  then have "\<not> refilled cfg later (Some \<lparr>bk_tokens = ?tokens, bk_lastRefill = now\<rparr>) < 1"
    using assms(1) by (simp add: refilled_Some sane_def min_less_iff_disj)
  moreover have "\<not> refilled cfg later None < 1" using assms(1) by (simp add: refilled_None sane_def)
  ultimately have "fst (fst (luaScript cfg later (live_bucket bs' later ?key)))"
    using bs' by (simp add: live_bucket_def luaScript_def Let_def)
  then show ?thesis
    using one by (auto simp: rateLimit_def Let_def split: prod.split)
qed

lemma retry_after_suffices_witness:
  "fst (rateLimit ''auth'' AUTH_LIMIT 1 (request_of ''ann'' [])
     [bucket_key (request_of ''ann'' []) ''auth'' \<mapsto> (\<lparr>bk_tokens = 0, bk_lastRefill = 0\<rparr>, 120)]) =
   Inl (RateLimitError 5) \<and>
   fst (rateLimit ''auth'' AUTH_LIMIT 6 (request_of ''ann'' [])
     (snd (rateLimit ''auth'' AUTH_LIMIT 1 (request_of ''ann'' [])
       [bucket_key (request_of ''ann'' []) ''auth'' \<mapsto> (\<lparr>bk_tokens = 0, bk_lastRefill = 0\<rparr>, 120)]))) = Inr ()"
proof -
  let ?bs = "[bucket_key (request_of ''ann'' []) ''auth'' \<mapsto> (\<lparr>bk_tokens = 0, bk_lastRefill = 0 :: rat\<rparr>, 120)]"
  have "\<lceil>(5::rat)\<rceil> = 5" by simp
  then have run: "rateLimit ''auth'' AUTH_LIMIT 1 (request_of ''ann'' []) ?bs =
      (Inl (RateLimitError 5), snd (rateLimit ''auth'' AUTH_LIMIT 1 (request_of ''ann'' []) ?bs))"
    by (simp add: rateLimit_def Let_def live_bucket_def luaScript_def refilled_def AUTH_LIMIT_def)
  have "stored_ok AUTH_LIMIT (?bs (bucket_key (request_of ''ann'' []) ''auth'')) 1"
    by (simp add: stored_ok_def filled_def AUTH_LIMIT_def)
  from retry_after_suffices [OF _ this run, of 6] show ?thesis using arg_cong [OF run, of fst] by simp
qed

end
