(* ===== verification/JobsApi.thy ===== *)
theory JobsApi
  imports Access Pagination RateLimit Invariants "HOL-Library.Product_Lexorder"
begin

text \<open>
  \<open>api/src/routes/jobs.ts\<close>: submission (one job, a batch, a cron definition), listing, detail,
  retry and cancellation. A handler is an action from a request; its value is what it passes to
  \<open>reply.send\<close> with the status code. The check against the schema of the route, which comes before, and
  the serialization by it, which comes after, are in \<open>Server\<close>. The zod schemas are readers of the
  JSON body; \<open>zod\<close>'s test of a date-time string and its error report, \<open>nanoid\<close> and the token verification are arguments (\<open>api_env\<close>).
\<close>

datatype jobs_point =
  J_queue | J_idem | J_cron_now | J_sched_create | J_now | J_create | J_publish |
  J_batch_now | J_batch | J_batch_row nat | J_job | J_member | J_retry | J_cancel |
  J_ids | J_list | J_count

record api_env = "jobs_point env" +
  ae_datetime :: "string \<Rightarrow> timestamp option"  \<comment> \<open>\<open>z.string().datetime()\<close> and \<open>new Date(s)\<close>\<close>
  ae_flatten :: "json \<Rightarrow> json"  \<comment> \<open>\<open>parsed.error.flatten()\<close> for this body\<close>
  ae_nanoid :: ident

section \<open>The schemas\<close>

definition zod_string :: "nat \<Rightarrow> nat option \<Rightarrow> json \<Rightarrow> string option" where
  "zod_string lo hi v = (case v of
     JStr s \<Rightarrow> if lo \<le> length s \<and> (case hi of None \<Rightarrow> True | Some n \<Rightarrow> length s \<le> n) then Some s else None
   | _ \<Rightarrow> None)"

definition zod_record :: "json \<Rightarrow> json option" where
  "zod_record v = (case v of JObj fs \<Rightarrow> Some v | _ \<Rightarrow> None)"

definition zod_int :: "int \<Rightarrow> int \<Rightarrow> json \<Rightarrow> int option" where
  "zod_int lo hi v = (case v of
     JNum q \<Rightarrow> if of_int \<lfloor>q\<rfloor> = q \<and> lo \<le> \<lfloor>q\<rfloor> \<and> \<lfloor>q\<rfloor> \<le> hi then Some \<lfloor>q\<rfloor> else None
   | _ \<Rightarrow> None)"

definition zod_datetime :: "api_env \<Rightarrow> json \<Rightarrow> timestamp option" where
  "zod_datetime env v = (case v of JStr s \<Rightarrow> ae_datetime env s | _ \<Rightarrow> None)"

text \<open>\<open>.optional()\<close>: an absent field is accepted, a present one must pass.\<close>

definition zod_optional :: "(json \<Rightarrow> 'a option) \<Rightarrow> json option \<Rightarrow> 'a option option" where
  "zod_optional f v = (case v of None \<Rightarrow> Some None | Some x \<Rightarrow> map_option Some (f x))"

record CreateJob =
  cj_type :: string
  cj_payload :: json
  cj_runAt :: "timestamp option"
  cj_cronExpression :: "string option"
  cj_retryPolicyId :: "string option"
  cj_idempotencyKey :: "string option"
  cj_priority :: "int option"

definition batchJobSchema :: "api_env \<Rightarrow> json \<Rightarrow> CreateJob option" where
  "batchJobSchema env body =
     (case body of JObj _ \<Rightarrow>
        Option.bind (Option.bind (jget body ''type'') (zod_string 1 (Some 128))) (\<lambda>type.
        Option.bind (zod_optional zod_record (jget body ''payload'')) (\<lambda>payload.
        Option.bind (zod_optional (zod_datetime env) (jget body ''runAt'')) (\<lambda>runAt.
        Option.bind (zod_optional (zod_int 0 100) (jget body ''priority'')) (\<lambda>priority.
        Option.bind (zod_optional (zod_string 0 (Some 256)) (jget body ''idempotencyKey'')) (\<lambda>key.
        Some \<lparr>cj_type = type, cj_payload = (case payload of None \<Rightarrow> JObj [] | Some p \<Rightarrow> p),
          cj_runAt = runAt, cj_cronExpression = None, cj_retryPolicyId = None,
          cj_idempotencyKey = key, cj_priority = priority\<rparr>)))))
      | _ \<Rightarrow> None)"

definition createJobSchema :: "api_env \<Rightarrow> json \<Rightarrow> CreateJob option" where
  "createJobSchema env body =
     Option.bind (batchJobSchema env body) (\<lambda>cj.
     Option.bind (zod_optional (zod_string 0 None) (jget body ''cronExpression'')) (\<lambda>cronExpression.
     Option.bind (zod_optional (zod_string 0 None) (jget body ''retryPolicyId'')) (\<lambda>retryPolicyId.
     Some (cj\<lparr>cj_cronExpression := cronExpression, cj_retryPolicyId := retryPolicyId\<rparr>))))"

definition createBatchSchema :: "api_env \<Rightarrow> json \<Rightarrow> CreateJob list option" where
  "createBatchSchema env body = (case jget body ''jobs'' of
     Some (JArr items) \<Rightarrow>
       (if 1 \<le> length items \<and> length items \<le> 500 then those (map (batchJobSchema env) items) else None)
   | _ \<Rightarrow> None)"

section \<open>Cron helpers\<close>

definition isValidCron :: "string \<Rightarrow> bool" where
  "isValidCron expr \<longleftrightarrow> length (split_ws (trim expr)) = 5"

definition computeNextRunAt :: "string \<Rightarrow> timestamp \<Rightarrow> timestamp" where
  \<comment> \<open>the next minute boundary; the offset of a time zone is a whole number of minutes\<close>
  "computeNextRunAt cronExpression from = 60000 * (from div 60000 + 1)"

section \<open>Rows\<close>

definition sched_create :: "ScheduledJob \<Rightarrow> ScheduledJob action" where
  "sched_create d w =
     (if sched_find w (s_id d) \<noteq> None then (Inl uniqueViolation, w)
      else if queue_find w (s_queueId d) = None \<or> project_find w (s_projectId d) = None
      then (Inl foreignKeyViolation, w)
      else (Inr d, w\<lparr>scheduled_jobs := scheduled_jobs w @ [d]\<rparr>))"

definition status_at :: "timestamp \<Rightarrow> timestamp \<Rightarrow> JobStatus" where
  "status_at runAt now = (if now < runAt then Scheduled else Queued)"

definition or_else :: "'a option \<Rightarrow> 'a \<Rightarrow> 'a" where
  "or_else v d = (case v of None \<Rightarrow> d | Some x \<Rightarrow> x)"

definition new_job ::
    "ident \<Rightarrow> timestamp \<Rightarrow> Queue \<Rightarrow> CreateJob \<Rightarrow> timestamp \<Rightarrow> JobStatus \<Rightarrow> ident option \<Rightarrow> Job" where
  "new_job i created queue cj runAt status batchId =
     \<lparr>j_id = i, j_queueId = q_id queue, j_type = cj_type cj, j_payload = cj_payload cj,
      j_status = status, j_priority = or_else (cj_priority cj) 0, j_runAt = runAt, j_batchId = batchId,
      j_attemptCount = 0,
      j_retryPolicyId = (case cj_retryPolicyId cj of
         None \<Rightarrow> q_defaultRetryPolicyId queue | Some p \<Rightarrow> Some p),
      j_idempotencyKey = cj_idempotencyKey cj, j_createdAt = created, j_updatedAt = created\<rparr>"

definition JNull_or :: "('a \<Rightarrow> json) \<Rightarrow> 'a option \<Rightarrow> json" where
  "JNull_or f v = (case v of None \<Rightarrow> JNull | Some x \<Rightarrow> f x)"

section \<open>POST /queues/:queueId/jobs\<close>

definition idempotent_match :: "ident \<Rightarrow> string \<Rightarrow> Job \<Rightarrow> bool" where
  "idempotent_match queueId key j \<longleftrightarrow> j_queueId j = queueId \<and> j_idempotencyKey j = Some key"

definition create_cron ::
    "api_env \<Rightarrow> Queue \<Rightarrow> CreateJob \<Rightarrow> string \<Rightarrow> (int \<times> json) action" where
  "create_cron env queue cj cronExpression =
     bindA (unlessA (isValidCron cronExpression)
       (ValidationError ''Invalid cron expression - must have 5 fields'' None)) (\<lambda>_.
     let nextRunAt = computeNextRunAt cronExpression (clock env J_cron_now);
         priority = jint (or_else (cj_priority cj) 0)
     in bindA (callA env J_sched_create (sched_create
          \<lparr>s_id = fresh env J_sched_create, s_projectId = q_projectId queue,
           s_cronExpression = cronExpression, s_queueId = q_id queue,
           s_jobTemplate = JObj ([(''type'', JStr (cj_type cj)), (''payload'', cj_payload cj)] @
             jopt ''retryPolicyId'' (map_option JStr (cj_retryPolicyId cj)) @ [(''priority'', priority)]),
           s_isActive = True, s_lastRunAt = None, s_nextRunAt = Some nextRunAt,
           s_createdAt = clock env J_sched_create\<rparr>)) (\<lambda>scheduledJob.
        bindA (callA env J_publish (publish ''job:transitions''
          [(''scheduledJobId'', JStr (s_id scheduledJob)), (''queueId'', JStr (q_id queue)),
           (''projectId'', JStr (q_projectId queue)), (''type'', JStr ''scheduled_job:created''),
           (''cronExpression'', JStr cronExpression), (''nextRunAt'', JDate nextRunAt),
           (''timestamp'', JDate (clock env J_publish))])) (\<lambda>_.
        retA (201, JObj [(''id'', JStr (s_id scheduledJob)), (''type'', JStr ''scheduled''),
          (''status'', JStr ''scheduled''), (''queueId'', JStr (q_id queue)), (''priority'', priority),
          (''runAt'', JDate nextRunAt), (''createdAt'', JDate (s_createdAt scheduledJob)),
          (''scheduledJobId'', JStr (s_id scheduledJob))]))))"

definition create_one_shot :: "api_env \<Rightarrow> Queue \<Rightarrow> CreateJob \<Rightarrow> (int \<times> json) action" where
  "create_one_shot env queue cj =
     (let now = clock env J_now; runAt = or_else (cj_runAt cj) now in
      bindA (callA env J_create (job_create (new_job (fresh env J_create) (clock env J_create) queue cj
        runAt (status_at runAt now) None))) (\<lambda>job.
      bindA (callA env J_publish (publish ''job:transitions''
        [(''jobId'', JStr (j_id job)), (''queueId'', JStr (q_id queue)),
         (''projectId'', JStr (q_projectId queue)), (''status'', JStr (status_name (j_status job))),
         (''timestamp'', JDate (clock env J_publish))])) (\<lambda>_.
      retA (201, JObj [(''id'', JStr (j_id job)), (''type'', JStr (j_type job)),
        (''status'', JStr (status_name (j_status job))), (''queueId'', JStr (j_queueId job)),
        (''priority'', jint (j_priority job)), (''runAt'', JDate (j_runAt job)),
        (''createdAt'', JDate (j_createdAt job)), (''scheduledJobId'', JNull)]))))"

definition createJob :: "api_env \<Rightarrow> request \<Rightarrow> (int \<times> json) action" where
  "createJob env req =
     (let queueId = or_else (map_of (rq_params req) ''queueId'') [] in
      bindA (someA (ValidationError ''Invalid request body'' (Some (ae_flatten env (rq_body req))))
        (createJobSchema env (rq_body req))) (\<lambda>cj.
      bindA (callA env J_queue (readA (\<lambda>w. queue_find w queueId))) (\<lambda>q.
      bindA (someA (NotFoundError ''Queue not found'' None) q) (\<lambda>queue.
      bindA (case truthy_str (cj_idempotencyKey cj) of
          None \<Rightarrow> retA ()
        | Some key \<Rightarrow>
            bindA (callA env J_idem (readA (\<lambda>w. find (idempotent_match queueId key) (jobs w)))) (\<lambda>existing.
            case existing of None \<Rightarrow> retA ()
            | Some j \<Rightarrow> throwA (ConflictError
                (''A job with idempotency_key '' @ [CHR 0x27] @ key @ [CHR 0x27] @
                 '' already exists in this queue'')
                (Some (JObj [(''existingJobId'', JStr (j_id j))]))))) (\<lambda>_.
      case truthy_str (cj_cronExpression cj) of
        Some cronExpression \<Rightarrow> create_cron env queue cj cronExpression
      | None \<Rightarrow> create_one_shot env queue cj)))))"

section \<open>POST /queues/:queueId/jobs/batch\<close>

text \<open>The keys of the batch that are not empty, and the jobs of the queue that already use one.\<close>

definition keysInBatch :: "CreateJob list \<Rightarrow> string list" where
  "keysInBatch cjs = List.map_filter (\<lambda>cj. truthy_str (cj_idempotencyKey cj)) cjs"

definition key_conflicts :: "ident \<Rightarrow> string list \<Rightarrow> world \<Rightarrow> Job list" where
  "key_conflicts queueId keys w =
     filter (\<lambda>j. j_queueId j = queueId \<and>
       (case j_idempotencyKey j of None \<Rightarrow> False | Some k \<Rightarrow> k \<in> set keys)) (jobs w)"

definition batch_rows :: "api_env \<Rightarrow> Queue \<Rightarrow> CreateJob list \<Rightarrow> Job list" where
  "batch_rows env queue cjs =
     map (\<lambda>(n, cj). let now = clock env J_batch_now; runAt = or_else (cj_runAt cj) now in
        new_job (fresh env (J_batch_row n)) (clock env J_batch) queue cj runAt (status_at runAt now)
          (Some (ae_nanoid env)))
       (enumerate 0 cjs)"

definition batch_item :: "Job \<Rightarrow> json" where
  "batch_item j = JObj [(''id'', JStr (j_id j)), (''type'', JStr (j_type j)),
     (''status'', JStr (status_name (j_status j))), (''priority'', jint (j_priority j)),
     (''runAt'', JDate (j_runAt j)), (''idempotencyKey'', JNull_or JStr (j_idempotencyKey j)),
     (''createdAt'', JDate (j_createdAt j))]"

definition createBatch :: "api_env \<Rightarrow> request \<Rightarrow> (int \<times> json) action" where
  "createBatch env req =
     (let queueId = or_else (map_of (rq_params req) ''queueId'') [] in
      bindA (someA (ValidationError ''Invalid request body'' (Some (ae_flatten env (rq_body req))))
        (createBatchSchema env (rq_body req))) (\<lambda>cjs.
      bindA (callA env J_queue (readA (\<lambda>w. queue_find w queueId))) (\<lambda>q.
      bindA (someA (NotFoundError ''Queue not found'' None) q) (\<lambda>queue.
      bindA (if keysInBatch cjs = [] then retA []
             else callA env J_idem (readA (key_conflicts queueId (keysInBatch cjs)))) (\<lambda>conflicts.
      bindA (unlessA (conflicts = []) (ConflictError ''Some jobs have duplicate idempotency keys''
          (Some (JObj [(''conflicts'', JArr (map (\<lambda>c. JObj
             [(''key'', JNull_or JStr (j_idempotencyKey c)), (''existingId'', JStr (j_id c))])
             conflicts))])))) (\<lambda>_.
      bindA (callA env J_batch (atomicA (mapA job_create (batch_rows env queue cjs)))) (\<lambda>js.
      bindA (callA env J_publish (publish ''job:transitions''
        [(''batchId'', JStr (ae_nanoid env)), (''queueId'', JStr queueId),
         (''projectId'', JStr (q_projectId queue)), (''type'', JStr ''batch:created''),
         (''count'', jint (int (length js))), (''timestamp'', JDate (clock env J_publish))])) (\<lambda>_.
      retA (201, JObj [(''batchId'', JStr (ae_nanoid env)), (''count'', jint (int (length js))),
        (''jobs'', JArr (map batch_item js))])))))))))"

section \<open>POST /jobs/:id/retry and /jobs/:id/cancel\<close>

definition retryable :: "JobStatus \<Rightarrow> bool" where
  "retryable s \<longleftrightarrow> s = Failed \<or> s = Dead_letter \<or> s = Cancelled"

definition cancellable :: "JobStatus \<Rightarrow> bool" where
  "cancellable s \<longleftrightarrow> s = Queued \<or> s = Scheduled"

definition quoted :: "string \<Rightarrow> string" where
  "quoted s = [CHR 0x27] @ s @ [CHR 0x27]"

definition job_project :: "world \<Rightarrow> Job \<Rightarrow> ident" where
  "job_project w j = (case queue_find w (j_queueId j) of Some q \<Rightarrow> q_projectId q | None \<Rightarrow> [])"

definition retryJob :: "api_env \<Rightarrow> request \<Rightarrow> (int \<times> json) action" where
  "retryJob env req =
     (let i = or_else (map_of (rq_params req) ''id'') [] in
      bindA (callA env J_job (readA (\<lambda>w. map_option (\<lambda>j. (j, job_project w j, dlq_find w i)) (job_find w i)))) (\<lambda>found.
      bindA (someA (NotFoundError ''Job not found'' None) found) (\<lambda>(job, projectId, deadLetter).
      bindA (unlessA (retryable (j_status job)) (ValidationError
         (''Cannot retry a job with status '' @ quoted (status_name (j_status job)) @
          '' - only failed, dead_letter, or cancelled jobs can be retried'') None)) (\<lambda>_.
      bindA (callA env J_retry (atomicA
         (bindA (if deadLetter = None then retA () else dlq_delete i) (\<lambda>_.
          job_update i (\<lambda>j. j\<lparr>j_status := Queued, j_runAt := clock env J_retry,
            j_attemptCount := 0, j_updatedAt := clock env J_retry\<rparr>))))) (\<lambda>updated.
      bindA (callA env J_publish (publish ''job:transitions''
        [(''jobId'', JStr i), (''queueId'', JStr (j_queueId job)), (''projectId'', JStr projectId),
         (''status'', JStr ''queued''), (''type'', JStr ''job:retried''),
         (''timestamp'', JDate (clock env J_publish))])) (\<lambda>_.
      retA (200, JObj [(''id'', JStr (j_id updated)), (''status'', JStr (status_name (j_status updated))),
        (''runAt'', JDate (j_runAt updated)), (''updatedAt'', JDate (j_updatedAt updated))])))))))"

text \<open>Cancelling reads the job and then updates it, in two calls.\<close>

definition cancel_update :: "api_env \<Rightarrow> ident \<Rightarrow> Job \<Rightarrow> ident \<Rightarrow> (int \<times> json) action" where
  "cancel_update env i job projectId =
     bindA (unlessA (cancellable (j_status job)) (ValidationError
        (''Cannot cancel a job with status '' @ quoted (status_name (j_status job)) @
         '' - only queued or scheduled jobs can be cancelled'') None)) (\<lambda>_.
     bindA (callA env J_cancel (job_update i
        (\<lambda>j. j\<lparr>j_status := Cancelled, j_updatedAt := clock env J_cancel\<rparr>))) (\<lambda>updated.
     bindA (callA env J_publish (publish ''job:transitions''
       [(''jobId'', JStr i), (''queueId'', JStr (j_queueId job)), (''projectId'', JStr projectId),
        (''status'', JStr ''cancelled''), (''type'', JStr ''job:cancelled''),
        (''timestamp'', JDate (clock env J_publish))])) (\<lambda>_.
     retA (200, JObj [(''id'', JStr (j_id updated)), (''status'', JStr (status_name (j_status updated))),
       (''updatedAt'', JDate (j_updatedAt updated))]))))"

definition cancelJob :: "api_env \<Rightarrow> request \<Rightarrow> (int \<times> json) action" where
  "cancelJob env req =
     (let i = or_else (map_of (rq_params req) ''id'') [] in
      bindA (callA env J_job (readA (\<lambda>w. map_option (\<lambda>j. (j, job_project w j)) (job_find w i)))) (\<lambda>found.
      bindA (someA (NotFoundError ''Job not found'' None) found) (\<lambda>(job, projectId).
      cancel_update env i job projectId)))"

section \<open>GET /jobs\<close>

text \<open>\<open>request.user.sub\<close> without a user (not after \<open>requireAuth\<close>) is a \<open>TypeError\<close>.\<close>

definition noUser :: js_error where
  "noUser = PlainError ''Cannot read properties of undefined''"

definition user_orgs :: "world \<Rightarrow> ident \<Rightarrow> ident list" where
  "user_orgs w userId = map m_orgId (filter (\<lambda>m. m_userId m = userId) (org_memberships w))"

definition all_statuses :: "JobStatus list" where
  "all_statuses = [Queued, Scheduled, Claimed, Running, Completed, Failed, Dead_letter, Cancelled]"

definition status_of_name :: "string \<Rightarrow> JobStatus option" where
  "status_of_name s = find (\<lambda>st. status_name st = s) all_statuses"

text \<open>\<open>where\<close>: a filter that is absent or empty does not restrict.\<close>

definition matches :: "string option \<Rightarrow> string option \<Rightarrow> bool" where
  "matches f v = (case truthy_str f of None \<Rightarrow> True | Some x \<Rightarrow> v = Some x)"

definition job_visible :: "world \<Rightarrow> ident list \<Rightarrow> Job \<Rightarrow> bool" where
  "job_visible w orgIds j \<longleftrightarrow> (case queue_org w (j_queueId j) of None \<Rightarrow> False | Some o' \<Rightarrow> o' \<in> set orgIds)"

definition job_where :: "(string \<Rightarrow> string option) \<Rightarrow> ident list \<Rightarrow> world \<Rightarrow> Job \<Rightarrow> bool" where
  "job_where q orgIds w j \<longleftrightarrow> job_visible w orgIds j \<and> matches (q ''queueId'') (Some (j_queueId j)) \<and>
     matches (q ''status'') (Some (status_name (j_status j))) \<and> matches (q ''type'') (Some (j_type j)) \<and>
     matches (q ''batchId'') (j_batchId j)"

definition job_order :: "Job \<Rightarrow> int \<times> int \<times> int" where
  "job_order j = (- j_priority j, j_runAt j, - j_createdAt j)"

definition matching_jobs :: "(string \<Rightarrow> string option) \<Rightarrow> ident list \<Rightarrow> world \<Rightarrow> Job list" where
  "matching_jobs q orgIds w = sort_key job_order (filter (job_where q orgIds w) (jobs w))"

definition prismaInvalid :: js_error where
  "prismaInvalid = PlainError ''Invalid `prisma.job.findMany()` invocation''"

definition meta_json :: "PaginationMeta \<Rightarrow> json" where
  "meta_json m = JObj [(''page'', jint (meta_page m)), (''limit'', jint (meta_limit m)),
     (''total'', jint (meta_total m)), (''totalPages'', jint (meta_totalPages m))]"

definition data_page :: "json list \<Rightarrow> PaginationMeta \<Rightarrow> json" where
  "data_page items m = JObj [(''data'', JArr items), (''meta'', meta_json m)]"

definition executions_of :: "ident \<Rightarrow> world \<Rightarrow> JobExecution list" where
  "executions_of i w =
     sort_key (\<lambda>x. - x_attemptNumber x) (filter (\<lambda>x. x_jobId x = i) (job_executions w))"

definition queue_fields :: "world \<Rightarrow> Job \<Rightarrow> (string \<times> json) list" where
  "queue_fields w j =
     [(''queueName'', JNull_or (\<lambda>q. JStr (q_name q)) (queue_find w (j_queueId j))),
      (''projectId'', JNull_or (\<lambda>q. JStr (q_projectId q)) (queue_find w (j_queueId j)))]"

definition job_item :: "world \<Rightarrow> Job \<Rightarrow> json" where
  "job_item w j = JObj ([(''id'', JStr (j_id j)), (''queueId'', JStr (j_queueId j))] @ queue_fields w j @
     [(''type'', JStr (j_type j)), (''status'', JStr (status_name (j_status j))),
      (''priority'', jint (j_priority j)), (''runAt'', JDate (j_runAt j)),
      (''batchId'', JNull_or JStr (j_batchId j)), (''attemptCount'', jint (j_attemptCount j)),
      (''idempotencyKey'', JNull_or JStr (j_idempotencyKey j)), (''createdAt'', JDate (j_createdAt j)),
      (''updatedAt'', JDate (j_updatedAt j)),
      (''executionCount'', jint (int (length (executions_of (j_id j) w))))])"

definition listJobs :: "api_env \<Rightarrow> request \<Rightarrow> (int \<times> json) action" where
  "listJobs env req =
     (let q = map_of (rq_query req); p = parsePagination (q ''page'') (q ''limit'') in
      bindA (someA noUser (rq_user req)) (\<lambda>user.
      bindA (callA env J_member (readA (\<lambda>w. user_orgs w (jp_sub user)))) (\<lambda>orgIds.
      bindA (unlessA (case truthy_str (q ''status'') of None \<Rightarrow> True | Some s \<Rightarrow> status_of_name s \<noteq> None)
        prismaInvalid) (\<lambda>_.
      bindA (callA env J_list (readA (\<lambda>w. map (job_item w) (paginate p (matching_jobs q orgIds w))))) (\<lambda>js.
      bindA (callA env J_count (readA (\<lambda>w. length (matching_jobs q orgIds w)))) (\<lambda>n.
      retA (200, data_page js (buildMeta (int n) (pg_page p) (pg_limit p)))))))))"

section \<open>GET /jobs/:id, its executions and its logs\<close>

text \<open>
  The check the three routes share: the job exists and the user is a member of its organization.
  \<open>g\<close> is what the route reads together with the job. Log rows and dead letters have ids of their
  own that nothing refers to; these, and the name and creation time of a retry policy, are left out
  of the model and of the answers.
\<close>

definition readable_job :: "api_env \<Rightarrow> request \<Rightarrow> (world \<Rightarrow> Job \<Rightarrow> 'a) \<Rightarrow> 'a action" where
  "readable_job env req g =
     (let i = or_else (map_of (rq_params req) ''id'') [] in
      bindA (callA env J_job (readA (\<lambda>w. Option.bind (job_find w i) (\<lambda>j.
         map_option (\<lambda>o'. (g w j, o')) (queue_org w (j_queueId j)))))) (\<lambda>found.
      bindA (someA (NotFoundError ''Job not found'' None) found) (\<lambda>(x, orgId).
      bindA (someA noUser (rq_user req)) (\<lambda>user.
      bindA (callA env J_member (readA (\<lambda>w. membership_find w orgId (jp_sub user)))) (\<lambda>m.
      bindA (someA (NotFoundError ''Job not found'' None) m) (\<lambda>_. retA x))))))"

definition logs_of :: "ident set \<Rightarrow> world \<Rightarrow> JobLog list" where
  "logs_of xs w = sort_key l_timestamp (filter (\<lambda>l. l_executionId l \<in> xs) (job_logs w))"

definition log_fields :: "JobLog \<Rightarrow> (string \<times> json) list" where
  "log_fields l = [(''level'', JStr (l_level l)), (''message'', JStr (l_message l)),
     (''timestamp'', JDate (l_timestamp l))]"

definition execution_fields :: "JobExecution \<Rightarrow> (string \<times> json) list" where
  "execution_fields x =
     [(''id'', JStr (x_id x)), (''jobId'', JStr (x_jobId x)),
      (''attemptNumber'', jint (x_attemptNumber x)), (''status'', JStr (x_status x)),
      (''workerId'', JStr (x_workerId x)), (''startedAt'', JDate (x_startedAt x)),
      (''finishedAt'', JNull_or JDate (x_finishedAt x)), (''durationMs'', JNull_or jint (x_durationMs x)),
      (''errorMessage'', JNull_or JStr (x_errorMessage x))]"

fun strategy_name :: "RetryStrategy \<Rightarrow> string" where
  "strategy_name Fixed = ''fixed''"
| "strategy_name Linear = ''linear''"
| "strategy_name Exponential = ''exponential''"

definition policy_json :: "RetryPolicy \<Rightarrow> json" where
  "policy_json p = JObj [(''id'', JStr (rp_id p)), (''projectId'', JStr (rp_projectId p)),
     (''strategy'', JStr (strategy_name (rp_strategy p))), (''baseDelayMs'', jint (rp_baseDelayMs p)),
     (''maxDelayMs'', jint (rp_maxDelayMs p)), (''maxAttempts'', jint (rp_maxAttempts p))]"

definition dead_letter_json :: "DeadLetterJob \<Rightarrow> json" where
  "dead_letter_json d = JObj [(''originalJobId'', JStr (d_originalJobId d)),
     (''queueId'', JStr (d_queueId d)), (''payload'', d_payload d),
     (''failureReason'', JStr (d_failureReason d)), (''attemptCount'', jint (d_attemptCount d)),
     (''movedAt'', JDate (d_movedAt d))]"

definition latest_execution :: "world \<Rightarrow> ident \<Rightarrow> json" where
  "latest_execution w i = (case executions_of i w of
     [] \<Rightarrow> JNull
   | x # _ \<Rightarrow> JObj (execution_fields x @ [(''logs'', JArr (map
        (\<lambda>l. JObj ((''executionId'', JStr (l_executionId l)) # log_fields l))
        (take 50 (logs_of {x_id x} w))))]))"

text \<open>No code writes the column \<open>cronExpression\<close> of a job: it is null.\<close>

definition job_detail :: "world \<Rightarrow> Job \<Rightarrow> json" where
  "job_detail w j = JObj ([(''id'', JStr (j_id j)), (''queueId'', JStr (j_queueId j))] @ queue_fields w j @
     [(''type'', JStr (j_type j)), (''payload'', j_payload j), (''status'', JStr (status_name (j_status j))),
      (''priority'', jint (j_priority j)), (''runAt'', JDate (j_runAt j)), (''cronExpression'', JNull),
      (''batchId'', JNull_or JStr (j_batchId j)), (''attemptCount'', jint (j_attemptCount j)),
      (''retryPolicyId'', JNull_or JStr (j_retryPolicyId j)),
      (''retryPolicy'', JNull_or policy_json (Option.bind (j_retryPolicyId j) (policy_find w))),
      (''idempotencyKey'', JNull_or JStr (j_idempotencyKey j)), (''createdAt'', JDate (j_createdAt j)),
      (''updatedAt'', JDate (j_updatedAt j)), (''latestExecution'', latest_execution w (j_id j)),
      (''deadLetter'', JNull_or dead_letter_json (dlq_find w (j_id j)))])"

definition getJob :: "api_env \<Rightarrow> request \<Rightarrow> (int \<times> json) action" where
  "getJob env req = bindA (readable_job env req job_detail) (\<lambda>body. retA (200, body))"

definition worker_fields :: "world \<Rightarrow> ident \<Rightarrow> json" where
  "worker_fields w i = JNull_or (\<lambda>v. JObj [(''id'', JStr (wk_id v)), (''hostname'', JStr (wk_hostname v)),
     (''pid'', jint (wk_pid v))]) (worker_find w i)"

definition execution_item :: "world \<Rightarrow> JobExecution \<Rightarrow> json" where
  "execution_item w x = JObj (execution_fields x @ [(''worker'', worker_fields w (x_workerId x)),
     (''logs'', JArr (map (\<lambda>l. JObj (log_fields l)) (take 100 (logs_of {x_id x} w))))])"

definition listExecutions :: "api_env \<Rightarrow> request \<Rightarrow> (int \<times> json) action" where
  "listExecutions env req =
     (let i = or_else (map_of (rq_params req) ''id'') [];
          p = parsePagination (map_of (rq_query req) ''page'') (map_of (rq_query req) ''limit'') in
      bindA (readable_job env req (\<lambda>_ _. ())) (\<lambda>_.
      bindA (callA env J_list (readA (\<lambda>w. map (execution_item w) (paginate p (executions_of i w))))) (\<lambda>xs.
      bindA (callA env J_count (readA (\<lambda>w. length (executions_of i w)))) (\<lambda>n.
      retA (200, data_page xs (buildMeta (int n) (pg_page p) (pg_limit p)))))))"

definition exec_json :: "world \<Rightarrow> ident \<Rightarrow> (JobExecution \<Rightarrow> json) \<Rightarrow> json" where
  "exec_json w i f = JNull_or f (exec_find w i)"

definition log_item :: "world \<Rightarrow> JobLog \<Rightarrow> json" where
  "log_item w l = JObj ([(''executionId'', JStr (l_executionId l)),
     (''attemptNumber'', exec_json w (l_executionId l) (\<lambda>x. jint (x_attemptNumber x))),
     (''workerId'', exec_json w (l_executionId l) (\<lambda>x. JStr (x_workerId x)))] @ log_fields l)"

definition listLogs :: "api_env \<Rightarrow> request \<Rightarrow> (int \<times> json) action" where
  "listLogs env req =
     (let i = or_else (map_of (rq_params req) ''id'') [];
          p = parsePagination (map_of (rq_query req) ''page'') (map_of (rq_query req) ''limit'') in
      bindA (readable_job env req (\<lambda>_ _. ())) (\<lambda>_.
      bindA (callA env J_ids (readA (\<lambda>w. set (map x_id (executions_of i w))))) (\<lambda>ids.
      bindA (callA env J_list (readA (\<lambda>w. map (log_item w) (paginate p (logs_of ids w))))) (\<lambda>ls.
      bindA (callA env J_count (readA (\<lambda>w. length (logs_of ids w)))) (\<lambda>n.
      retA (200, data_page ls (buildMeta (int n) (pg_page p) (pg_limit p))))))))"

end
