(* ===== verification/JobsSpec.thy ===== *)
theory JobsSpec
  imports JobsApi
begin

text \<open>
  What the job routes promise: an accepted submission creates one job, an idempotency key is used
  once per queue, a batch is all or nothing, a retry resets the job and its dead letter together,
  a list shows only jobs of the user's organizations.
\<close>

section \<open>Submission\<close>

definition job_created_event :: "api_env \<Rightarrow> Queue \<Rightarrow> Job \<Rightarrow> string \<times> json" where
  "job_created_event env queue job = (''job:transitions'', JObj
     [(''jobId'', JStr (j_id job)), (''queueId'', JStr (q_id queue)),
      (''projectId'', JStr (q_projectId queue)), (''status'', JStr (status_name (j_status job))),
      (''timestamp'', JDate (clock env J_publish))])"

definition submitted :: "api_env \<Rightarrow> Queue \<Rightarrow> CreateJob \<Rightarrow> Job" where
  "submitted env queue cj =
     (let now = clock env J_now; runAt = or_else (cj_runAt cj) now in
      new_job (fresh env J_create) (clock env J_create) queue cj runAt (status_at runAt now) None)"

lemma submitted_fields [simp]:
  "j_id (submitted env queue cj) = fresh env J_create"
  "j_queueId (submitted env queue cj) = q_id queue"
  "j_idempotencyKey (submitted env queue cj) = cj_idempotencyKey cj"
  "j_attemptCount (submitted env queue cj) = 0"
  by (simp_all add: submitted_def new_job_def Let_def)

lemma submitted_status:
  "j_status (submitted env queue cj) =
    (if clock env J_now < or_else (cj_runAt cj) (clock env J_now) then Scheduled else Queued)"
  by (simp add: submitted_def new_job_def Let_def status_at_def)

lemma queue_find_id: "queue_find w i = Some queue \<Longrightarrow> q_id queue = i"
  by (auto simp: queue_find_def dest: find_by_SomeD)


definition demo_body :: json where
  "demo_body = JObj [(''type'', JStr ''echo''), (''idempotencyKey'', JStr ''k''), (''priority'', jint 3)]"

definition demo_api :: "timestamp \<Rightarrow> api_env" where
  "demo_api t = \<lparr>fails = (\<lambda>_. None), clock = (\<lambda>_. t), fresh = (\<lambda>p. case p of
       J_batch_row n \<Rightarrow> show_nat n | _ \<Rightarrow> ''new''),
     ae_datetime = (\<lambda>_. None),
     ae_flatten = (\<lambda>_. JNull), ae_nanoid = ''batch''\<rparr>"

definition demo_request :: "(string \<times> string) list \<Rightarrow> json \<Rightarrow> request" where
  "demo_request params body = (request_of ''ann'' params)\<lparr>rq_body := body\<rparr>"

definition demo_cj :: CreateJob where
  "demo_cj = \<lparr>cj_type = ''echo'', cj_payload = JObj [], cj_runAt = None, cj_cronExpression = None,
     cj_retryPolicyId = None, cj_idempotencyKey = Some ''k'', cj_priority = Some 3\<rparr>"

lemma demo_schema: "createJobSchema (demo_api t) demo_body = Some demo_cj"
  by (simp add: createJobSchema_def batchJobSchema_def demo_body_def demo_cj_def zod_string_def
      zod_optional_def zod_int_def jint_def)

lemma demo_api_simps [simp]:
  "fails (demo_api t) p = None" "clock (demo_api t) p = t" "fresh (demo_api t) J_create = ''new''"
  by (simp_all add: demo_api_def)

lemma demo_request_simps [simp]:
  "rq_body (demo_request params body) = body" "rq_params (demo_request params body) = params"
  by (simp_all add: demo_request_def request_of_def)

lemma demo_finds [simp]:
  "queue_find rbac_world ''q'' = Some sample_queue" "job_find rbac_world ''new'' = None"
  "jobs rbac_world = [sample_job ''a'' 0]"
  by (simp_all add: rbac_defs)


section \<open>Idempotency keys\<close>

lemma batch_rows_status: "j \<in> set (batch_rows env queue cjs) \<Longrightarrow> j_status j \<noteq> Dead_letter"
  by (auto simp: batch_rows_def Let_def new_job_def status_at_def split: if_splits)

context row_tables
begin

lemma sched_create_R: "guar R (sched_create d)"
  by (rule same_call) (simp add: sched_create_def)

lemma createJob_R: "guar R (createJob env req)"
proof -
  have one: "guar R (create_one_shot env queue cj)" for queue cj
    unfolding create_one_shot_def Let_def
    by (intro walk job_create_R) (simp add: new_job_def status_at_def)
  have cron: "guar R (create_cron env queue cj e)" for queue cj e
    unfolding create_cron_def Let_def by (intro walk sched_create_R)
  show ?thesis unfolding createJob_def Let_def by (intro walk one cron)
qed

lemma createBatch_R: "guar R (createBatch env req)"
proof -
  have rows: "guar R (mapA job_create (batch_rows env queue cjs))" for queue cjs
    by (rule map_guar) (rule job_create_R, rule batch_rows_status)
  show ?thesis
    unfolding createBatch_def Let_def
    by (intro bind_guar some_guar unless_guar ret_guar read_guar if_guar call_R atomic_guar rows table_calls)
qed

end

text \<open>
  Whatever fails and however submissions race in the database, no queue ever holds two jobs
  with the same idempotency key after a submission or a batch, if it held none before.
\<close>

lemma submissions_keep_keys_unique:
  assumes "idempotency_unique w"
  shows "idempotency_unique (snd (createJob env req w)) \<and> idempotency_unique (snd (createBatch env req w))"
  using assms guarD [OF unique_keys.createJob_R, of w] guarD [OF unique_keys.createBatch_R, of w] by blast

lemma submissions_keep_keys_unique_witness:
  "idempotency_unique (snd (createJob (demo_api 5) (demo_request [(''queueId'', ''q'')] demo_body) rbac_world))"
  using submissions_keep_keys_unique [of rbac_world] by (simp add: idempotency_unique_def sample_job_def)

text \<open>
  Submitting again with a key (not empty) that the queue has already seen is answered with 409
  and the id of the existing job, and changes nothing.
\<close>

lemma createJob_duplicate:
  assumes "\<And>p. fails env p = None" and "map_of (rq_params req) ''queueId'' = Some queueId"
    and "createJobSchema env (rq_body req) = Some cj" and "queue_find w queueId = Some queue"
    and "cj_idempotencyKey cj = Some key" and "key \<noteq> []"
    and "k \<in> set (jobs w)" and "idempotent_match queueId key k"
  shows "\<exists>e j. createJob env req w = (Inl e, w) \<and> fst (errorHandler e) = 409 \<and>
    err_details e = Some (JObj [(''existingJobId'', JStr (j_id j))]) \<and>
    j \<in> set (jobs w) \<and> idempotent_match queueId key j"
proof -
  obtain j where j: "find (idempotent_match queueId key) (jobs w) = Some j"
    using assms(7,8) by (cases "find (idempotent_match queueId key) (jobs w)") (auto simp: find_None_iff)
  then have "j \<in> set (jobs w)" "idempotent_match queueId key j"
    by (auto simp: find_Some_iff in_set_conv_nth)
  then show ?thesis
    using assms(1-6) j
    by (auto simp: createJob_def or_else_def bindA_def someA_def retA_def readA_def throwA_def
        ConflictError_def)
qed

lemma createJob_duplicate_witness:
  "\<exists>e. createJob (demo_api 5) (demo_request [(''queueId'', ''q'')] demo_body)
      (rbac_world\<lparr>jobs := [(sample_job ''a'' 0)\<lparr>j_idempotencyKey := Some ''k''\<rparr>]\<rparr>) =
     (Inl e, rbac_world\<lparr>jobs := [(sample_job ''a'' 0)\<lparr>j_idempotencyKey := Some ''k''\<rparr>]\<rparr>) \<and>
     fst (errorHandler e) = 409"
  using createJob_duplicate [of "demo_api 5" "demo_request [(''queueId'', ''q'')] demo_body" "''q''"
      demo_cj "rbac_world\<lparr>jobs := [(sample_job ''a'' 0)\<lparr>j_idempotencyKey := Some ''k''\<rparr>]\<rparr>" sample_queue
      "''k''" "(sample_job ''a'' 0)\<lparr>j_idempotencyKey := Some ''k''\<rparr>"]
  by (auto simp: demo_schema demo_cj_def idempotent_match_def sample_job_def)

section \<open>Batches\<close>

text \<open>Where the action only looked at the state so far, what follows runs on the same state.\<close>

lemma after_read:
  "jobs w \<in> A \<Longrightarrow> jobs (snd (f (g w) w)) \<in> A \<Longrightarrow> jobs (snd (bindA (callA env p (readA g)) f w)) \<in> A"
  by (simp add: bindA_def callA_def readA_def throwA_def split: option.split)

lemma after_guard:
  "jobs w \<in> A \<Longrightarrow> jobs (snd (f () w)) \<in> A \<Longrightarrow> jobs (snd (bindA (unlessA c e) f w)) \<in> A"
  by (simp add: bindA_def unlessA_def retA_def throwA_def)

lemma after_keys:
  "jobs w \<in> A \<Longrightarrow> (\<And>x. jobs (snd (f x w)) \<in> A) \<Longrightarrow>
    jobs (snd (bindA (if c then retA [] else callA env p (readA g)) f w)) \<in> A"
  by (simp add: bindA_def callA_def readA_def throwA_def retA_def split: option.split)

lemma job_create_ok:
  "job_create j w = (Inr i, w') \<Longrightarrow> i = j \<and> w' = w\<lparr>jobs := jobs w @ [j]\<rparr>"
  by (auto simp: job_create_def split: if_splits)

lemma create_all:
  "mapA job_create rows w = (Inr js, w') \<Longrightarrow> js = rows \<and> w' = w\<lparr>jobs := jobs w @ rows\<rparr>"
proof (induction rows arbitrary: w js w')
  case (Cons j rows)
  then obtain i v js' where "job_create j w = (Inr i, v)" "mapA job_create rows v = (Inr js', w')"
      "js = i # js'"
    by (auto simp: bindA_def retA_def split: prod.splits sum.splits)
  with job_create_ok [OF this(1)] Cons.IH [OF this(2)] show ?case by simp
qed (simp add: retA_def)

text \<open>
  C18. A batch is all or nothing: whatever fails and whatever constraint a row violates, after
  \<open>POST .../jobs/batch\<close> either no job has been added or exactly the rows of the batch, in its
  order, all with the batch's id.
\<close>

theorem createBatch_all_or_nothing:
  "jobs (snd (createBatch env req w)) = jobs w \<or>
   (\<exists>queue cjs. createBatchSchema env (rq_body req) = Some cjs \<and>
      jobs (snd (createBatch env req w)) = jobs w @ batch_rows env queue cjs \<and>
      (\<exists>i. queue_find w i = Some queue))"
proof -
  let ?q = "or_else (map_of (rq_params req) ''queueId'') []"
  have frame: "jobs (snd (bindA (callA env J_publish (publish c m)) (\<lambda>_. retA x) v)) = jobs v"
    for c m v and x :: "int \<times> json"
    by (cases "fails env J_publish") (simp_all add: act_defs publish_def)
  have batch: "jobs (snd (bindA (callA env J_batch (atomicA (mapA job_create rows))) rest w)) \<in>
      {jobs w, jobs w @ rows}"
    if "\<And>js v. jobs (snd (rest js v)) = jobs v" for rows and rest :: "Job list \<Rightarrow> (int \<times> json) action"
  proof (cases "mapA job_create rows w")
    case (Pair r w')
    with that create_all [of rows w _ w'] show ?thesis
      by (cases "fails env J_batch"; cases r) (auto simp: bindA_def atomicA_def throwA_def)
  qed
  show ?thesis
  proof (cases "createBatchSchema env (rq_body req)")
    case None
    then show ?thesis by (simp add: createBatch_def Let_def someA_def throwA_def)
  next
    case schema: (Some cjs)
    show ?thesis
    proof (cases "queue_find w ?q")
      case None
      then show ?thesis
        by (cases "fails env J_queue") (simp_all add: createBatch_def Let_def schema act_defs)
    next
      case (Some queue)
      have "jobs (snd (createBatch env req w)) \<in> {jobs w, jobs w @ batch_rows env queue cjs}"
        unfolding createBatch_def Let_def schema someA_def option.case bindA_ret
        by (rule after_read, simp, unfold Some option.case bindA_ret, rule after_keys, simp)
          (rule after_guard, simp, rule batch, rule frame)
      with Some schema show ?thesis by auto
    qed
  qed
qed

end
