(* ===== verification/JobsControl.thy ===== *)
theory JobsControl
  imports JobsSpec ExecutorSpec
begin

text \<open>
  What the routes on one job and the job lists promise: a retry puts the job back and removes its
  dead letter in one transaction, a cancellation is a read and a later write, lists and details
  show a user only the jobs of the user's organizations.
\<close>

section \<open>Retry\<close>

definition retried :: "api_env \<Rightarrow> ident \<Rightarrow> world \<Rightarrow> world" where
  "retried env i w = job_put i (\<lambda>j. j\<lparr>j_status := Queued, j_runAt := clock env J_retry,
       j_attemptCount := 0, j_updatedAt := clock env J_retry\<rparr>)
     (w\<lparr>dead_letter_jobs := filter (\<lambda>d. d_originalJobId d \<noteq> i) (dead_letter_jobs w)\<rparr>)"

definition control_event :: "api_env \<Rightarrow> ident \<Rightarrow> Job \<Rightarrow> ident \<Rightarrow> string \<Rightarrow> string \<Rightarrow> string \<times> json" where
  "control_event env i j projectId status type = (''job:transitions'', JObj
     [(''jobId'', JStr i), (''queueId'', JStr (j_queueId j)),
      (''projectId'', JStr projectId), (''status'', JStr status), (''type'', JStr type),
      (''timestamp'', JDate (clock env J_publish))])"

lemma no_dead_letter:
  "dlq_find w i = None \<Longrightarrow> filter (\<lambda>d. d_originalJobId d \<noteq> i) (dead_letter_jobs w) = dead_letter_jobs w"
  by (auto simp: dlq_find_def find_by_None_iff image_iff intro!: filter_True)

lemma retry_commit:
  assumes "job_find w i = Some j"
  shows "bindA (if dlq_find w i = None then retA () else dlq_delete i) (\<lambda>_.
      job_update i (\<lambda>j. j\<lparr>j_status := Queued, j_runAt := clock env J_retry, j_attemptCount := 0,
        j_updatedAt := clock env J_retry\<rparr>)) w =
    (Inr (j\<lparr>j_status := Queued, j_runAt := clock env J_retry, j_attemptCount := 0,
        j_updatedAt := clock env J_retry\<rparr>), retried env i w)"
  using assms by (cases "dlq_find w i")
    (simp_all add: bindA_def retA_def dlq_delete_def job_update_def retried_def no_dead_letter)

text \<open>
  Retrying a job by hand. A job in \<open>failed\<close>, \<open>dead_letter\<close> or \<open>cancelled\<close> is queued again, due
  at once, with its attempts back at 0, and its dead letter is removed; the answer is 200 and the
  event \<open>job:retried\<close> is published. In any other status the answer is 400 and nothing changes.
\<close>

lemma retryJob_functional:
  assumes "\<And>p. fails env p = None" and "map_of (rq_params req) ''id'' = Some i"
    and "job_find w i = Some j"
  shows "(if retryable (j_status j)
      then \<exists>body. retryJob env req w = (Inr (200, body), (retried env i w)\<lparr>published :=
          published w @ [control_event env i j (job_project w j) ''queued'' ''job:retried'']\<rparr>)
      else \<exists>e. retryJob env req w = (Inl e, w) \<and> fst (errorHandler e) = 400) \<and>
    job_find (retried env i w) i = Some (j\<lparr>j_status := Queued, j_runAt := clock env J_retry,
        j_attemptCount := 0, j_updatedAt := clock env J_retry\<rparr>) \<and>
    dlq_find (retried env i w) i = None"
proof -
  have "dlq_find (retried env i w) i = None"
    by (auto simp: retried_def dlq_find_def find_by_None_iff job_put_def)
  moreover have "job_find (retried env i w) i = Some (j\<lparr>j_status := Queued,
      j_runAt := clock env J_retry, j_attemptCount := 0, j_updatedAt := clock env J_retry\<rparr>)"
    using assms(3) by (simp add: retried_def job_store.get_put)
  moreover have "published (retried env i w) = published w"
    by (simp add: retried_def)
  moreover have "j_id j = i" using assms(3) by (rule job_store.get_key)
  ultimately show ?thesis
    using assms retry_commit [OF assms(3), of env]
    by (cases "retryable (j_status j)")
      (simp_all add: retryJob_def or_else_def run_rules publish_def control_event_def ValidationError_def)
qed

definition buried_world :: world where
  "buried_world = rbac_world\<lparr>jobs := [(sample_job ''a'' 0)\<lparr>j_status := Dead_letter, j_attemptCount := 3\<rparr>],
     dead_letter_jobs := [\<lparr>d_originalJobId = ''a'', d_queueId = ''q'', d_payload = JObj [],
       d_failureReason = ''boom'', d_attemptCount = 3, d_movedAt = 4\<rparr>]\<rparr>"

lemma retryJob_functional_witness:
  "\<exists>body w'. retryJob (demo_api 9) (demo_request [(''id'', ''a'')] JNull) buried_world = (Inr (200, body), w') \<and>
    dead_letter_jobs w' = [] \<and> map j_status (jobs w') = [Queued]"
  using retryJob_functional [of "demo_api 9" "demo_request [(''id'', ''a'')] JNull" "''a''" buried_world
      "(sample_job ''a'' 0)\<lparr>j_status := Dead_letter, j_attemptCount := 3\<rparr>"]
  by (auto simp: buried_world_def job_find_def sample_job_def retryable_def retried_def job_put_def
      update_by_def)

section \<open>Cancellation\<close>

definition cancelled_at :: "api_env \<Rightarrow> Job \<Rightarrow> Job" where
  "cancelled_at env j = j\<lparr>j_status := Cancelled, j_updatedAt := clock env J_cancel\<rparr>"

lemma cancelled_at_fields [simp]:
  "j_id (cancelled_at env j) = j_id j" "j_status (cancelled_at env j) = Cancelled"
  by (simp_all add: cancelled_at_def)

lemma cancel_update_run:
  assumes "\<And>p. fails env p = None" and "job_find w i = Some j" and "cancellable (j_status j0)"
  shows "\<exists>body. cancel_update env i j0 projectId w = (Inr (200, body),
    (job_put i (cancelled_at env) w)\<lparr>published := published w @
      [control_event env i j0 projectId ''cancelled'' ''job:cancelled'']\<rparr>)"
  using assms by (simp add: cancel_update_def run_rules job_update_def cancelled_at_def [abs_def] publish_def
      control_event_def)

text \<open>
  Cancelling a job that no one else touches meanwhile: in \<open>queued\<close> or \<open>scheduled\<close> it becomes
  \<open>cancelled\<close> and the answer is 200; in any other status the answer is 400 and nothing changes.
\<close>

lemma cancelJob_functional:
  assumes "\<And>p. fails env p = None" and "map_of (rq_params req) ''id'' = Some i"
    and "job_find w i = Some j"
  shows "if cancellable (j_status j)
    then \<exists>body. cancelJob env req w = (Inr (200, body),
      (job_put i (cancelled_at env) w)\<lparr>published := published w @
        [control_event env i j (job_project w j) ''cancelled'' ''job:cancelled'']\<rparr>)
    else \<exists>e. cancelJob env req w = (Inl e, w) \<and> fst (errorHandler e) = 400"
proof (cases "cancellable (j_status j)")
  case True
  with cancel_update_run [OF assms(1,3) True, of "job_project w j"] show ?thesis
    using assms by (simp add: cancelJob_def or_else_def run_rules)
next
  case False
  with assms show ?thesis
    by (simp add: cancelJob_def cancel_update_def or_else_def run_rules ValidationError_def)
qed

lemma cancelJob_functional_witness:
  "\<exists>body w'. cancelJob (demo_api 9) (demo_request [(''id'', ''a'')] JNull) rbac_world = (Inr (200, body), w') \<and>
    map j_status (jobs w') = [Cancelled]"
  using cancelJob_functional [of "demo_api 9" "demo_request [(''id'', ''a'')] JNull" "''a''" rbac_world
      "sample_job ''a'' 0"]
  by (auto simp: rbac_defs cancellable_def job_put_def update_by_def)

text \<open>
  The two calls of a cancellation are not one step: when a worker claims the job after the API
  has read it as queued, the API still answers 200 and the claimed job reads \<open>cancelled\<close>; but the
  worker runs it all the same, and a handler that returns leaves it \<open>completed\<close>.
\<close>

lemma cancel_races_with_claim:
  assumes "\<And>p. fails env p = None" and "cancellable (j_status j0)"
    and "job_find w i = Some j" and "j_status j = Claimed"
    and "ready ee workerId w" and "fails ee E_completed = None"
    and "run_handler (ex_handlers ee) (j_type j) (j_payload j) = (logs, Inr ())"
  shows "\<exists>body w1 w2. cancel_update env i j0 projectId w = (Inr (200, body), w1) \<and>
    map_option j_status (job_find w1 i) = Some Cancelled \<and>
    executeJob ee i workerId w1 = (Inr (), w2) \<and>
    map_option j_status (job_find w2 i) = Some Completed"
proof -
  obtain body where c: "cancel_update env i j0 projectId w = (Inr (200, body),
      (job_put i (cancelled_at env) w)\<lparr>published := published w @
        [control_event env i j0 projectId ''cancelled'' ''job:cancelled'']\<rparr>)" (is "_ = (_, ?w1)")
    using cancel_update_run [OF assms(1,3,2)] by blast
  have w1: "job_find ?w1 i = Some (cancelled_at env j)"
    using assms(3) by (simp add: job_store.get_put)
  have "ready ee workerId ?w1"
    using assms(5) unfolding ready_def by (simp add: worker_find_def exec_find_def job_put_def)
  moreover obtain policy where "fetch_job i ?w1 = Some (cancelled_at env j, policy)"
    using w1 by (simp add: fetch_job_def)
  ultimately have "executeJob ee i workerId ?w1 = (Inr (),
      after_success ee (cancelled_at env j) i logs (opened ee (cancelled_at env j) i workerId ?w1))"
    using assms(6,7) by (intro executeJob_cases(1)) (simp_all add: cancelled_at_def)
  moreover have "map_option j_status (job_find (after_success ee (cancelled_at env j) i logs
      (opened ee (cancelled_at env j) i workerId ?w1)) i) = Some Completed"
    using w1 by (simp add: after_success_def Let_def)
  ultimately show ?thesis using c w1 by auto
qed

lemma cancel_races_with_claim_witness:
  "\<exists>body w1 w2. cancel_update (demo_api 9) ''a'' (sample_job ''a'' 0) ''p'' (demo_world ''echo'' 0) = (Inr (200, body), w1) \<and>
    map_option j_status (job_find w1 ''a'') = Some Cancelled \<and>
    executeJob (demo_env 7 ''x'') ''a'' ''v'' w1 = (Inr (), w2) \<and>
    map_option j_status (job_find w2 ''a'') = Some Completed"
proof -
  obtain logs where "run_handler (ex_handlers (demo_env 7 ''x'')) ''echo'' (JObj []) = (logs, Inr ())"
    using demo_run(1) by blast
  then show ?thesis
    using demo_ready [of "''x''" "''echo''" 0]
    by (intro cancel_races_with_claim [where j = "demo_job ''echo'' 0" and logs = logs])
      (simp_all add: cancellable_def demo_defs)
qed

section \<open>Tenants see only their own jobs\<close>

definition member_of :: "world \<Rightarrow> ident \<Rightarrow> ident \<Rightarrow> bool" where
  "member_of w userId orgId \<longleftrightarrow> membership_find w orgId userId \<noteq> None"

definition accessible :: "world \<Rightarrow> ident \<Rightarrow> Job \<Rightarrow> bool" where
  "accessible w userId j \<longleftrightarrow>
     (case queue_org w (j_queueId j) of None \<Rightarrow> False | Some orgId \<Rightarrow> member_of w userId orgId)"

lemma user_orgs_member: "orgId \<in> set (user_orgs w userId) \<longleftrightarrow> member_of w userId orgId"
  by (auto simp: user_orgs_def member_of_def membership_find_def find_by_None_iff)

lemma job_visible_accessible: "job_visible w (user_orgs w userId) j = accessible w userId j"
  by (simp add: job_visible_def accessible_def user_orgs_member split: option.split)

lemma matching_accessible:
  "set (matching_jobs q (user_orgs w userId) w) \<subseteq> {j \<in> set (jobs w). accessible w userId j}"
  by (auto simp: matching_jobs_def job_where_def job_visible_accessible)



text \<open>
  The routes on one job (\<open>GET /jobs/:id\<close>, its executions, its logs) answer a user exactly when
  the job exists and the user is a member of its organization. In every other case the error is
  the same, that of a job that does not exist: the routes do not reveal which jobs exist.
\<close>

lemma job_routes_hide_foreign_jobs:
  assumes "\<And>p. fails env p = None" and "rq_user req = Some user"
    and "map_of (rq_params req) ''id'' = Some i" and "route \<in> {getJob, listExecutions, listLogs}"
  shows "if \<exists>j. job_find w i = Some j \<and> accessible w (jp_sub user) j
    then \<exists>body. route env req w = (Inr (200, body), w)
    else route env req w = (Inl (NotFoundError ''Job not found'' None), w)"
proof -
  have gate: "readable_job env req g w =
      (case job_find w i of
         None \<Rightarrow> (Inl (NotFoundError ''Job not found'' None), w)
       | Some j \<Rightarrow> if accessible w (jp_sub user) j then (Inr (g w j), w)
           else (Inl (NotFoundError ''Job not found'' None), w))" for g :: "world \<Rightarrow> Job \<Rightarrow> 'x"
    using assms(1-3)
    by (auto simp: readable_job_def or_else_def run_rules accessible_def member_of_def
        split: option.split)
  show ?thesis
    using assms(1,4) gate [of job_detail] gate [of "\<lambda>_ _. ()"]
    by (auto simp: getJob_def listExecutions_def listLogs_def Let_def run_rules split: option.splits)
qed

lemma job_routes_hide_foreign_jobs_witness:
  "(\<exists>body. getJob (demo_api 9) (demo_request [(''id'', ''a'')] JNull) rbac_world = (Inr (200, body), rbac_world)) \<and>
   getJob (demo_api 9) (request_of ''eve'' [(''id'', ''a'')]) rbac_world =
     (Inl (NotFoundError ''Job not found'' None), rbac_world)"
  using job_routes_hide_foreign_jobs [of "demo_api 9" "demo_request [(''id'', ''a'')] JNull" _ "''a''" getJob rbac_world]
    job_routes_hide_foreign_jobs [of "demo_api 9" "request_of ''eve'' [(''id'', ''a'')]" _ "''a''" getJob rbac_world]
  by (auto simp: demo_request_def rbac_defs accessible_def member_of_def)

section \<open>What the routes do to the tables of jobs\<close>

context row_tables
begin

lemma cancelJob_R: "guar R (cancelJob env req)"
proof -
  have upd: "guar R (job_update i (\<lambda>j. j\<lparr>j_status := Cancelled, j_updatedAt := t\<rparr>))" for i t
    by (rule job_update_R) (simp add: harmless_defs)
  show ?thesis
    unfolding cancelJob_def cancel_update_def Let_def case_prod_beta
    by (intro walk upd)
qed

text \<open>The transaction of a retry: the dead letter goes together with the status \<open>dead_letter\<close>.\<close>

lemma retry_commit_R:
  assumes f: "harmless f" "\<And>j. j_status (f j) \<noteq> Dead_letter"
  shows "guar R (atomicA (bindA (if d = None then retA () else dlq_delete i) (\<lambda>_. job_update i f)))"
proof (rule atomic_commit_guar)
  fix s t x
  assume run: "bindA (if d = None then retA () else dlq_delete i) (\<lambda>_. job_update i f) s = (Inr x, t)"
  show "R s t"
  proof (cases "d = None")
    case True
    with run have "job_update i f s = (Inr x, t)" by simp
    then show ?thesis using job_update_R [OF f(1), of i] by (rule guarD' [rotated])
  next
    case False
    with run have "t = s\<lparr>jobs := update_by j_id i f (jobs s),
        dead_letter_jobs := filter (\<lambda>d. d_originalJobId d \<noteq> i) (dead_letter_jobs s)\<rparr>"
      by (auto simp: bindA_def dlq_delete_def job_update_def job_put_def split: option.splits)
    then show ?thesis using f by (simp add: revive_R harmless_def)
  qed
qed

lemma retryJob_R: "guar R (retryJob env req)"
proof -
  have commit: "guar R (atomicA (bindA (if d = None then retA () else dlq_delete i) (\<lambda>_.
     job_update i (\<lambda>j. j\<lparr>j_status := Queued, j_runAt := t, j_attemptCount := 0, j_updatedAt := t\<rparr>))))"
    for d i t by (rule retry_commit_R) (simp_all add: harmless_defs)
  show ?thesis
    unfolding retryJob_def Let_def case_prod_beta
    by (intro bind_guar call_R read_guar some_guar unless_guar commit table_calls ret_guar)
qed

end

end
