(* ===== verification/System.thy ===== *)
theory System
  imports JobsControl ClaimProtocol Heartbeat Scheduler Poller
begin

text \<open>
  The services together: any number of workers and API processes on one database. A step of the
  system is one operation of one of them; \<open>service_op\<close> lists the operations with whatever the
  environment decides in each (failures, clocks, ids, requests). The state is the database and the
  jobs that some \<open>claimJobs\<close> has returned and no worker has launched yet. An operation is
  one step here; the interleavings inside a claim and inside a cancellation are studied in
  \<open>ClaimProtocol\<close> and \<open>JobsControl\<close>, the time a handler takes in \<open>Fleet\<close>.
\<close>

datatype service_op =
    Claim "claim_point env" "ident set" ident int
  | Launch exec_env ident ident
  | Reap "reap_point env" int
  | Beat "beat_point env" ident int rat
  | Tick "tick_point env" cron
  | Submit api_env request
  | Submit_batch api_env request
  | Retry api_env request
  | Cancel api_env request

type_synonym system = "world \<times> ident multiset"

fun serve :: "service_op \<Rightarrow> system \<Rightarrow> system" where
  "serve (Claim env locked queueId limit) (w, T) =
     (case claimJobs env locked queueId limit w of
        (Inl err, w') \<Rightarrow> (w', T)
      | (Inr claimedIds, w') \<Rightarrow> (w', T + mset claimedIds))"
| "serve (Launch env jobId workerId) (w, T) =
     (if jobId \<in># T then (snd (executeJob env jobId workerId w), T - {#jobId#}) else (w, T))"
| "serve (Reap env ttl) (w, T) = (snd (reap env ttl w), T)"
| "serve (Beat env workerId n cpu) (w, T) = (snd (write_heartbeat env workerId n cpu w), T)"
| "serve (Tick env cron) (w, T) = (snd (tick env cron w), T)"
| "serve (Submit env req) (w, T) = (snd (createJob env req w), T)"
| "serve (Submit_batch env req) (w, T) = (snd (createBatch env req w), T)"
| "serve (Retry env req) (w, T) = (snd (retryJob env req w), T)"
| "serve (Cancel env req) (w, T) = (snd (cancelJob env req w), T)"

definition run_system :: "service_op list \<Rightarrow> system \<Rightarrow> system" where
  "run_system ops s = fold serve ops s"

lemma run_system_simps [simp]:
  "run_system [] s = s" "run_system (x # ops) s = run_system ops (serve x s)"
  by (simp_all add: run_system_def)

section \<open>Invariants of the tables of jobs\<close>

context job_tables
begin

lemma serve_R: "R (fst s) (fst (serve x s))"
proof (cases s)
  case (Pair w T)
  show ?thesis
  proof (cases x)
    case (Claim env locked q limit)
    then show ?thesis
      using guarD [OF claimJobs_R, of w env locked q limit] Pair
      by (auto split: prod.split sum.split)
  qed (use Pair guarD [OF executeJob_R, of w] guarD [OF reap_R, of w] guarD [OF tick_R, of w]
      guarD [OF write_heartbeat_R, of w] guarD [OF createJob_R, of w] guarD [OF createBatch_R, of w]
      guarD [OF retryJob_R, of w] guarD [OF cancelJob_R, of w] refl_R in auto)
qed

lemma run_R: "R (fst s) (fst (run_system ops s))"
proof (induction ops arbitrary: s)
  case (Cons x ops)
  from trans_R [OF serve_R Cons.IH] show ?case by simp
qed (simp add: refl_R)

end

text \<open>
  Starting with no jobs, whatever the services do in whatever order and whatever fails: every
  job in \<open>dead_letter\<close> has its row in the dead letter queue, no queue holds two jobs with the same
  idempotency key, and job ids are unique.
\<close>

lemma system_invariant:
  assumes "jobs w = []"
  shows "dead_letters_recorded (fst (run_system ops (w, T))) \<and>
    idempotency_unique (fst (run_system ops (w, T))) \<and>
    distinct (map j_id (jobs (fst (run_system ops (w, T)))))"
  using assms dlr.run_R [of "(w, T)" ops] unique_keys.run_R [of "(w, T)" ops] ids_grow.run_R [of "(w, T)" ops]
  by (simp add: dead_letters_recorded_def idempotency_unique_def ids_grow_def)

text \<open>
  No service loses a job: after any operations every job that was there is there, at the same
  place of the table, and new ones come behind.
\<close>

lemma jobs_never_lost:
  "\<exists>new. map j_id (jobs (fst (run_system ops (w, T)))) = map j_id (jobs w) @ new"
  using ids_grow.run_R [of "(w, T)" ops] by (simp add: ids_grow_def)

lemma system_invariant_witness:
  "dead_letters_recorded (fst (run_system [Claim (calm_env 1) {} ''q'' 2] (empty_world, {#})))"
  using system_invariant [of empty_world "[Claim (calm_env 1) {} ''q'' 2]" "{#}"]
  by (simp add: empty_world_def)

section \<open>A job scheduled for later never runs\<close>

text \<open>A job in \<open>scheduled\<close> that has never been started.\<close>

definition asleep :: "ident \<Rightarrow> world \<Rightarrow> bool" where
  "asleep i w \<longleftrightarrow> j_status ` set (filter (\<lambda>j. j_id j = i) (jobs w)) = {Scheduled} \<and>
     i \<notin> x_jobId ` set (job_executions w)"

lemma asleep_find: "asleep i w \<Longrightarrow> \<exists>j. job_find w i = Some j \<and> j_status j = Scheduled"
proof -
  assume a: "asleep i w"
  then have "i \<in> j_id ` set (jobs w)" by (auto simp: asleep_def)
  then obtain j where j: "job_find w i = Some j"
    by (metis job_find_def find_by_None_iff not_None_eq)
  then have "j \<in> set (jobs w)" "j_id j = i" by (auto simp: job_find_def dest: find_by_SomeD)
  with a j show ?thesis by (auto simp: asleep_def)
qed

lemma asleep_same:
  "filter (\<lambda>j. j_id j = i) (jobs t) = filter (\<lambda>j. j_id j = i) (jobs s) \<Longrightarrow>
    x_jobId ` set (job_executions t) \<subseteq> insert k (x_jobId ` set (job_executions s)) \<Longrightarrow> k \<noteq> i \<Longrightarrow>
    asleep i s \<longrightarrow> asleep i t"
  unfolding asleep_def by auto

abbreviation asleep_kept :: "ident \<Rightarrow> world \<Rightarrow> world \<Rightarrow> bool" where
  "asleep_kept i \<equiv> (\<lambda>s t. asleep i s \<longrightarrow> asleep i t)"

lemma filter_update_other:
  "k \<noteq> i \<Longrightarrow> (\<And>r. key (f r) = key r) \<Longrightarrow>
    filter (\<lambda>r. key r = i) (update_by key k f rows) = filter (\<lambda>r. key r = i) rows"
  by (induction rows) (auto simp: update_by_def)

lemma asleep_frame:
  "(\<And>s. jobs (snd (m s)) = jobs s \<and> job_executions (snd (m s)) = job_executions s) \<Longrightarrow> guar (asleep_kept i) m"
  by (rule guarI) (simp add: asleep_def)

lemma asleep_calls:
  shows "keeps_key j_id f \<Longrightarrow> k \<noteq> i \<Longrightarrow> guar (asleep_kept i) (job_update k f)"
    and "guar (asleep_kept i) (job_create j)"
    and "keeps_key x_jobId g \<Longrightarrow> guar (asleep_kept i) (exec_update x g)"
    and "x_jobId e = k \<Longrightarrow> k \<noteq> i \<Longrightarrow> guar (asleep_kept i) (exec_create e)"
proof -
  show "guar (asleep_kept i) (job_update k f)" if "keeps_key j_id f" "k \<noteq> i"
    using that by (intro guarI asleep_same [where k = k])
      (auto simp: job_update_def job_put_def filter_update_other keeps_key_def split: option.split)
  show "guar (asleep_kept i) (job_create j)"
  proof (rule guarI)
    fix s
    have "asleep i s \<Longrightarrow> job_find s (j_id j) = None \<Longrightarrow> j_id j \<noteq> i" using asleep_find [of i s] by auto
    then show "asleep_kept i s (snd (job_create j s))"
      by (auto simp: job_create_def asleep_def)
  qed
  show "guar (asleep_kept i) (exec_update x g)" if "keeps_key x_jobId g"
    using that by (intro guarI) (auto simp: exec_update_def exec_put_def asleep_def update_by_def
        keeps_key_def image_iff split: option.split)
  show "guar (asleep_kept i) (exec_create e)" if "x_jobId e = k" "k \<noteq> i"
    using that by (intro guarI) (auto simp: exec_create_def asleep_def)
qed

lemma asleep_frames:
  shows "guar (asleep_kept i) (log_create l)" and "guar (asleep_kept i) (publish c m)"
    and "guar (asleep_kept i) (worker_update v h)" and "guar (asleep_kept i) (sched_update sj u)"
    and "guar (asleep_kept i) (sched_create d)" and "guar (asleep_kept i) (heartbeat_create b)"
    and "guar (asleep_kept i) (dlq_create dl)" and "guar (asleep_kept i) (dlq_delete k)"
  by (rule asleep_frame, simp add: log_create_def publish_def modifyA_def worker_update_def
      worker_put_def sched_update_def sched_put_def sched_create_def heartbeat_create_def
      dlq_create_def dlq_delete_def split: option.split)+

lemma claimJobs_asleep: "guar (asleep_kept i) (claimJobs env locked q limit)"
proof (rule guarI, rule impI)
  fix w assume a: "asleep i w"
  obtain ids where ids: "set ids \<subseteq> {i. \<exists>j\<in>set (jobs w). j_id j = i \<and> j_queueId j = q \<and> j_status j = Queued}"
      and run: "snd (claimJobs env locked q limit w) = mark_claimed (clock env C_transaction) ids w"
    using claimJobs_result [of w q limit env locked] by blast
  have "i \<notin> set ids" using ids a by (force simp: asleep_def)
  then have "filter (\<lambda>j. j_id j = i) (map (\<lambda>r. if j_id r \<in> set ids then f r else r) rows) =
      filter (\<lambda>j. j_id j = i) rows" if "\<And>r. j_id (f r) = j_id r" for f :: "Job \<Rightarrow> Job" and rows
    using that by (induction rows) auto
  then show "asleep i (snd (claimJobs env locked q limit w))"
    using a unfolding asleep_def run mark_claimed_def update_where_def by simp
qed

lemma claimJobs_not_asleep: "asleep i w \<Longrightarrow> fst (claimJobs env locked q limit w) = Inr ids \<Longrightarrow> i \<notin> set ids"
proof -
  assume a: "asleep i w" and r: "fst (claimJobs env locked q limit w) = Inr ids"
  have "set ids \<subseteq> {i. \<exists>j\<in>set (jobs w). j_id j = i \<and> j_queueId j = q \<and> j_status j = Queued}"
    using claimJobs_result [of w q limit env locked] r by blast
  then show "i \<notin> set ids" using a by (force simp: asleep_def)
qed

lemma executeJob_asleep:
  assumes "k \<noteq> i"
  shows "guar (asleep_kept i) (executeJob env k v)"
proof (rule executeJob_guar [OF keeps.two_state_axioms])
  have upd: "guar (asleep_kept i) (job_update k f)" if "keeps_key j_id f" for f
    using that assms by (rule asleep_calls)
  show "guar (asleep_kept i) (job_update k f)" if "harmless f" for f
    using that by (intro upd) (simp add: harmless_defs)
  show "guar (asleep_kept i) (dead_transaction env job k x n d err logs)" for env job x n d err logs
    unfolding dead_transaction_def flush_logs_def Let_def
    by (intro guar_rules upd asleep_calls asleep_frames) simp_all
  show "guar (asleep_kept i) (exec_create e)" if "x_jobId e = k" for e
    using that assms by (rule asleep_calls)
qed (rule asleep_calls asleep_frames, assumption?)+

lemma reap_asleep: "guar (asleep_kept i) (reap env ttl)"
proof -
  have fail: "guar (asleep_kept i) (modifyA (fail_open_executions v jid now))" for v jid now
    by (rule guarI) (auto simp: modifyA_def fail_open_executions_def asleep_def update_where_def image_iff)
  have requeue: "guar (asleep_kept i) (requeue_orphan env v jid)" if "jid \<noteq> i" for v jid
    using that unfolding requeue_orphan_def
    by (intro guar_rules asleep_calls asleep_frames fail) simp_all
  have "guar (asleep_kept i) (reap_worker env v)" for v
  proof (rule reap_worker_keeps)
    show "i \<notin> set (orphaned_executions v s) \<and> i \<notin> set (claimed_jobs v s)" if "asleep i s" for s
      using that by (auto simp: asleep_def orphaned_executions_def claimed_jobs_def list_ex_iff image_iff)
  qed (rule asleep_frames, rule requeue)
  then show ?thesis unfolding reap_def by (intro guar_rules)
qed

lemma routes_asleep:
  "guar (asleep_kept i) (createJob env req)" "guar (asleep_kept i) (createBatch env req)"
proof -
  have one: "guar (asleep_kept i) (create_one_shot env queue cj)" for queue cj
    unfolding create_one_shot_def Let_def by (intro guar_rules asleep_calls asleep_frames)
  have cron: "guar (asleep_kept i) (create_cron env queue cj e)" for queue cj e
    unfolding create_cron_def Let_def by (intro guar_rules asleep_frames)
  show "guar (asleep_kept i) (createJob env req)"
    unfolding createJob_def Let_def by (intro guar_rules one cron)
  show "guar (asleep_kept i) (createBatch env req)"
    unfolding createBatch_def Let_def by (intro guar_rules asleep_calls asleep_frames)
qed

lemma tick_asleep: "guar (asleep_kept i) (tick env cron)"
  by (rule tick_guar [OF keeps.two_state_axioms]) (rule asleep_calls asleep_frames)+

lemma beat_asleep: "guar (asleep_kept i) (write_heartbeat env v n cpu)"
proof -
  have "guar (asleep_kept i) (modifyA (\<lambda>w. w\<lparr>worker_heartbeats := prune_heartbeats v (worker_heartbeats w)\<rparr>))"
    by (rule asleep_frame) (simp add: modifyA_def)
  then show ?thesis
    unfolding write_heartbeat_def
    by (intro keeps.catch_guar keeps.bind_guar keeps.ret_guar call_guar_keeps asleep_frames)
qed

definition target :: "request \<Rightarrow> ident" where
  "target req = or_else (map_of (rq_params req) ''id'') []"

lemma retryJob_asleep: "guar (asleep_kept i) (retryJob env req)"
proof (cases "target req = i")
  case True
  let ?Q = "\<lambda>found :: (Job \<times> ident \<times> DeadLetterJob option) option.
    \<exists>j p d. found = Some (j, p, d) \<and> j_status j = Scheduled"
  show ?thesis
    unfolding retryJob_def Let_def
  proof (rule keeps_read [where Q = ?Q])
    show "?Q (map_option (\<lambda>j. (j, job_project s j, dlq_find s (or_else (map_of (rq_params req) ''id'') [])))
        (job_find s (or_else (map_of (rq_params req) ''id'') [])))" if "asleep i s" for s
      using asleep_find [OF that] True by (auto simp: target_def)
  qed (auto simp: someA_def unlessA_def retryable_def keeps.throw_guar)
next
  case False
  then have upd: "guar (asleep_kept i) (job_update (or_else (map_of (rq_params req) ''id'') []) f)"
    if "keeps_key j_id f" for f
    using that by (intro asleep_calls) (simp_all add: target_def)
  show ?thesis
    unfolding retryJob_def Let_def case_prod_beta
    by (intro guar_rules upd asleep_frames) simp
qed

lemma cancelJob_asleep:
  assumes "target req \<noteq> i"
  shows "guar (asleep_kept i) (cancelJob env req)"
proof -
  have upd: "guar (asleep_kept i) (job_update (or_else (map_of (rq_params req) ''id'') []) f)"
    if "keeps_key j_id f" for f
    using that assms by (intro asleep_calls) (simp_all add: target_def)
  show ?thesis
    unfolding cancelJob_def cancel_update_def Let_def case_prod_beta
    by (intro guar_rules upd asleep_frames) simp
qed

fun cancels :: "ident \<Rightarrow> service_op \<Rightarrow> bool" where
  "cancels i (Cancel env req) = (target req = i)"
| "cancels i _ = False"

lemma serve_asleep:
  assumes "asleep i (fst s)" and "i \<notin># snd s" and "\<not> cancels i x"
  shows "asleep i (fst (serve x s)) \<and> i \<notin># snd (serve x s)"
proof (cases s)
  case (Pair w T)
  show ?thesis
  proof (cases x)
    case (Claim env locked q limit)
    have "asleep i (snd (claimJobs env locked q limit w))"
      using assms(1) guarD [OF claimJobs_asleep, of i w env locked q limit] Pair by simp
    with claimJobs_not_asleep [of i w env locked q limit] show ?thesis
      using Claim assms Pair by (auto split: prod.split sum.split)
  next
    case (Launch env jobId v)
    then show ?thesis
      using guarD [OF executeJob_asleep, of jobId i w env v] assms Pair by (auto dest: in_diffD)
  next
    case (Cancel env req)
    then show ?thesis using guarD [OF cancelJob_asleep, of req i w env] assms Pair by auto
  qed (use assms Pair guarD [OF reap_asleep, of i w] guarD [OF tick_asleep, of i w]
      guarD [OF beat_asleep, of i w] guarD [OF routes_asleep(1), of i w]
      guarD [OF routes_asleep(2), of i w] guarD [OF retryJob_asleep, of i w] in auto)
qed

text \<open>
  C35. A job that has been submitted with a run time in the future stays \<open>scheduled\<close>, also long
  after that time: whatever workers, schedulers, reapers and clients do and in whatever order, no
  claim returns it and no execution of it is ever created, unless someone cancels it (after which
  it can be retried into the queue). Nothing in the services turns \<open>scheduled\<close> into \<open>queued\<close>.
\<close>

theorem scheduled_job_never_runs:
  assumes "asleep i w" and "i \<notin># T" and "\<not> list_ex (cancels i) ops"
  shows "asleep i (fst (run_system ops (w, T))) \<and> i \<notin># snd (run_system ops (w, T))"
proof -
  have "asleep i (fst s) \<Longrightarrow> i \<notin># snd s \<Longrightarrow> asleep i (fst (run_system ops s)) \<and> i \<notin># snd (run_system ops s)" for s
    using assms(3)
  proof (induction ops arbitrary: s)
    case (Cons x ops)
    then show ?case using serve_asleep [of i s x] by auto
  qed simp
  from this [of "(w, T)"] assms show ?thesis by simp
qed

definition later_api :: api_env where
  "later_api = (demo_api 5)\<lparr>ae_datetime := (\<lambda>_. Some 1000)\<rparr>"

definition later_body :: json where
  "later_body = JObj [(''type'', JStr ''echo''), (''runAt'', JStr ''1970-01-01T00:00:01Z'')]"

lemma later_api_simps [simp]:
  "fails later_api p = None" "clock later_api p = 5" "fresh later_api J_create = ''new''"
  by (simp_all add: later_api_def)

theorem scheduled_job_never_runs_witness:
  "asleep ''new'' (fst (run_system
     [Submit later_api (demo_request [(''queueId'', ''q'')] later_body), Claim (calm_env 5000) {} ''q'' 10]
     (rbac_world, {#})))"
proof -
  have "createJobSchema later_api later_body = Some \<lparr>cj_type = ''echo'', cj_payload = JObj [],
      cj_runAt = Some 1000, cj_cronExpression = None, cj_retryPolicyId = None,
      cj_idempotencyKey = None, cj_priority = None\<rparr>"
    by (simp add: createJobSchema_def batchJobSchema_def later_body_def later_api_def zod_string_def
        zod_optional_def zod_datetime_def)
  then have "asleep ''new'' (fst (serve (Submit later_api (demo_request [(''queueId'', ''q'')] later_body)) (rbac_world, {#})))"
    by (simp add: createJob_def create_one_shot_def or_else_def run_rules job_create_def new_job_def
        truthy_str_def publish_def status_at_def asleep_def idem_clash_def sample_queue_def
        del: set_filter)
      (simp add: rbac_defs del: set_filter)
  from scheduled_job_never_runs [OF this, of "{#}" "[Claim (calm_env 5000) {} ''q'' 10]"]
  show ?thesis by simp
qed

end
