(* ===== verification/AuthApi.thy ===== *)
theory AuthApi
  imports RateLimit
begin

text \<open>
  \<open>api/src/routes/auth.ts\<close>: registration, login, refresh and logout, with the ids of the live
  refresh tokens kept in Redis (\<open>refresh_jtis\<close>, each with its expiry). Signing and verifying
  tokens, \<open>bcrypt\<close>, \<open>nanoid\<close>, zod's test of an email address and its error report are arguments.
  A handler returns the status, the body and the cookies it sets.
\<close>

datatype auth_point =
  U_find | U_user | U_org | U_commit | U_hash | U_compare | U_store | U_check | U_revoke

record auth_env = "auth_point env" +
  au_email :: "string \<Rightarrow> bool"
  au_flatten :: "json \<Rightarrow> json"
  au_nanoid :: string
  au_sign :: "JwtPayload \<Rightarrow> string \<Rightarrow> string"  \<comment> \<open>payload, \<open>expiresIn\<close>\<close>
  au_verify :: "string \<Rightarrow> js_error + JwtPayload"
  au_hash :: "string \<Rightarrow> string"
  au_compare :: "string \<Rightarrow> string \<Rightarrow> bool"
  au_access_ttl :: "string option"  \<comment> \<open>\<open>JWT_ACCESS_EXPIRES_IN\<close>\<close>
  au_refresh_ttl :: "string option"
  au_production :: bool

record Cookie =
  ck_name :: string
  ck_value :: "string option"  \<comment> \<open>\<open>None\<close>: cleared\<close>
  ck_secure :: bool
  ck_path :: string
  ck_maxAge :: int

record Reply =
  re_status :: int
  re_body :: json
  re_cookies :: "Cookie list"

definition REFRESH_TTL_SECONDS :: int where
  "REFRESH_TTL_SECONDS = 7 * 24 * 60 * 60"

definition REFRESH_COOKIE :: string where "REFRESH_COOKIE = ''chronos_refresh''"

definition ACCESS_COOKIE :: string where "ACCESS_COOKIE = ''chronos_access''"

section \<open>The schemas\<close>

record Credentials =
  cr_email :: string
  cr_password :: string
  cr_orgName :: "string option"

definition str_field :: "json \<Rightarrow> string \<Rightarrow> string option" where
  "str_field body k = (case jget body k of Some (JStr s) \<Rightarrow> Some s | _ \<Rightarrow> None)"

definition credentials :: "auth_env \<Rightarrow> nat \<Rightarrow> json \<Rightarrow> Credentials option" where
  \<comment> \<open>\<open>email\<close> and a password of at least so many characters\<close>
  "credentials env least body =
     (case (str_field body ''email'', str_field body ''password'') of
        (Some email, Some password) \<Rightarrow>
          (if au_email env email \<and> least \<le> length password
           then Some \<lparr>cr_email = email, cr_password = password, cr_orgName = None\<rparr> else None)
      | _ \<Rightarrow> None)"

definition registerSchema :: "auth_env \<Rightarrow> json \<Rightarrow> Credentials option" where
  "registerSchema env body =
     Option.bind (credentials env 8 body) (\<lambda>c.
     case jget body ''orgName'' of
       None \<Rightarrow> Some c
     | Some (JStr s) \<Rightarrow> Some (c\<lparr>cr_orgName := Some s\<rparr>)
     | Some _ \<Rightarrow> None)"

definition loginSchema :: "auth_env \<Rightarrow> json \<Rightarrow> Credentials option" where
  "loginSchema env body = credentials env 1 body"

section \<open>Tokens and cookies\<close>

fun user_role_name :: "UserRole \<Rightarrow> string" where
  "user_role_name User_admin = ''admin''"
| "user_role_name User_member = ''member''"

definition or_default :: "string option \<Rightarrow> string \<Rightarrow> string" where
  "or_default v d = (case v of None \<Rightarrow> d | Some x \<Rightarrow> x)"

text \<open>The access token, the refresh token and the id (jti) of the latter.\<close>

definition issueTokens :: "auth_env \<Rightarrow> User \<Rightarrow> string \<times> string \<times> string" where
  "issueTokens env user =
     (let jti = au_nanoid env;
          payload = \<lparr>jp_sub = u_id user, jp_email = u_email user, jp_role = user_role_name (u_role user),
            jp_type = ''access'', jp_jti = None\<rparr>
      in (au_sign env payload (or_default (au_access_ttl env) ''15m''),
          au_sign env (payload\<lparr>jp_type := ''refresh'', jp_jti := Some jti\<rparr>)
            (or_default (au_refresh_ttl env) ''7d''),
          jti))"

definition setRefreshCookie :: "auth_env \<Rightarrow> string \<Rightarrow> Cookie" where
  "setRefreshCookie env token = \<lparr>ck_name = REFRESH_COOKIE, ck_value = Some token,
     ck_secure = au_production env, ck_path = ''/auth'', ck_maxAge = REFRESH_TTL_SECONDS\<rparr>"

definition setAccessCookie :: "auth_env \<Rightarrow> string \<Rightarrow> Cookie" where
  "setAccessCookie env token = \<lparr>ck_name = ACCESS_COOKIE, ck_value = Some token,
     ck_secure = au_production env, ck_path = ''/'', ck_maxAge = 15 * 60\<rparr>"

definition clearCookie :: "string \<Rightarrow> string \<Rightarrow> Cookie" where
  "clearCookie name path =
     \<lparr>ck_name = name, ck_value = None, ck_secure = False, ck_path = path, ck_maxAge = 0\<rparr>"

section \<open>The ids of live refresh tokens\<close>

definition drop_jti :: "string \<Rightarrow> world \<Rightarrow> world" where
  "drop_jti jti w = w\<lparr>refresh_jtis := filter (\<lambda>(k, _). k \<noteq> jti) (refresh_jtis w)\<rparr>"

definition storeRefreshJti :: "auth_env \<Rightarrow> string \<Rightarrow> unit action" where
  "storeRefreshJti env jti = callA env U_store (modifyA (\<lambda>w. (drop_jti jti w)\<lparr>refresh_jtis :=
     refresh_jtis (drop_jti jti w) @ [(jti, clock env U_store + REFRESH_TTL_SECONDS * 1000)]\<rparr>))"

definition jti_live :: "timestamp \<Rightarrow> string \<Rightarrow> world \<Rightarrow> bool" where
  "jti_live now jti w = list_ex (\<lambda>(k, expiry). k = jti \<and> now < expiry) (refresh_jtis w)"

definition isRefreshJtiValid :: "auth_env \<Rightarrow> string \<Rightarrow> bool action" where
  "isRefreshJtiValid env jti = callA env U_check (readA (jti_live (clock env U_check) jti))"

definition revokeRefreshJti :: "auth_env \<Rightarrow> string \<Rightarrow> unit action" where
  "revokeRefreshJti env jti = callA env U_revoke (modifyA (drop_jti jti))"

section \<open>POST /auth/register\<close>

definition user_by_email :: "world \<Rightarrow> string \<Rightarrow> User option" where
  "user_by_email w email = find_by u_email email (users w)"

definition user_find :: "world \<Rightarrow> ident \<Rightarrow> User option" where
  "user_find w i = find_by u_id i (users w)"

definition user_create :: "User \<Rightarrow> User action" where
  "user_create u w =
     (if user_find w (u_id u) \<noteq> None \<or> user_by_email w (u_email u) \<noteq> None
      then (Inl uniqueViolation, w) else (Inr u, w\<lparr>users := users w @ [u]\<rparr>))"

definition org_find :: "world \<Rightarrow> ident \<Rightarrow> Organization option" where
  "org_find w i = find_by o_id i (organizations w)"

definition org_create :: "Organization \<Rightarrow> Organization action" where
  "org_create x w =
     (if org_find w (o_id x) \<noteq> None then (Inl uniqueViolation, w)
      else if user_find w (o_ownerId x) = None then (Inl foreignKeyViolation, w)
      else (Inr x, w\<lparr>organizations := organizations w @ [x]\<rparr>))"

definition membership_create :: "OrgMembership \<Rightarrow> unit action" where
  "membership_create m w =
     (if membership_find w (m_orgId m) (m_userId m) \<noteq> None then (Inl uniqueViolation, w)
      else if org_find w (m_orgId m) = None \<or> user_find w (m_userId m) = None
      then (Inl foreignKeyViolation, w)
      else (Inr (), w\<lparr>org_memberships := org_memberships w @ [m]\<rparr>))"

definition user_json :: "User \<Rightarrow> json" where
  "user_json u = JObj [(''id'', JStr (u_id u)), (''email'', JStr (u_email u)),
     (''role'', JStr (user_role_name (u_role u))), (''createdAt'', JDate (u_createdAt u))]"

definition session_cookies :: "auth_env \<Rightarrow> string \<Rightarrow> string \<Rightarrow> Cookie list" where
  "session_cookies env accessToken refreshToken =
     [setRefreshCookie env refreshToken, setAccessCookie env accessToken]"

definition register_commit :: "auth_env \<Rightarrow> Credentials \<Rightarrow> string \<Rightarrow> (User \<times> Organization) action" where
  "register_commit env c passwordHash =
     callA env U_commit (atomicA
       (bindA (user_create \<lparr>u_id = fresh env U_user, u_email = cr_email c, u_passwordHash = passwordHash,
          u_role = User_member, u_createdAt = clock env U_user\<rparr>) (\<lambda>user.
        bindA (org_create \<lparr>o_id = fresh env U_org,
          o_name = (case cr_orgName c of Some name \<Rightarrow> name
            | None \<Rightarrow> takeWhile (\<lambda>x. x \<noteq> CHR ''@'') (cr_email c) @ [CHR 0x27] @ ''s Org''),
          o_ownerId = u_id user\<rparr>) (\<lambda>org.
        bindA (membership_create \<lparr>m_orgId = o_id org, m_userId = u_id user, m_role = Owner\<rparr>) (\<lambda>_.
        retA (user, org))))))"

definition register :: "auth_env \<Rightarrow> request \<Rightarrow> Reply action" where
  "register env req =
     bindA (someA (ValidationError ''Invalid request body'' (Some (au_flatten env (rq_body req))))
       (registerSchema env (rq_body req))) (\<lambda>c.
     bindA (callA env U_find (readA (\<lambda>w. user_by_email w (cr_email c)))) (\<lambda>existing.
     bindA (unlessA (existing = None) (ConflictError ''A user with this email already exists'' None)) (\<lambda>_.
     bindA (callA env U_hash (retA (au_hash env (cr_password c)))) (\<lambda>passwordHash.
     bindA (register_commit env c passwordHash) (\<lambda>(user, org).
     case issueTokens env user of (accessToken, refreshToken, jti) \<Rightarrow>
     bindA (storeRefreshJti env jti) (\<lambda>_.
     retA \<lparr>re_status = 201, re_body = JObj [(''user'', user_json user), (''accessToken'', JStr accessToken),
          (''organization'', JObj [(''id'', JStr (o_id org)), (''name'', JStr (o_name org))])],
        re_cookies = session_cookies env accessToken refreshToken\<rparr>))))))"

section \<open>POST /auth/login\<close>

definition badCredentials :: js_error where
  "badCredentials = UnauthorizedError ''Invalid email or password'' None"

definition login :: "auth_env \<Rightarrow> request \<Rightarrow> Reply action" where
  "login env req =
     bindA (someA (ValidationError ''Invalid request body'' (Some (au_flatten env (rq_body req))))
       (loginSchema env (rq_body req))) (\<lambda>c.
     bindA (callA env U_find (readA (\<lambda>w. user_by_email w (cr_email c)))) (\<lambda>found.
     bindA (someA badCredentials found) (\<lambda>user.
     bindA (callA env U_compare (retA (au_compare env (cr_password c) (u_passwordHash user)))) (\<lambda>valid.
     bindA (unlessA valid badCredentials) (\<lambda>_.
     case issueTokens env user of (accessToken, refreshToken, jti) \<Rightarrow>
     bindA (storeRefreshJti env jti) (\<lambda>_.
     retA \<lparr>re_status = 200, re_body = JObj [(''user'', user_json user), (''accessToken'', JStr accessToken)],
        re_cookies = session_cookies env accessToken refreshToken\<rparr>))))))"

section \<open>POST /auth/refresh\<close>

text \<open>The part before the first write, and the rotation.\<close>

definition refresh_check :: "auth_env \<Rightarrow> request \<Rightarrow> (User \<times> string) action" where
  "refresh_check env req =
     bindA (someA (UnauthorizedError ''No refresh token provided'' None)
       (truthy_str (map_of (rq_cookies req) REFRESH_COOKIE))) (\<lambda>refreshToken.
     bindA (case au_verify env refreshToken of
         Inl err \<Rightarrow> throwA (UnauthorizedError ''Invalid or expired refresh token'' None)
       | Inr payload \<Rightarrow> retA payload) (\<lambda>payload.
     bindA (unlessA (jp_type payload = ''refresh'') (UnauthorizedError ''Invalid token type'' None)) (\<lambda>_.
     bindA (case truthy_str (jp_jti payload) of
         None \<Rightarrow> retA None
       | Some jti \<Rightarrow> bindA (isRefreshJtiValid env jti) (\<lambda>ok. retA (if ok then Some jti else None))) (\<lambda>live.
     bindA (someA (UnauthorizedError ''Refresh token has been revoked or expired'' None) live) (\<lambda>jti.
     bindA (callA env U_find (readA (\<lambda>w. user_find w (jp_sub payload)))) (\<lambda>found.
     bindA (someA (UnauthorizedError ''User not found'' None) found) (\<lambda>user.
     retA (user, jti))))))))"

definition refresh_rotate :: "auth_env \<Rightarrow> User \<Rightarrow> string \<Rightarrow> Reply action" where
  "refresh_rotate env user jti =
     bindA (revokeRefreshJti env jti) (\<lambda>_.
     case issueTokens env user of (accessToken, newRefresh, newJti) \<Rightarrow>
     bindA (storeRefreshJti env newJti) (\<lambda>_.
     retA \<lparr>re_status = 200, re_body = JObj [(''accessToken'', JStr accessToken)],
       re_cookies = session_cookies env accessToken newRefresh\<rparr>))"

definition refresh :: "auth_env \<Rightarrow> request \<Rightarrow> Reply action" where
  "refresh env req = bindA (refresh_check env req) (\<lambda>(user, jti). refresh_rotate env user jti)"

section \<open>POST /auth/logout\<close>

definition logout :: "auth_env \<Rightarrow> request \<Rightarrow> Reply action" where
  "logout env req =
     bindA (case truthy_str (map_of (rq_cookies req) REFRESH_COOKIE) of
         None \<Rightarrow> retA ()
       | Some refreshToken \<Rightarrow> catchA
           (case au_verify env refreshToken of
              Inl err \<Rightarrow> throwA err
            | Inr payload \<Rightarrow> (case truthy_str (jp_jti payload) of
                None \<Rightarrow> retA () | Some jti \<Rightarrow> revokeRefreshJti env jti))
           (\<lambda>err. retA ())) (\<lambda>_.
     retA \<lparr>re_status = 200, re_body = JObj [(''message'', JStr ''Logged out successfully'')],
       re_cookies = [clearCookie REFRESH_COOKIE ''/auth'', clearCookie ACCESS_COOKIE ''/'']\<rparr>)"

end
