(* ===== verification/AuthSpec.thy ===== *)
theory AuthSpec
  imports AuthApi
begin

text \<open>
  What the authentication routes promise: a registered user can log in with the password and owns a
  new organization; a refresh token that was used or logged out is never accepted again, except by
  refreshes that race with its use.
\<close>

section \<open>Registration and login\<close>

definition registered_user :: "auth_env \<Rightarrow> Credentials \<Rightarrow> User" where
  "registered_user env c = \<lparr>u_id = fresh env U_user, u_email = cr_email c,
     u_passwordHash = au_hash env (cr_password c), u_role = User_member, u_createdAt = clock env U_user\<rparr>"

definition stored :: "auth_env \<Rightarrow> string \<Rightarrow> world \<Rightarrow> world" where
  "stored env jti w = w\<lparr>refresh_jtis := filter (\<lambda>(k, _). k \<noteq> jti) (refresh_jtis w) @
     [(jti, clock env U_store + REFRESH_TTL_SECONDS * 1000)]\<rparr>"

lemma storeRefreshJti_run:
  "fails env U_store = None \<Longrightarrow> storeRefreshJti env jti w = (Inr (), stored env jti w)"
  by (simp add: storeRefreshJti_def modifyA_def drop_jti_def stored_def)


definition demo_auth :: "string \<Rightarrow> timestamp \<Rightarrow> auth_env" where
  "demo_auth jti t = \<lparr>fails = (\<lambda>_. None), clock = (\<lambda>_. t),
     fresh = (\<lambda>p. case p of U_user \<Rightarrow> ''u'' | _ \<Rightarrow> ''org''), au_email = (\<lambda>s. CHR ''@'' \<in> set s),
     au_flatten = (\<lambda>_. JNull), au_nanoid = jti, au_sign = (\<lambda>p _. jp_type p @ or_default (jp_jti p) []),
     au_verify = (\<lambda>s. if starts_with ''refresh'' s
        then Inr \<lparr>jp_sub = ''u'', jp_email = [], jp_role = [], jp_type = ''refresh'', jp_jti = Some (drop 7 s)\<rparr>
        else Inl (PlainError ''invalid'')),
     au_hash = (\<lambda>s. rev s), au_compare = (\<lambda>s h. h = rev s), au_access_ttl = None,
     au_refresh_ttl = None, au_production = False\<rparr>"

definition credentials_request :: "string \<Rightarrow> string \<Rightarrow> request" where
  "credentials_request email password = \<lparr>rq_authorization = None, rq_cookies = [], rq_params = [],
     rq_query = [], rq_body = JObj [(''email'', JStr email), (''password'', JStr password)],
     rq_ip = None, rq_user = None\<rparr>"


section \<open>Refresh tokens\<close>

datatype auth_op =
    Register auth_env request
  | Login auth_env request
  | Refresh auth_env request
  | Logout auth_env request

fun serve_auth :: "auth_op \<Rightarrow> world \<Rightarrow> world" where
  "serve_auth (Register env req) w = snd (register env req w)"
| "serve_auth (Login env req) w = snd (login env req w)"
| "serve_auth (Refresh env req) w = snd (refresh env req w)"
| "serve_auth (Logout env req) w = snd (logout env req w)"

text \<open>The id an operation gives to the refresh token it may issue.\<close>

fun op_nanoid :: "auth_op \<Rightarrow> string" where
  "op_nanoid (Register env req) = au_nanoid env"
| "op_nanoid (Login env req) = au_nanoid env"
| "op_nanoid (Refresh env req) = au_nanoid env"
| "op_nanoid (Logout env req) = au_nanoid env"

definition gone :: "string \<Rightarrow> world \<Rightarrow> bool" where
  "gone jti w \<longleftrightarrow> jti \<notin> fst ` set (refresh_jtis w)"

abbreviation gone_kept :: "string \<Rightarrow> world \<Rightarrow> world \<Rightarrow> bool" where
  "gone_kept jti \<equiv> (\<lambda>s t. gone jti s \<longrightarrow> gone jti t)"

lemma gone_calls:
  shows "k \<noteq> jti \<Longrightarrow> guar (gone_kept jti) (storeRefreshJti env k)"
    and "guar (gone_kept jti) (revokeRefreshJti env k)"
    and "guar (gone_kept jti) (user_create u)" and "guar (gone_kept jti) (org_create x)"
    and "guar (gone_kept jti) (membership_create m)"
proof -
  show "guar (gone_kept jti) (storeRefreshJti env k)" if "k \<noteq> jti"
    unfolding storeRefreshJti_def
    by (rule call_guar_keeps, rule guarI) (use that in \<open>auto simp: modifyA_def drop_jti_def gone_def\<close>)
  show "guar (gone_kept jti) (revokeRefreshJti env k)"
    unfolding revokeRefreshJti_def
    by (rule call_guar_keeps, rule guarI) (auto simp: modifyA_def drop_jti_def gone_def)
qed (rule guarI, simp add: user_create_def org_create_def membership_create_def gone_def)+

lemma issueTokens_jti: "snd (snd (issueTokens env user)) = au_nanoid env"
  by (simp add: issueTokens_def Let_def)

lemma gone_serve:
  assumes "op_nanoid x \<noteq> jti" and "gone jti w"
  shows "gone jti (serve_auth x w)"
proof -
  have reg: "guar (gone_kept jti) (register env req)" if "au_nanoid env \<noteq> jti" for env req
    using that unfolding register_def register_commit_def case_prod_beta
    by (intro guar_rules gone_calls) (simp add: issueTokens_jti)
  have log: "guar (gone_kept jti) (login env req)" if "au_nanoid env \<noteq> jti" for env req
    using that unfolding login_def case_prod_beta
    by (intro guar_rules gone_calls) (simp add: issueTokens_jti)
  have check: "guar (gone_kept jti) (refresh_check env req)" for env req
    unfolding refresh_check_def isRefreshJtiValid_def
    by (intro guar_rules, auto intro!: guar_rules split: sum.split)
  have ref: "guar (gone_kept jti) (refresh env req)" if "au_nanoid env \<noteq> jti" for env req
    using that unfolding refresh_def refresh_rotate_def case_prod_beta
    by (intro guar_rules gone_calls check) (simp add: issueTokens_jti)
  have out: "guar (gone_kept jti) (logout env req)" for env req
    unfolding logout_def
    by (intro guar_rules, auto intro!: guar_rules gone_calls split: sum.split)
  show ?thesis
    using assms guarD [OF reg, of _ w] guarD [OF log, of _ w] guarD [OF ref, of _ w] guarD [OF out, of w]
    by (cases x) auto
qed

lemma gone_run: "jti \<notin> op_nanoid ` set ops \<Longrightarrow> gone jti w \<Longrightarrow> gone jti (fold serve_auth ops w)"
  by (induction ops arbitrary: w) (auto simp: gone_serve)

lemma gone_not_live: "gone jti w \<Longrightarrow> \<not> jti_live now jti w"
  by (auto simp: gone_def jti_live_def list_ex_iff image_iff)

text \<open>What a successful check says, and what a rotation or a logout does to the id of the token.\<close>

lemma refresh_check_jti:
  assumes "refresh_check env req w = (Inr (user, jti), v)"
    and "truthy_str (map_of (rq_cookies req) REFRESH_COOKIE) = Some t" and "au_verify env t = Inr p"
  shows "v = w" and "truthy_str (jp_jti p) = Some jti"
  using assms
  by (auto simp: refresh_check_def isRefreshJtiValid_def run_rules bindA_def callA_def readA_def retA_def
      throwA_def someA_def unlessA_def split: option.splits if_splits sum.splits)

lemma refresh_gone:
  assumes "refresh env req w = (Inr r, v)" and "au_nanoid env \<noteq> jti"
    and "truthy_str (map_of (rq_cookies req) REFRESH_COOKIE) = Some t" and "au_verify env t = Inr p"
    and "truthy_str (jp_jti p) = Some jti"
  shows "gone jti v"
proof -
  obtain user jti' w1 where c: "refresh_check env req w = (Inr (user, jti'), w1)"
      "refresh_rotate env user jti' w1 = (Inr r, v)"
    using assms(1) by (auto simp: refresh_def bindA_def split: prod.splits sum.splits)
  with refresh_check_jti [OF c(1) assms(3,4)] assms(5) have "jti' = jti" by simp
  with c(2) assms(2) show ?thesis
    by (auto simp: refresh_rotate_def revokeRefreshJti_def storeRefreshJti_def issueTokens_def Let_def
        bindA_def callA_def modifyA_def retA_def throwA_def drop_jti_def gone_def
        split: option.splits)
qed

lemma logout_gone:
  assumes "fails env U_revoke = None"
    and "truthy_str (map_of (rq_cookies req) REFRESH_COOKIE) = Some t" and "au_verify env t = Inr p"
    and "truthy_str (jp_jti p) = Some jti"
  shows "gone jti (snd (logout env req w))"
  using assms by (auto simp: logout_def revokeRefreshJti_def run_rules catchA_def modifyA_def retA_def
      drop_jti_def gone_def)

text \<open>
  C16. A refresh token works once. After a refresh with it that succeeded, or a logout with it, every
  later refresh with the same token is refused with 401 and changes nothing, whatever users do in
  between (the ids \<open>nanoid\<close> generates being new).
\<close>

theorem refresh_token_single_use:
  assumes "\<And>p. fails env p = None" and "au_verify env t = Inr p" and "au_verify env1 t = Inr p"
    and "truthy_str (map_of (rq_cookies req) REFRESH_COOKIE) = Some t"
    and "truthy_str (map_of (rq_cookies req1) REFRESH_COOKIE) = Some t"
    and "truthy_str (jp_jti p) = Some jti"
    and "(x = Refresh env1 req1 \<and> fst (refresh env1 req1 w) = Inr r) \<or>
      (x = Logout env1 req1 \<and> fails env1 U_revoke = None)"
    and "jti \<notin> op_nanoid ` set (x # ops)"
  shows "\<exists>e. refresh env req (fold serve_auth (x # ops) w) = (Inl e, fold serve_auth (x # ops) w) \<and>
    fst (errorHandler e) = 401"
proof -
  have "gone jti (serve_auth x w)"
    using assms(7)
  proof
    assume "x = Refresh env1 req1 \<and> fst (refresh env1 req1 w) = Inr r"
    then show ?thesis
      using refresh_gone [OF _ _ assms(5,3,6), of w r "snd (refresh env1 req1 w)"] assms(8)
      by (auto simp: prod_eq_iff)
  next
    assume "x = Logout env1 req1 \<and> fails env1 U_revoke = None"
    then show ?thesis using logout_gone [OF _ assms(5,3,6)] by simp
  qed
  then have "gone jti (fold serve_auth (x # ops) w)"
    using gone_run [of jti ops] assms(8) by simp
  then have "\<not> jti_live (clock env U_check) jti (fold serve_auth (x # ops) w)"
    by (rule gone_not_live)
  then show ?thesis
    using assms(1,2,4,6)
    by (cases "jp_type p = ''refresh''")
      (simp_all add: refresh_def refresh_check_def isRefreshJtiValid_def run_rules bindA_assoc
        UnauthorizedError_def)
qed

definition cookie_request :: "string \<Rightarrow> request" where
  "cookie_request t = (credentials_request [] [])\<lparr>rq_cookies := [(REFRESH_COOKIE, t)]\<rparr>"

definition session_world :: world where
  "session_world = empty_world\<lparr>users := [\<lparr>u_id = ''u'', u_email = ''a@b'', u_passwordHash = [],
     u_role = User_member, u_createdAt = 0\<rparr>], refresh_jtis := [(''j'', 1000)]\<rparr>"

lemma session_refresh:
  "\<exists>r. fst (refresh (demo_auth ''k'' 1) (cookie_request ''refreshj'') session_world) = Inr r"
  by (simp add: refresh_def refresh_check_def refresh_rotate_def isRefreshJtiValid_def revokeRefreshJti_def
      storeRefreshJti_def issueTokens_def Let_def run_rules truthy_str_def cookie_request_def demo_auth_def
      session_world_def starts_with_def jti_live_def user_find_def empty_world_def)

theorem refresh_token_single_use_witness:
  "\<exists>e. fst (refresh (demo_auth ''l'' 2) (cookie_request ''refreshj'')
      (fold serve_auth [Refresh (demo_auth ''k'' 1) (cookie_request ''refreshj'')] session_world)) = Inl e \<and>
    fst (errorHandler e) = 401"
proof -
  obtain r where r: "fst (refresh (demo_auth ''k'' 1) (cookie_request ''refreshj'') session_world) = Inr r"
    using session_refresh by blast
  let ?p = "\<lparr>jp_sub = ''u'', jp_email = [], jp_role = [], jp_type = ''refresh'', jp_jti = Some ''j''\<rparr>"
  show ?thesis
    using refresh_token_single_use [of "demo_auth ''l'' 2" "''refreshj''" ?p "demo_auth ''k'' 1"
        "cookie_request ''refreshj''" "cookie_request ''refreshj''" "''j''"
        "Refresh (demo_auth ''k'' 1) (cookie_request ''refreshj'')" session_world r "[]"] r
    by (force simp: demo_auth_def starts_with_def cookie_request_def)
qed

text \<open>
  The check of a refresh token and its revocation are separate calls: two refreshes that both
  check the token before either revokes it both succeed, and leave two live refresh tokens where
  there was one.
\<close>

lemma racing_refreshes_both_succeed:
  assumes "\<And>p. fails env p = None" and "\<And>p. fails env' p = None"
    and "refresh_check env req w = (Inr (user, jti), w)" and "refresh_check env' req' w = (Inr (user, jti), w)"
    and "distinct [au_nanoid env, au_nanoid env', jti]"
    and "now < clock env U_store + REFRESH_TTL_SECONDS * 1000"
    and "now < clock env' U_store + REFRESH_TTL_SECONDS * 1000"
  shows "\<exists>r r' w1 w2. refresh_rotate env user jti w = (Inr r, w1) \<and>
    refresh_rotate env' user jti w1 = (Inr r', w2) \<and> re_status r = 200 \<and> re_status r' = 200 \<and>
    jti_live now (au_nanoid env) w2 \<and> jti_live now (au_nanoid env') w2"
  using assms(1,2,5-7)
  by (simp add: refresh_rotate_def revokeRefreshJti_def storeRefreshJti_def issueTokens_def Let_def
      run_rules drop_jti_def jti_live_def)

lemma racing_refreshes_both_succeed_witness:
  "\<exists>user jti r r' w1 w2. refresh_rotate (demo_auth ''k'' 1) user jti session_world = (Inr r, w1) \<and>
    refresh_rotate (demo_auth ''l'' 2) user jti w1 = (Inr r', w2) \<and>
    jti_live 3 ''k'' w2 \<and> jti_live 3 ''l'' w2"
proof -
  have check: "refresh_check (demo_auth n t) (cookie_request ''refreshj'') session_world =
      (Inr (\<lparr>u_id = ''u'', u_email = ''a@b'', u_passwordHash = [], u_role = User_member, u_createdAt = 0\<rparr>, ''j''),
        session_world)" if "t < 1000" for n t
    using that by (simp add: refresh_check_def isRefreshJtiValid_def run_rules truthy_str_def cookie_request_def
        demo_auth_def session_world_def starts_with_def jti_live_def user_find_def)
  show ?thesis
    using racing_refreshes_both_succeed [OF _ _ check [of 1 "''k''"] check [of 2 "''l''"], of 3]
    by (fastforce simp: demo_auth_def REFRESH_TTL_SECONDS_def)
qed

end
