(* ===== verification/QueuesApi.thy ===== *)
theory QueuesApi
  imports JobsApi "HOL-Library.AList"
begin

text \<open>
  \<open>api/src/routes/queues.ts\<close>: creating, listing and updating queues, and the statistics of one
  queue. \<open>groupBy\<close> returns one row per group in an order SQL leaves open; here it is the order of
  first occurrence, and the properties hold for the totals whatever that order is.
\<close>

datatype queues_point = Q_project | Q_create | Q_list | Q_count | Q_groups | Q_find | Q_update | Q_now | Q_recent

record queues_env = "queues_point env" +
  qe_flatten :: "json \<Rightarrow> json"

section \<open>The schemas\<close>

record CreateQueue =
  cq_name :: string
  cq_priority :: "int option"
  cq_concurrencyLimit :: "int option"
  cq_defaultRetryPolicyId :: "string option"

definition name_char :: "char \<Rightarrow> bool" where
  \<comment> \<open>the class \<open>[a-z0-9_-]\<close> under the flag \<open>i\<close>\<close>
  "name_char c \<longleftrightarrow> is_digit c \<or> c = CHR ''_'' \<or> c = CHR ''-'' \<or>
     (97 \<le> (of_char c :: nat) \<and> (of_char c :: nat) \<le> 122) \<or> (65 \<le> (of_char c :: nat) \<and> (of_char c :: nat) \<le> 90)"

definition createQueueSchema :: "json \<Rightarrow> CreateQueue option" where
  "createQueueSchema body =
     Option.bind (Option.bind (jget body ''name'') (zod_string 1 (Some 128))) (\<lambda>name.
     if \<not> list_all name_char name then None else
     Option.bind (zod_optional (zod_int 0 100) (jget body ''priority'')) (\<lambda>priority.
     Option.bind (zod_optional (zod_int 1 1000) (jget body ''concurrencyLimit'')) (\<lambda>limit.
     Option.bind (zod_optional (zod_string 0 None) (jget body ''defaultRetryPolicyId'')) (\<lambda>policy.
     Some \<lparr>cq_name = name, cq_priority = priority, cq_concurrencyLimit = limit,
       cq_defaultRetryPolicyId = policy\<rparr>))))"

record UpdateQueue =
  uq_priority :: "int option"
  uq_concurrencyLimit :: "int option"
  uq_isPaused :: "bool option"

definition zod_bool :: "json \<Rightarrow> bool option" where
  "zod_bool v = (case v of JBool b \<Rightarrow> Some b | _ \<Rightarrow> None)"

definition updateQueueSchema :: "json \<Rightarrow> UpdateQueue option" where
  "updateQueueSchema body =
     (case body of JObj _ \<Rightarrow>
        Option.bind (zod_optional (zod_int 0 100) (jget body ''priority'')) (\<lambda>priority.
        Option.bind (zod_optional (zod_int 1 1000) (jget body ''concurrencyLimit'')) (\<lambda>limit.
        Option.bind (zod_optional zod_bool (jget body ''isPaused'')) (\<lambda>paused.
        Some \<lparr>uq_priority = priority, uq_concurrencyLimit = limit, uq_isPaused = paused\<rparr>)))
      | _ \<Rightarrow> None)"

section \<open>POST /projects/:projectId/queues\<close>

definition queue_create :: "Queue \<Rightarrow> Queue action" where
  "queue_create q w =
     (if queue_find w (q_id q) \<noteq> None \<or>
         list_ex (\<lambda>r. q_projectId r = q_projectId q \<and> q_name r = q_name q) (queues w)
      then (Inl uniqueViolation, w)
      else if project_find w (q_projectId q) = None \<or>
              (case q_defaultRetryPolicyId q of None \<Rightarrow> False | Some p \<Rightarrow> policy_find w p = None)
      then (Inl foreignKeyViolation, w)
      else (Inr q, w\<lparr>queues := queues w @ [q]\<rparr>))"

definition new_queue :: "queues_env \<Rightarrow> ident \<Rightarrow> CreateQueue \<Rightarrow> Queue" where
  "new_queue env projectId cq =
     \<lparr>q_id = fresh env Q_create, q_projectId = projectId, q_name = cq_name cq,
      q_priority = or_else (cq_priority cq) 0, q_concurrencyLimit = or_else (cq_concurrencyLimit cq) 10,
      q_isPaused = False, q_defaultRetryPolicyId = cq_defaultRetryPolicyId cq,
      q_createdAt = clock env Q_create\<rparr>"

definition queue_fields_json :: "Queue \<Rightarrow> (string \<times> json) list" where
  "queue_fields_json q =
     [(''id'', JStr (q_id q)), (''projectId'', JStr (q_projectId q)), (''name'', JStr (q_name q)),
      (''priority'', jint (q_priority q)), (''concurrencyLimit'', jint (q_concurrencyLimit q)),
      (''isPaused'', JBool (q_isPaused q))]"

definition queue_json :: "Queue \<Rightarrow> (string \<times> json) list" where
  "queue_json q = queue_fields_json q @
     [(''defaultRetryPolicyId'', JNull_or JStr (q_defaultRetryPolicyId q)), (''createdAt'', JDate (q_createdAt q))]"

definition createQueue :: "queues_env \<Rightarrow> request \<Rightarrow> (int \<times> json) action" where
  "createQueue env req =
     (let projectId = or_else (map_of (rq_params req) ''projectId'') [] in
      bindA (someA (ValidationError ''Invalid request body'' (Some (qe_flatten env (rq_body req))))
        (createQueueSchema (rq_body req))) (\<lambda>cq.
      bindA (callA env Q_project (readA (\<lambda>w. project_find w projectId))) (\<lambda>p.
      bindA (someA (NotFoundError ''Project not found'' None) p) (\<lambda>_.
      bindA (callA env Q_create (queue_create (new_queue env projectId cq))) (\<lambda>queue.
      retA (201, JObj (queue_json queue)))))))"

section \<open>GET /projects/:projectId/queues\<close>

definition queue_order :: "Queue \<Rightarrow> int \<times> int" where
  "queue_order q = (- q_priority q, q_createdAt q)"

definition project_queues :: "ident \<Rightarrow> world \<Rightarrow> Queue list" where
  "project_queues projectId w = sort_key queue_order (filter (\<lambda>q. q_projectId q = projectId) (queues w))"

definition queue_jobs :: "ident \<Rightarrow> world \<Rightarrow> Job list" where
  "queue_jobs queueId w = filter (\<lambda>j. j_queueId j = queueId) (jobs w)"

text \<open>\<open>groupBy(by)\<close> with the count of each group.\<close>

definition group_by :: "('r \<Rightarrow> 'k) \<Rightarrow> 'r list \<Rightarrow> ('k \<times> nat) list" where
  "group_by key rows = map (\<lambda>k. (k, count_where (\<lambda>r. key r = k) rows)) (remdups (map key rows))"

definition statusCountMap :: "((ident \<times> JobStatus) \<times> nat) list \<Rightarrow> ident \<Rightarrow> (string \<times> json) list" where
  "statusCountMap groups = fold (\<lambda>((queueId, status), n) m.
     m(queueId := AList.update (status_name status) (jint (int n)) (m queueId))) groups (\<lambda>_. [])"

definition listQueues :: "queues_env \<Rightarrow> request \<Rightarrow> (int \<times> json) action" where
  "listQueues env req =
     (let projectId = or_else (map_of (rq_params req) ''projectId'') [];
          p = parsePagination (map_of (rq_query req) ''page'') (map_of (rq_query req) ''limit'') in
      bindA (callA env Q_project (readA (\<lambda>w. project_find w projectId))) (\<lambda>project.
      bindA (someA (NotFoundError ''Project not found'' None) project) (\<lambda>_.
      bindA (callA env Q_list (readA (\<lambda>w. map (\<lambda>q. (q, length (queue_jobs (q_id q) w)))
        (paginate p (project_queues projectId w))))) (\<lambda>qs.
      bindA (callA env Q_count (readA (\<lambda>w. length (project_queues projectId w)))) (\<lambda>n.
      bindA (callA env Q_groups (readA (\<lambda>w. group_by (\<lambda>j. (j_queueId j, j_status j))
        (filter (\<lambda>j. j_queueId j \<in> set (map (q_id \<circ> fst) qs)) (jobs w))))) (\<lambda>groups.
      retA (200, data_page (map (\<lambda>(q, jobCount). JObj (queue_json q @
          [(''totalJobs'', jint (int jobCount)), (''jobsByStatus'', JObj (statusCountMap groups (q_id q)))])) qs)
        (buildMeta (int n) (pg_page p) (pg_limit p)))))))))"

section \<open>PATCH /queues/:id\<close>

definition apply_update :: "UpdateQueue \<Rightarrow> Queue \<Rightarrow> Queue" where
  "apply_update u q = q\<lparr>q_priority := or_else (uq_priority u) (q_priority q),
     q_concurrencyLimit := or_else (uq_concurrencyLimit u) (q_concurrencyLimit q),
     q_isPaused := or_else (uq_isPaused u) (q_isPaused q)\<rparr>"

definition queue_update :: "ident \<Rightarrow> (Queue \<Rightarrow> Queue) \<Rightarrow> Queue action" where
  "queue_update i f w = (case queue_find w i of
     None \<Rightarrow> (Inl recordNotFound, w)
   | Some q \<Rightarrow> (Inr (f q), queue_put i f w))"

definition updateQueue :: "queues_env \<Rightarrow> request \<Rightarrow> (int \<times> json) action" where
  "updateQueue env req =
     (let i = or_else (map_of (rq_params req) ''id'') [] in
      bindA (someA (ValidationError ''Invalid request body'' (Some (qe_flatten env (rq_body req))))
        (updateQueueSchema (rq_body req))) (\<lambda>u.
      bindA (callA env Q_find (readA (\<lambda>w. queue_find w i))) (\<lambda>found.
      bindA (someA (NotFoundError ''Queue not found'' None) found) (\<lambda>_.
      bindA (callA env Q_update (queue_update i (apply_update u))) (\<lambda>updated.
      retA (200, JObj (queue_fields_json updated @ [(''updatedAt'', JDate (clock env Q_now))])))))))"

section \<open>GET /queues/:id/stats\<close>

definition finished_since :: "timestamp \<Rightarrow> Job \<Rightarrow> bool" where
  "finished_since t j \<longleftrightarrow> (j_status j = Completed \<or> j_status j = Failed) \<and> t \<le> j_updatedAt j"

definition per_minute :: "nat \<Rightarrow> rat" where
  \<comment> \<open>\<open>Math.round((n / 5) * 10) / 10\<close>\<close>
  "per_minute n = of_int \<lfloor>(of_nat n / 5) * 10 + 1 / 2 :: rat\<rfloor> / 10"

text \<open>The loop over the groups: the record \<open>byStatus\<close>, which starts with zeros, and \<open>totalJobs\<close>.\<close>

definition tally :: "(JobStatus \<times> nat) list \<Rightarrow> (JobStatus \<Rightarrow> nat) \<times> nat" where
  "tally groups = fold (\<lambda>(s, n) (byStatus, totalJobs). (byStatus(s := n), totalJobs + n)) groups (\<lambda>_. 0, 0)"

definition queueStats :: "queues_env \<Rightarrow> request \<Rightarrow> (int \<times> json) action" where
  "queueStats env req =
     (let i = or_else (map_of (rq_params req) ''id'') [] in
      bindA (callA env Q_find (readA (\<lambda>w. queue_find w i))) (\<lambda>found.
      bindA (someA (NotFoundError ''Queue not found'' None) found) (\<lambda>_.
      bindA (callA env Q_groups (readA (\<lambda>w. group_by j_status (queue_jobs i w)))) (\<lambda>groups.
      bindA (callA env Q_recent (readA (\<lambda>w.
        count_where (finished_since (clock env Q_now - 5 * 60 * 1000)) (queue_jobs i w)))) (\<lambda>recentCount.
      case tally groups of (byStatus, totalJobs) \<Rightarrow>
      retA (200, JObj [(''totalJobs'', jint (int totalJobs)),
        (''byStatus'', JObj (map (\<lambda>s. (status_name s, jint (int (byStatus s)))) all_statuses)),
        (''jobsPerMinute'', JNum (per_minute recentCount))]))))))"

section \<open>The statistics are the counts\<close>

lemma tally_groups:
  "distinct (map fst groups) \<Longrightarrow>
    fold (\<lambda>(s, n) (byStatus, totalJobs). (byStatus(s := n), totalJobs + n)) groups (f, t) =
    (\<lambda>s. case map_of groups s of None \<Rightarrow> f s | Some n \<Rightarrow> n, t + sum_list (map snd groups))"
proof (induction groups arbitrary: f t)
  case (Cons g groups)
  obtain s n where g: "g = (s, n)" by (cases g)
  with Cons.prems have "map_of groups s = None" by (auto simp: map_of_eq_None_iff)
  with Cons g show ?case by (auto simp: fun_eq_iff add.assoc split: option.split)
qed simp

lemma map_of_group_by: "map_of (group_by key rows) k =
    (if k \<in> key ` set rows then Some (count_where (\<lambda>r. key r = k) rows) else None)"
  by (auto simp: group_by_def map_of_map_restrict restrict_map_def)

lemma fst_group_by: "map fst (group_by key rows) = remdups (map key rows)"
  by (simp add: group_by_def comp_def)

lemma count_where_none: "k \<notin> key ` set rows \<Longrightarrow> count_where (\<lambda>r. key r = k) rows = 0"
  by (auto simp: count_where_def filter_empty_conv)

lemma sum_group_by: "sum_list (map snd (group_by key rows)) = length rows"
proof -
  have "sum_list (map snd (group_by key rows)) =
      (\<Sum>k\<in>key ` set rows. count_where (\<lambda>r. key r = k) rows)"
    by (simp add: group_by_def comp_def sum_list_distinct_conv_sum_set)
  also have "\<dots> = length rows"
  proof (induction rows)
    case (Cons r rows)
    let ?c = "\<lambda>rows k. count_where (\<lambda>r. key r = k) rows"
    have c: "?c (r # rows) k = (if k = key r then Suc (?c rows k) else ?c rows k)" for k
      by (auto simp: count_where_def)
    show ?case
    proof (cases "key r \<in> key ` set rows")
      case True
      then show ?thesis
        using Cons.IH by (simp add: insert_absorb c sum.remove [of _ "key r"])
    next
      case False
      then have "(\<Sum>k\<in>key ` set rows. ?c (r # rows) k) = (\<Sum>k\<in>key ` set rows. ?c rows k)"
        by (intro sum.cong) (auto simp: c image_iff)
      with False show ?thesis using Cons.IH count_where_none [OF False] by (simp add: c)
    qed
  qed simp
  finally show ?thesis .
qed

lemma tally_group_by:
  "tally (group_by key rows) = (\<lambda>s. count_where (\<lambda>r. key r = s) rows, length rows)"
  by (auto simp: tally_def tally_groups fst_group_by map_of_group_by sum_group_by count_where_none fun_eq_iff)

lemma per_minute_exact: "per_minute n = of_nat n / 5"
proof -
  have "(of_nat n / 5) * 10 + (1 / 2 :: rat) = of_int (2 * int n) + 1 / 2" by simp
  then have "\<lfloor>(of_nat n / 5) * 10 + (1 / 2 :: rat)\<rfloor> = 2 * int n" by linarith
  then show ?thesis by (simp add: per_minute_def)
qed

text \<open>
  The statistics of a queue, computed from one grouped query by a loop over its rows, are the
  plain counts: \<open>totalJobs\<close> is the number of the queue's jobs, \<open>byStatus\<close> has for each of the eight
  statuses the number of its jobs in that status (0 where \<open>groupBy\<close> returns no row), and
  \<open>jobsPerMinute\<close> is a fifth of the jobs finished in the last five minutes, with nothing rounded.
\<close>

lemma queueStats_counts:
  assumes "\<And>p. fails env p = None" and "map_of (rq_params req) ''id'' = Some i" and "queue_find w i = Some q"
  shows "queueStats env req w = (Inr (200, JObj
    [(''totalJobs'', jint (int (length (queue_jobs i w)))),
     (''byStatus'', JObj (map (\<lambda>s. (status_name s,
        jint (int (count_where (\<lambda>j. j_status j = s) (queue_jobs i w))))) all_statuses)),
     (''jobsPerMinute'', JNum (of_nat (count_where
        (finished_since (clock env Q_now - 300000)) (queue_jobs i w)) / 5))]), w)"
  using assms by (simp add: queueStats_def run_rules tally_group_by per_minute_exact or_else_def)

definition quiet_queues :: queues_env where
  "quiet_queues = \<lparr>fails = (\<lambda>_. None), clock = (\<lambda>_. 400000), fresh = (\<lambda>_. ''new''), qe_flatten = (\<lambda>_. JNull)\<rparr>"

lemma queueStats_counts_witness:
  "\<exists>body. queueStats quiet_queues (request_of ''ann'' [(''id'', ''q'')]) rbac_world = (Inr (200, body), rbac_world) \<and>
    jget body ''totalJobs'' = Some (jint 1)"
  using queueStats_counts [of quiet_queues "request_of ''ann'' [(''id'', ''q'')]" "''q''" rbac_world sample_queue]
  by (simp add: quiet_queues_def rbac_defs queue_jobs_def)

section \<open>The settings of a queue stay within their bounds\<close>

definition queue_valid :: "Queue \<Rightarrow> bool" where
  "queue_valid q \<longleftrightarrow> 0 \<le> q_priority q \<and> q_priority q \<le> 100 \<and> 1 \<le> q_concurrencyLimit q \<and>
     q_concurrencyLimit q \<le> 1000"

definition queues_valid :: "world \<Rightarrow> bool" where
  "queues_valid w \<longleftrightarrow> list_all queue_valid (queues w)"

lemma zod_int_bounds: "zod_int lo hi v = Some x \<Longrightarrow> lo \<le> x \<and> x \<le> hi"
  by (auto simp: zod_int_def split: json.splits if_splits)

lemma zod_optional_int_bounds:
  "zod_optional (zod_int lo hi) v = Some (Some x) \<Longrightarrow> lo \<le> x \<and> x \<le> hi"
  by (auto simp: zod_optional_def dest: zod_int_bounds split: option.splits)

lemma new_queue_valid: "createQueueSchema body = Some cq \<Longrightarrow> queue_valid (new_queue env projectId cq)"
  by (auto simp: createQueueSchema_def bind_eq_Some_conv queue_valid_def new_queue_def or_else_def
      dest: zod_optional_int_bounds split: if_splits option.split)

lemma apply_update_valid: "updateQueueSchema body = Some u \<Longrightarrow> queue_valid q \<Longrightarrow> queue_valid (apply_update u q)"
  by (auto simp: updateQueueSchema_def bind_eq_Some_conv queue_valid_def apply_update_def or_else_def
      dest: zod_optional_int_bounds split: json.splits option.split)

text \<open>
  Whatever the requests hold and whatever fails, creating and updating queues keeps the settings
  of every queue within their bounds: a priority of 0 to 100 and a concurrency limit of 1 to 1000.
\<close>

lemma queue_settings_bounded:
  assumes "queues_valid w"
  shows "queues_valid (snd (createQueue env req w)) \<and> queues_valid (snd (updateQueue env req w))"
proof
  let ?R = "\<lambda>s t. queues_valid s \<longrightarrow> queues_valid t"
  have create: "guar ?R (queue_create q)" if "queue_valid q" for q
    using that by (intro guarI) (simp add: queue_create_def queues_valid_def)
  have update: "guar ?R (queue_update i f)" if "\<And>q. queue_valid q \<Longrightarrow> queue_valid (f q)" for i f
    using that by (intro guarI) (auto simp: queue_update_def queue_put_def queues_valid_def update_by_def
        list_all_iff split: option.split)
  have "guar ?R (createQueue env req)"
  proof (cases "createQueueSchema (rq_body req)")
    case (Some cq)
    then show ?thesis unfolding createQueue_def Let_def Some someA_def option.case bindA_ret
      by (intro guar_rules create new_queue_valid [OF Some])
  qed (simp add: createQueue_def Let_def someA_def keeps.throw_guar)
  from guarD [OF this, of w] assms show "queues_valid (snd (createQueue env req w))" by simp
  have "guar ?R (updateQueue env req)"
  proof (cases "updateQueueSchema (rq_body req)")
    case (Some u)
    then show ?thesis unfolding updateQueue_def Let_def Some someA_def option.case bindA_ret
      by (intro guar_rules update apply_update_valid [OF Some])
  qed (simp add: updateQueue_def Let_def someA_def keeps.throw_guar)
  from guarD [OF this, of w] assms show "queues_valid (snd (updateQueue env req w))" by simp
qed

lemma queue_settings_bounded_witness:
  "queues_valid (snd (updateQueue quiet_queues
     ((request_of ''ann'' [(''id'', ''q'')])\<lparr>rq_body := JObj [(''concurrencyLimit'', jint 5000)]\<rparr>) rbac_world))"
  using queue_settings_bounded [of rbac_world]
  by (simp add: queues_valid_def queue_valid_def rbac_defs)

end
