(* ===== verification/ReadApi.thy ===== *)
theory ReadApi
  imports QueuesApi Heartbeat JobsControl
begin

text \<open>
  The remaining routes of the API: \<open>routes/projects.ts\<close>, \<open>routes/workers.ts\<close> and
  \<open>routes/dashboard.ts\<close>. All but the creation of a project only read. Joined rows
  (\<open>include\<close>, \<open>_count\<close>) are read in the same call as the row itself.
\<close>

datatype read_point =
  P_member | P_create | P_list | P_count | P_find | P_workers | P_worker | P_beats |
  P_projects | P_queues | P_counts | P_today | P_now

record read_env = "read_point env" +
  pe_flatten :: "json \<Rightarrow> json"
  pe_apiKey :: string  \<comment> \<open>\<open>cuid()\<close>, the default of the column\<close>

section \<open>Projects\<close>

definition createProjectSchema :: "json \<Rightarrow> (string \<times> string) option" where
  "createProjectSchema body =
     Option.bind (Option.bind (jget body ''orgId'') (zod_string 1 None)) (\<lambda>orgId.
     Option.bind (Option.bind (jget body ''name'') (zod_string 1 (Some 128))) (\<lambda>name.
     Some (orgId, name)))"

definition project_create :: "Project \<Rightarrow> Project action" where
  "project_create p w =
     (if project_find w (p_id p) \<noteq> None \<or> p_apiKey p \<in> p_apiKey ` set (projects w)
      then (Inl uniqueViolation, w)
      else if p_orgId p \<notin> o_id ` set (organizations w) then (Inl foreignKeyViolation, w)
      else (Inr p, w\<lparr>projects := projects w @ [p]\<rparr>))"

definition project_fields :: "Project \<Rightarrow> (string \<times> json) list" where
  "project_fields p = [(''id'', JStr (p_id p)), (''orgId'', JStr (p_orgId p)), (''name'', JStr (p_name p))]"

definition createProject :: "read_env \<Rightarrow> request \<Rightarrow> (int \<times> json) action" where
  "createProject env req =
     bindA (someA (ValidationError ''Invalid request body'' (Some (pe_flatten env (rq_body req))))
       (createProjectSchema (rq_body req))) (\<lambda>(orgId, name).
     bindA (someA noUser (rq_user req)) (\<lambda>user.
     bindA (callA env P_member (readA (\<lambda>w. membership_find w orgId (jp_sub user)))) (\<lambda>m.
     bindA (someA (NotFoundError ''Organization not found or you are not a member'' None) m) (\<lambda>_.
     bindA (callA env P_create (project_create \<lparr>p_id = fresh env P_create, p_orgId = orgId,
         p_name = name, p_apiKey = pe_apiKey env, p_createdAt = clock env P_create\<rparr>)) (\<lambda>project.
     retA (201, JObj (project_fields project @ [(''apiKey'', JStr (p_apiKey project)),
       (''createdAt'', JDate (p_createdAt project))])))))))"

definition org_projects :: "ident list \<Rightarrow> world \<Rightarrow> Project list" where
  "org_projects orgIds w = filter (\<lambda>p. p_orgId p \<in> set orgIds) (projects w)"

definition queues_of :: "ident \<Rightarrow> world \<Rightarrow> Queue list" where
  "queues_of projectId w = filter (\<lambda>q. q_projectId q = projectId) (queues w)"

definition project_item :: "world \<Rightarrow> Project \<Rightarrow> json" where
  "project_item w p = JObj (project_fields p @ [(''createdAt'', JDate (p_createdAt p)),
     (''_count'', JObj [(''queues'', jint (int (length (queues_of (p_id p) w))))])])"

definition listProjects :: "read_env \<Rightarrow> request \<Rightarrow> (int \<times> json) action" where
  "listProjects env req =
     (let p = parsePagination (map_of (rq_query req) ''page'') (map_of (rq_query req) ''limit'') in
      bindA (someA noUser (rq_user req)) (\<lambda>user.
      bindA (callA env P_member (readA (\<lambda>w. user_orgs w (jp_sub user)))) (\<lambda>orgIds.
      bindA (callA env P_list (readA (\<lambda>w. map (project_item w)
        (paginate p (sort_key (\<lambda>x. - p_createdAt x) (org_projects orgIds w)))))) (\<lambda>ps.
      bindA (callA env P_count (readA (\<lambda>w. length (org_projects orgIds w)))) (\<lambda>n.
      retA (200, data_page ps (buildMeta (int n) (pg_page p) (pg_limit p))))))))"

definition project_detail :: "world \<Rightarrow> Project \<Rightarrow> json" where
  "project_detail w p = JObj (project_fields p @
     [(''apiKey'', JStr (p_apiKey p)), (''createdAt'', JDate (p_createdAt p)),
      (''queues'', JArr (map (\<lambda>q. JObj
         [(''id'', JStr (q_id q)), (''name'', JStr (q_name q)), (''priority'', jint (q_priority q)),
          (''concurrencyLimit'', jint (q_concurrencyLimit q)), (''isPaused'', JBool (q_isPaused q)),
          (''createdAt'', JDate (q_createdAt q)),
          (''_count'', JObj [(''jobs'', jint (int (length (queue_jobs (q_id q) w))))])])
         (sort_key (\<lambda>q. - q_createdAt q) (queues_of (p_id p) w)))),
      (''_count'', JObj [(''queues'', jint (int (length (queues_of (p_id p) w)))),
         (''retryPolicies'', jint (int (count_where (\<lambda>r. rp_projectId r = p_id p) (retry_policies w))))])])"

definition getProject :: "read_env \<Rightarrow> request \<Rightarrow> (int \<times> json) action" where
  "getProject env req =
     (let i = or_else (map_of (rq_params req) ''id'') [] in
      bindA (callA env P_find (readA (\<lambda>w. map_option (\<lambda>p. (p, project_detail w p)) (project_find w i)))) (\<lambda>found.
      bindA (someA (NotFoundError ''Project not found'' None) found) (\<lambda>(project, body).
      bindA (someA noUser (rq_user req)) (\<lambda>user.
      bindA (callA env P_member (readA (\<lambda>w. membership_find w (p_orgId project) (jp_sub user)))) (\<lambda>m.
      bindA (someA (NotFoundError ''Project not found'' None) m) (\<lambda>_.
      retA (200, body)))))))"

section \<open>Workers\<close>

fun worker_status_name :: "WorkerStatus \<Rightarrow> string" where
  "worker_status_name Active = ''active''"
| "worker_status_name Draining = ''draining''"
| "worker_status_name Dead = ''dead''"

definition recent_beats :: "nat \<Rightarrow> ident \<Rightarrow> world \<Rightarrow> WorkerHeartbeat list" where
  "recent_beats n workerId w = newest_heartbeats n workerId (worker_heartbeats w)"

definition worker_row :: "Worker \<Rightarrow> (string \<times> json) list" where
  "worker_row v = [(''id'', JStr (wk_id v)), (''hostname'', JStr (wk_hostname v)), (''pid'', jint (wk_pid v)),
     (''status'', JStr (worker_status_name (wk_status v))), (''startedAt'', JDate (wk_startedAt v)),
     (''lastHeartbeatAt'', JDate (wk_lastHeartbeatAt v))]"

definition worker_item :: "world \<Rightarrow> Worker \<Rightarrow> json" where
  "worker_item w v = (case recent_beats 1 (wk_id v) w of
     [] \<Rightarrow> JObj (worker_row v @ [(''activeJobCount'', jint 0), (''cpuLoad'', JNull),
       (''lastHeartbeatTimestamp'', JNull)])
   | h # _ \<Rightarrow> JObj (worker_row v @ [(''activeJobCount'', jint (hb_activeJobCount h)),
       (''cpuLoad'', JNum (hb_cpuLoad h)), (''lastHeartbeatTimestamp'', JDate (hb_timestamp h))]))"

definition matching_workers :: "string option \<Rightarrow> world \<Rightarrow> Worker list" where
  "matching_workers status w = filter (\<lambda>v. case truthy_str status of
     None \<Rightarrow> True | Some s \<Rightarrow> worker_status_name (wk_status v) = s) (workers w)"

definition worker_order :: "Worker \<Rightarrow> WorkerStatus \<times> int" where
  "worker_order v = (wk_status v, - wk_lastHeartbeatAt v)"

text \<open>The route schema has already refused a status that is not one of the three.\<close>

definition listWorkers :: "read_env \<Rightarrow> request \<Rightarrow> (int \<times> json) action" where
  "listWorkers env req =
     (let q = map_of (rq_query req); p = parsePagination (q ''page'') (q ''limit'') in
      bindA (callA env P_workers (readA (\<lambda>w. map (worker_item w)
        (paginate p (sort_key worker_order (matching_workers (q ''status'') w)))))) (\<lambda>vs.
      bindA (callA env P_count (readA (\<lambda>w. length (matching_workers (q ''status'') w)))) (\<lambda>n.
      retA (200, data_page vs (buildMeta (int n) (pg_page p) (pg_limit p))))))"

definition beat_fields :: "WorkerHeartbeat \<Rightarrow> (string \<times> json) list" where
  "beat_fields h = [(''activeJobCount'', jint (hb_activeJobCount h)), (''cpuLoad'', JNum (hb_cpuLoad h)),
     (''timestamp'', JDate (hb_timestamp h))]"

definition worker_executions :: "ident \<Rightarrow> world \<Rightarrow> JobExecution list" where
  "worker_executions workerId w =
     sort_key (\<lambda>x. - x_startedAt x) (filter (\<lambda>x. x_workerId x = workerId) (job_executions w))"

definition worker_detail :: "world \<Rightarrow> Worker \<Rightarrow> json" where
  "worker_detail w v = JObj (worker_row v @
     [(''totalExecutions'', jint (int (length (worker_executions (wk_id v) w)))),
      (''recentHeartbeats'', JArr (map (\<lambda>h. JObj ((''id'', JStr (hb_id h)) # beat_fields h))
         (recent_beats 5 (wk_id v) w))),
      (''recentExecutions'', JArr (map (\<lambda>x. JObj
         [(''id'', JStr (x_id x)), (''jobId'', JStr (x_jobId x)), (''attemptNumber'', jint (x_attemptNumber x)),
          (''status'', JStr (x_status x)), (''startedAt'', JDate (x_startedAt x)),
          (''finishedAt'', JNull_or JDate (x_finishedAt x)), (''durationMs'', JNull_or jint (x_durationMs x)),
          (''errorMessage'', JNull_or JStr (x_errorMessage x))])
         (take 10 (worker_executions (wk_id v) w))))])"

definition getWorker :: "read_env \<Rightarrow> request \<Rightarrow> (int \<times> json) action" where
  "getWorker env req =
     (let i = or_else (map_of (rq_params req) ''id'') [] in
      bindA (callA env P_worker (readA (\<lambda>w. map_option (worker_detail w) (worker_find w i)))) (\<lambda>found.
      bindA (someA (NotFoundError ''Worker not found'' None) found) (\<lambda>body. retA (200, body))))"

definition listHeartbeats :: "read_env \<Rightarrow> request \<Rightarrow> (int \<times> json) action" where
  "listHeartbeats env req =
     (let i = or_else (map_of (rq_params req) ''id'') [] in
      bindA (callA env P_worker (readA (\<lambda>w. worker_find w i))) (\<lambda>found.
      bindA (someA (NotFoundError ''Worker not found'' None) found) (\<lambda>_.
      bindA (callA env P_beats (readA (recent_beats 20 i))) (\<lambda>hs.
      retA (200, JObj [(''data'', JArr (map (\<lambda>h. JObj ([(''id'', JStr (hb_id h)),
        (''workerId'', JStr (hb_workerId h))] @ beat_fields h)) hs))])))))"

section \<open>The dashboard\<close>

definition jobs_in :: "ident list \<Rightarrow> JobStatus list \<Rightarrow> timestamp option \<Rightarrow> world \<Rightarrow> nat" where
  \<comment> \<open>\<open>job.count({ queueId: { in }, status: { in }, updatedAt: { gte } })\<close>\<close>
  "jobs_in queueIds statuses since w = count_where (\<lambda>j. j_queueId j \<in> set queueIds \<and>
     j_status j \<in> set statuses \<and> (case since of None \<Rightarrow> True | Some t \<Rightarrow> t \<le> j_updatedAt j)) (jobs w)"

definition summary_json :: "nat \<Rightarrow> nat \<Rightarrow> nat \<Rightarrow> nat \<Rightarrow> nat \<Rightarrow> nat \<Rightarrow> nat \<Rightarrow> nat \<Rightarrow> json" where
  "summary_json totalQueues activeWorkers totalWorkers failedJobs queuedJobs runningJobs completedJobsToday
       recentCompleted = JObj
     [(''totalQueues'', jint (int totalQueues)), (''activeWorkers'', jint (int activeWorkers)),
      (''totalWorkers'', jint (int totalWorkers)), (''failedJobs'', jint (int failedJobs)),
      (''queuedJobs'', jint (int queuedJobs)), (''runningJobs'', jint (int runningJobs)),
      (''completedJobsToday'', jint (int completedJobsToday)),
      (''jobsPerMinute'', JNum (per_minute recentCompleted))]"

text \<open>\<open>P_today\<close> reads midnight of the server's day, \<open>P_now\<close> the present.\<close>

definition dashboard_summary :: "read_env \<Rightarrow> request \<Rightarrow> (int \<times> json) action" where
  "dashboard_summary env req =
     bindA (someA noUser (rq_user req)) (\<lambda>user.
     bindA (callA env P_member (readA (\<lambda>w. user_orgs w (jp_sub user)))) (\<lambda>orgIds.
     bindA (callA env P_projects (readA (\<lambda>w. map p_id (org_projects orgIds w)))) (\<lambda>projectIds.
     bindA (callA env P_queues (readA (\<lambda>w. map q_id (filter (\<lambda>q. q_projectId q \<in> set projectIds) (queues w))))) (\<lambda>queueIds.
     bindA (callA env P_counts (readA (\<lambda>w. summary_json
         (count_where (\<lambda>q. q_projectId q \<in> set projectIds) (queues w))
         (count_where (\<lambda>v. wk_status v = Active) (workers w))
         (length (workers w))
         (jobs_in queueIds [Failed, Dead_letter] None w)
         (jobs_in queueIds [Queued] None w)
         (jobs_in queueIds [Claimed, Running] None w)
         (jobs_in queueIds [Completed] (Some (clock env P_today)) w)
         (jobs_in queueIds [Completed, Failed] (Some (clock env P_now - 5 * 60 * 1000)) w)))) (\<lambda>body.
     retA (200, body))))))"

section \<open>The dashboard counts what the user may see\<close>

definition accessible_queue :: "world \<Rightarrow> ident \<Rightarrow> Queue \<Rightarrow> bool" where
  "accessible_queue w userId q \<longleftrightarrow> (case project_org w (q_projectId q) of
     None \<Rightarrow> False | Some orgId \<Rightarrow> member_of w userId orgId)"

definition user_queue_ids :: "world \<Rightarrow> ident \<Rightarrow> ident list" where
  "user_queue_ids w userId = map q_id (filter (\<lambda>q. q_projectId q \<in>
     set (map p_id (org_projects (user_orgs w userId) w))) (queues w))"

lemma project_ids_accessible:
  assumes "distinct (map p_id (projects w))"
  shows "q_projectId q \<in> set (map p_id (org_projects (user_orgs w userId) w)) \<longleftrightarrow> accessible_queue w userId q"
proof
  assume "q_projectId q \<in> set (map p_id (org_projects (user_orgs w userId) w))"
  then obtain p where "p \<in> set (projects w)" "p_id p = q_projectId q" "member_of w userId (p_orgId p)"
    by (auto simp: org_projects_def user_orgs_member)
  then show "accessible_queue w userId q"
    using find_by_distinct [OF assms, of p]
    by (simp add: accessible_queue_def project_org_def project_find_def)
next
  assume "accessible_queue w userId q"
  then show "q_projectId q \<in> set (map p_id (org_projects (user_orgs w userId) w))"
    by (force simp: accessible_queue_def project_org_def project_find_def org_projects_def user_orgs_member
        dest: find_by_SomeD split: option.splits)
qed

lemma queue_ids_accessible:
  assumes "distinct (map p_id (projects w))" and "distinct (map q_id (queues w))"
  shows "j_queueId j \<in> set (user_queue_ids w userId) \<longleftrightarrow> accessible w userId j"
proof -
  have "j_queueId j \<in> set (user_queue_ids w userId) \<longleftrightarrow>
      (\<exists>q\<in>set (queues w). q_id q = j_queueId j \<and> accessible_queue w userId q)"
    unfolding user_queue_ids_def project_ids_accessible [OF assms(1)] by force
  also have "\<dots> \<longleftrightarrow> (case queue_find w (j_queueId j) of None \<Rightarrow> False | Some q \<Rightarrow> accessible_queue w userId q)"
  proof (cases "queue_find w (j_queueId j)")
    case None
    then have "j_queueId j \<notin> q_id ` set (queues w)" by (simp add: queue_find_def find_by_None_iff)
    with None show ?thesis by (auto simp: image_iff)
  next
    case (Some q)
    then have "q \<in> set (queues w)" "q_id q = j_queueId j" by (auto simp: queue_find_def dest: find_by_SomeD)
    moreover have "r = q" if "r \<in> set (queues w)" "q_id r = j_queueId j" for r
      using that find_by_distinct [OF assms(2), of r] Some by (simp add: queue_find_def)
    ultimately have "(\<exists>q\<in>set (queues w). q_id q = j_queueId j \<and> accessible_queue w userId q) \<longleftrightarrow>
        accessible_queue w userId q" by blast
    then show ?thesis by (simp add: Some)
  qed
  also have "\<dots> \<longleftrightarrow> accessible w userId j"
    by (simp add: accessible_def accessible_queue_def queue_org_def split: option.split)
  finally show ?thesis .
qed

definition visible_count :: "world \<Rightarrow> ident \<Rightarrow> (Job \<Rightarrow> bool) \<Rightarrow> nat" where
  "visible_count w userId p = count_where (\<lambda>j. accessible w userId j \<and> p j) (jobs w)"

text \<open>
  C38. The dashboard, which collects the ids of the user's organizations, their projects and their
  queues and counts by them, shows the counts over exactly the jobs and queues the user may see:
  failed (with dead-lettered) ones, queued ones, running (with claimed) ones, those completed today,
  and a fifth of those finished in the last five minutes; the workers it counts are all there are.
\<close>

theorem dashboard_counts_visible:
  assumes "\<And>p. fails env p = None" and "rq_user req = Some user"
    and "distinct (map p_id (projects w))" and "distinct (map q_id (queues w))"
  shows "dashboard_summary env req w = (Inr (200, summary_json
    (count_where (accessible_queue w (jp_sub user)) (queues w))
    (count_where (\<lambda>v. wk_status v = Active) (workers w)) (length (workers w))
    (visible_count w (jp_sub user) (\<lambda>j. j_status j = Failed \<or> j_status j = Dead_letter))
    (visible_count w (jp_sub user) (\<lambda>j. j_status j = Queued))
    (visible_count w (jp_sub user) (\<lambda>j. j_status j = Claimed \<or> j_status j = Running))
    (visible_count w (jp_sub user) (\<lambda>j. j_status j = Completed \<and> clock env P_today \<le> j_updatedAt j))
    (visible_count w (jp_sub user) (finished_since (clock env P_now - 300000)))), w)"
proof -
  have ids: "map q_id (filter (accessible_queue w u) (queues w)) = user_queue_ids w u" for u
    unfolding user_queue_ids_def project_ids_accessible [OF assms(3)] ..
  have "jobs_in (user_queue_ids w u) ss since w = visible_count w u (\<lambda>j. j_status j \<in> set ss \<and>
      (case since of None \<Rightarrow> True | Some t \<Rightarrow> t \<le> j_updatedAt j))" for u ss since
    unfolding jobs_in_def visible_count_def queue_ids_accessible [OF assms(3,4)] ..
  then show ?thesis
    using assms(1,2) project_ids_accessible [OF assms(3)]
    by (simp add: dashboard_summary_def run_rules callA_def ids finished_since_def [abs_def] conj_assoc)
qed

definition calm_read :: read_env where
  "calm_read = \<lparr>fails = (\<lambda>_. None), clock = (\<lambda>_. 9), fresh = (\<lambda>_. ''new''), pe_flatten = (\<lambda>_. JNull),
     pe_apiKey = ''key''\<rparr>"

theorem dashboard_counts_visible_witness:
  "\<exists>body. dashboard_summary calm_read (request_of ''bob'' []) rbac_world = (Inr (200, body), rbac_world) \<and>
    jget body ''queuedJobs'' = Some (jint 1)"
  using dashboard_counts_visible [of calm_read "request_of ''bob'' []" _ rbac_world]
  by (simp add: calm_read_def rbac_defs visible_count_def accessible_def member_of_def count_where_def
      summary_json_def)

section \<open>Who may create a project\<close>

text \<open>
  A project is created only in an organization the user is a member of, in whatever role (the
  documentation asks for admins); in every other case the state is unchanged.
\<close>

lemma createProject_needs_membership:
  "case fst (createProject env req w) of
     Inl e \<Rightarrow> snd (createProject env req w) = w
   | Inr _ \<Rightarrow> \<exists>user orgId name p. rq_user req = Some user \<and> createProjectSchema (rq_body req) = Some (orgId, name) \<and>
       member_of w (jp_sub user) orgId \<and> p_orgId p = orgId \<and> p_name p = name \<and>
       snd (createProject env req w) = w\<lparr>projects := projects w @ [p]\<rparr>"
proof (cases "createProjectSchema (rq_body req)")
  case (Some on)
  obtain orgId name where on: "on = (orgId, name)" by (cases on)
  show ?thesis
  proof (cases "rq_user req")
    case (Some user)
    then show ?thesis
      using \<open>createProjectSchema (rq_body req) = Some on\<close>
      by (cases "fails env P_member"; cases "fails env P_create"; cases "membership_find w orgId (jp_sub user)")
        (auto simp: on createProject_def callA_def project_create_def bindA_def someA_def retA_def throwA_def
          readA_def member_of_def intro!: exI [of _ "\<lparr>p_id = fresh env P_create, p_orgId = orgId,
            p_name = name, p_apiKey = pe_apiKey env, p_createdAt = clock env P_create\<rparr>"] split: prod.splits)
  qed (use \<open>createProjectSchema (rq_body req) = Some on\<close> in \<open>simp add: on createProject_def run_rules\<close>)
qed (simp add: createProject_def run_rules)

end
