(* ===== verification/Routes.thy ===== *)
theory Routes
  imports System AuthSpec ReadApi
begin

text \<open>
  The API as a whole: the route tables of \<open>api/src/routes\<close>, registered with their prefixes by
  \<open>buildApp\<close> of \<open>api/src/index.ts\<close>, the preHandlers in front of every handler, and the error
  handler behind it. Which route a URL selects is Fastify's decision: a property about every route
  of the table and every request whose parameters are those of the route's path does not depend
  on it. The state is the database and the buckets of the rate limiter.
\<close>

record services =
  sv_access :: "access_point env"
  sv_auth :: auth_env
  sv_api :: api_env
  sv_queues :: queues_env
  sv_read :: read_env
  sv_verify :: "request \<Rightarrow> js_error + JwtPayload"
  sv_redis :: "js_error option"  \<comment> \<open>the script of the rate limiter throws\<close>
  sv_now :: rat  \<comment> \<open>seconds\<close>
  sv_time :: timestamp  \<comment> \<open>of the health check\<close>

type_synonym 'a api_action = "(world \<times> buckets, js_error, 'a) act"

definition on_world :: "'a action \<Rightarrow> 'a api_action" where
  "on_world m s = (case m (fst s) of (r, w) \<Rightarrow> (r, (w, snd s)))"

section \<open>preHandlers\<close>

datatype preHandler = Pre_auth | Pre_member OrgMemberRole | Pre_limit string RateLimitConfig

fun run_pre :: "services \<Rightarrow> preHandler \<Rightarrow> request \<Rightarrow> request api_action" where
  "run_pre env Pre_auth req =
     (case requireAuth (sv_verify env) req of Inl e \<Rightarrow> throwA e | Inr req' \<Rightarrow> retA req')"
| "run_pre env (Pre_member minRole) req =
     bindA (on_world (requireOrgMember (sv_access env) minRole req)) (\<lambda>_. retA req)"
| "run_pre env (Pre_limit name cfg) req =
     (case sv_redis env of
        Some e \<Rightarrow> throwA e
      | None \<Rightarrow> bindA (\<lambda>(w, bs). case rateLimit name cfg (sv_now env) req bs of (r, bs') \<Rightarrow> (r, (w, bs')))
          (\<lambda>_. retA req))"

fun run_pres :: "services \<Rightarrow> preHandler list \<Rightarrow> request \<Rightarrow> request api_action" where
  "run_pres env [] req = retA req"
| "run_pres env (p # ps) req = bindA (run_pre env p req) (run_pres env ps)"

section \<open>The route tables\<close>

datatype http_method = GET | POST | PATCH

record route =
  rt_method :: http_method
  rt_path :: string
  rt_pre :: "preHandler list"
  rt_handler :: "services \<Rightarrow> request \<Rightarrow> Reply action"

definition sends :: "(services \<Rightarrow> request \<Rightarrow> (int \<times> json) action) \<Rightarrow> services \<Rightarrow> request \<Rightarrow> Reply action" where
  "sends h env req = bindA (h env req) (\<lambda>(status, body).
     retA \<lparr>re_status = status, re_body = body, re_cookies = []\<rparr>)"

abbreviation to :: "http_method \<Rightarrow> string \<Rightarrow> preHandler list \<Rightarrow>
    (services \<Rightarrow> request \<Rightarrow> Reply action) \<Rightarrow> route" where
  "to m path pre h \<equiv> \<lparr>rt_method = m, rt_path = path, rt_pre = pre, rt_handler = h\<rparr>"

definition authRateLimit :: preHandler where
  "authRateLimit = Pre_limit ''auth'' AUTH_LIMIT"

definition authRoutes :: "route list" where
  "authRoutes =
     [to POST ''/register'' [authRateLimit] (\<lambda>env. register (sv_auth env)),
      to POST ''/login'' [authRateLimit] (\<lambda>env. login (sv_auth env)),
      to POST ''/refresh'' [] (\<lambda>env. refresh (sv_auth env)),
      to POST ''/logout'' [] (\<lambda>env. logout (sv_auth env))]"

definition projectRoutes :: "route list" where
  "projectRoutes =
     [to POST ''/projects'' [Pre_auth] (sends (\<lambda>env. createProject (sv_read env))),
      to GET ''/projects'' [Pre_auth] (sends (\<lambda>env. listProjects (sv_read env))),
      to GET ''/projects/:id'' [Pre_auth] (sends (\<lambda>env. getProject (sv_read env)))]"

definition queueRoutes :: "route list" where
  "queueRoutes =
     [to POST ''/projects/:projectId/queues'' [Pre_auth, Pre_member Admin]
        (sends (\<lambda>env. createQueue (sv_queues env))),
      to GET ''/projects/:projectId/queues'' [Pre_auth, Pre_member Member]
        (sends (\<lambda>env. listQueues (sv_queues env))),
      to PATCH ''/queues/:id'' [Pre_auth, Pre_member Admin] (sends (\<lambda>env. updateQueue (sv_queues env))),
      to GET ''/queues/:id/stats'' [Pre_auth, Pre_member Member]
        (sends (\<lambda>env. queueStats (sv_queues env)))]"

definition jobRateLimit :: preHandler where
  "jobRateLimit = Pre_limit ''job_submission'' JOB_SUBMISSION_LIMIT"

definition jobRoutes :: "route list" where
  "jobRoutes =
     [to POST ''/queues/:queueId/jobs'' [Pre_auth, Pre_member Member, jobRateLimit]
        (sends (\<lambda>env. createJob (sv_api env))),
      to POST ''/queues/:queueId/jobs/batch'' [Pre_auth, Pre_member Member, jobRateLimit]
        (sends (\<lambda>env. createBatch (sv_api env))),
      to GET ''/jobs'' [Pre_auth] (sends (\<lambda>env. listJobs (sv_api env))),
      to GET ''/jobs/:id'' [Pre_auth] (sends (\<lambda>env. getJob (sv_api env))),
      to GET ''/jobs/:id/executions'' [Pre_auth] (sends (\<lambda>env. listExecutions (sv_api env))),
      to GET ''/jobs/:id/logs'' [Pre_auth] (sends (\<lambda>env. listLogs (sv_api env))),
      to POST ''/jobs/:id/retry'' [Pre_auth, Pre_member Member] (sends (\<lambda>env. retryJob (sv_api env))),
      to POST ''/jobs/:id/cancel'' [Pre_auth, Pre_member Member] (sends (\<lambda>env. cancelJob (sv_api env)))]"

definition workerRoutes :: "route list" where
  "workerRoutes =
     [to GET ''/workers'' [Pre_auth] (sends (\<lambda>env. listWorkers (sv_read env))),
      to GET ''/workers/:id'' [Pre_auth] (sends (\<lambda>env. getWorker (sv_read env))),
      to GET ''/workers/:id/heartbeats'' [Pre_auth] (sends (\<lambda>env. listHeartbeats (sv_read env)))]"

definition dashboardRoutes :: "route list" where
  "dashboardRoutes =
     [to GET ''/dashboard/summary'' [Pre_auth] (sends (\<lambda>env. dashboard_summary (sv_read env)))]"

definition health :: "services \<Rightarrow> request \<Rightarrow> (int \<times> json) action" where
  "health env req = retA (200, JObj [(''status'', JStr ''ok''), (''service'', JStr ''chronos-api''),
     (''timestamp'', JDate (sv_time env))])"

definition registered :: "string \<Rightarrow> route list \<Rightarrow> route list" where
  \<comment> \<open>\<open>fastify.register(plugin, { prefix })\<close>\<close>
  "registered prefix rs = map (\<lambda>r. r\<lparr>rt_path := prefix @ rt_path r\<rparr>) rs"

definition api_routes :: "route list" where
  "api_routes =
     registered ''/auth'' authRoutes @
     registered ''/projects'' projectRoutes @
     registered [] queueRoutes @
     registered [] jobRoutes @
     registered ''/workers'' workerRoutes @
     registered ''/dashboard'' dashboardRoutes @
     [to GET ''/health'' [] (sends health)]"

lemmas route_tables = api_routes_def registered_def authRoutes_def projectRoutes_def queueRoutes_def
  jobRoutes_def workerRoutes_def dashboardRoutes_def authRateLimit_def jobRateLimit_def

text \<open>The names of the parameters of a path: its segments that start with a colon.\<close>

fun segments :: "string \<Rightarrow> string list" where
  "segments [] = [[]]"
| "segments (c # cs) =
     (if c = CHR ''/'' then [] # segments cs
      else case segments cs of s # ss \<Rightarrow> (c # s) # ss | [] \<Rightarrow> [[c]])"

definition path_params :: "string \<Rightarrow> string list" where
  "path_params path = map tl (filter (\<lambda>s. s \<noteq> [] \<and> hd s = CHR '':'') (segments path))"

section \<open>One request\<close>

definition respond :: "services \<Rightarrow> route \<Rightarrow> request \<Rightarrow> world \<times> buckets \<Rightarrow> Reply \<times> (world \<times> buckets)" where
  "respond env r req s =
     (case bindA (run_pres env (rt_pre r) req) (\<lambda>req'. on_world (rt_handler r env req')) s of
        (Inr reply, s') \<Rightarrow> (reply, s')
      | (Inl e, s') \<Rightarrow> (case errorHandler e of (status, body) \<Rightarrow>
          (\<lparr>re_status = status, re_body = body, re_cookies = []\<rparr>, s')))"

text \<open>
  The tables define their paths in full and are registered with the same prefix again: the
  documented \<open>/projects\<close> is served at \<open>/projects/projects\<close>, and so on.
\<close>

lemma doubled_prefixes:
  "{''/projects/projects'', ''/workers/workers'', ''/dashboard/dashboard/summary''} \<subseteq> rt_path ` set api_routes"
  "''/projects'' \<notin> rt_path ` set api_routes" "''/workers'' \<notin> rt_path ` set api_routes"
  "''/dashboard/summary'' \<notin> rt_path ` set api_routes"
  by (simp_all add: route_tables)

section \<open>Every route but five needs a token\<close>

definition public_paths :: "string set" where
  "public_paths = {''/auth/register'', ''/auth/login'', ''/auth/refresh'', ''/auth/logout'', ''/health''}"

lemma protected_routes:
  "r \<in> set api_routes \<Longrightarrow> rt_path r \<notin> public_paths \<Longrightarrow> \<exists>ps. rt_pre r = Pre_auth # ps"
  by (auto simp: route_tables public_paths_def)

lemma refused_401:
  assumes "auth_token req = None \<or> (case verify req of Inl e \<Rightarrow> True | Inr p \<Rightarrow> jp_type p \<noteq> ''access'')"
  shows "\<exists>e. requireAuth verify req = Inl e \<and> fst (errorHandler e) = 401"
  using assms by (cases "auth_token req"; cases "verify req") (auto simp: requireAuth_def UnauthorizedError_def)

text \<open>
  Whatever route of the API a request reaches, other than register, login, refresh, logout and
  the health check: without a valid access token it is answered 401, and neither the database nor
  the rate limiter changes.
\<close>

lemma api_needs_token:
  assumes "r \<in> set api_routes" and "rt_path r \<notin> public_paths"
    and "auth_token req = None \<or> (case sv_verify env req of Inl e \<Rightarrow> True | Inr p \<Rightarrow> jp_type p \<noteq> ''access'')"
  shows "re_status (fst (respond env r req s)) = 401 \<and> snd (respond env r req s) = s"
proof -
  obtain ps where "rt_pre r = Pre_auth # ps" using protected_routes [OF assms(1,2)] by blast
  moreover obtain e where "requireAuth (sv_verify env) req = Inl e" "fst (errorHandler e) = 401"
    using refused_401 [of req "sv_verify env"] assms(3) by blast
  ultimately show ?thesis
    by (cases "errorHandler e") (simp add: respond_def bindA_assoc throwA_def)
qed

definition demo_services :: services where
  "demo_services = \<lparr>sv_access = calm_env 0, sv_auth = demo_auth ''jti'' 0, sv_api = demo_api 0,
     sv_queues = quiet_queues, sv_read = calm_read,
     sv_verify = (\<lambda>req. case rq_authorization req of
        None \<Rightarrow> Inl (PlainError ''no token'')
      | Some h \<Rightarrow> Inr \<lparr>jp_sub = drop 7 h, jp_email = [], jp_role = [], jp_type = ''access'', jp_jti = None\<rparr>),
     sv_redis = None, sv_now = 0, sv_time = 0\<rparr>"

definition bare_request :: "string option \<Rightarrow> (string \<times> string) list \<Rightarrow> json \<Rightarrow> request" where
  "bare_request bearer params body = \<lparr>rq_authorization = map_option (\<lambda>t. ''Bearer '' @ t) bearer,
     rq_cookies = [], rq_params = params, rq_query = [], rq_body = body, rq_ip = Some ''10.0.0.1'',
     rq_user = None\<rparr>"

definition submit_route :: route where
  "submit_route = to POST ''/queues/:queueId/jobs'' [Pre_auth, Pre_member Member, jobRateLimit]
     (sends (\<lambda>env. createJob (sv_api env)))"

lemma submit_route [simp]: "submit_route \<in> set api_routes"
  by (simp add: submit_route_def route_tables)

lemma api_needs_token_witness:
  "re_status (fst (respond demo_services submit_route
     (bare_request None [(''queueId'', ''q'')] JNull) (rbac_world, Map.empty))) = 401"
  using api_needs_token [OF submit_route, of "bare_request None [(''queueId'', ''q'')] JNull" demo_services]
  by (simp add: submit_route_def public_paths_def auth_token_def bare_request_def truthy_str_def)

end
