(* ===== verification/Authority.thy ===== *)
theory Authority
  imports Routes
begin

text \<open>
  What a request may change: only rows in reach of its subject, the rows of organizations the
  subject is a member of. The relation \<open>touches\<close> is kept by every handler under the checks its
  preHandlers have made; it follows for the whole route table.
\<close>

section \<open>Rows in reach\<close>

text \<open>
  For predicates \<open>mq\<close>, \<open>mp\<close>, \<open>mj\<close> on the ids of queues, projects and jobs: the rows outside.
  The API never writes the last group of tables.
\<close>

definition outside ::
    "(ident \<Rightarrow> bool) \<Rightarrow> (ident \<Rightarrow> bool) \<Rightarrow> (ident \<Rightarrow> bool) \<Rightarrow> world \<Rightarrow>
      (Job list \<times> ScheduledJob list \<times> Queue list \<times> DeadLetterJob list) \<times>
      JobExecution list \<times> JobLog list \<times> Worker list \<times> WorkerHeartbeat list \<times> RetryPolicy list" where
  "outside mq mp mj w =
     ((filter (\<lambda>j. \<not> mq (j_queueId j)) (jobs w), filter (\<lambda>d. \<not> mq (s_queueId d)) (scheduled_jobs w),
       filter (\<lambda>q. \<not> mp (q_projectId q)) (queues w),
       filter (\<lambda>d. \<not> mj (d_originalJobId d)) (dead_letter_jobs w)),
      job_executions w, job_logs w, workers w, worker_heartbeats w, retry_policies w)"

definition owned :: "(ident \<Rightarrow> bool) \<Rightarrow> (ident \<Rightarrow> bool) \<Rightarrow> world \<Rightarrow> bool" where
  "owned mq mj w \<longleftrightarrow> list_all (\<lambda>j. mj (j_id j) \<longrightarrow> mq (j_queueId j)) (jobs w)"

definition touches :: "(ident \<Rightarrow> bool) \<Rightarrow> (ident \<Rightarrow> bool) \<Rightarrow> (ident \<Rightarrow> bool) \<Rightarrow> world \<Rightarrow> world \<Rightarrow> bool" where
  "touches mq mp mj s t \<longleftrightarrow>
     (owned mq mj s \<longrightarrow> owned mq mj t \<and> outside mq mp mj t = outside mq mp mj s)"

interpretation reach: two_state "touches mq mp mj" for mq mp mj :: "ident \<Rightarrow> bool"
  by unfold_locales (simp_all add: touches_def)

lemma touches_frame:
  assumes "jobs t = jobs s" "scheduled_jobs t = scheduled_jobs s" "queues t = queues s"
    "dead_letter_jobs t = dead_letter_jobs s" "job_executions t = job_executions s" "job_logs t = job_logs s"
    "workers t = workers s" "worker_heartbeats t = worker_heartbeats s" "retry_policies t = retry_policies s"
  shows "touches mq mp mj s t"
  using assms by (simp add: touches_def owned_def outside_def)

lemma reach_call: "guar (touches mq mp mj) m \<Longrightarrow> guar (touches mq mp mj) (callA env p m)"
  by (rule call_guar) unfold_locales

lemma reach_prod: "(\<And>a b. guar (touches mq mp mj) (f a b)) \<Longrightarrow> guar (touches mq mp mj) (case x of (a, b) \<Rightarrow> f a b)"
  by (cases x) simp

text \<open>A lookup by id gives a row with that id.\<close>

lemma reach_read:
  "(\<And>s. guar (touches mq mp mj) (f (g s))) \<Longrightarrow> guar (touches mq mp mj) (bindA (callA env p (readA g)) f)"
  by (auto simp: guar_def bindA_def callA_def readA_def throwA_def reach.refl_R split: option.split)

section \<open>The calls that write\<close>

lemma reach_publish: "guar (touches mq mp mj) (publish c m)"
  by (rule guarI) (simp add: publish_def modifyA_def touches_frame)

lemma reach_job_create:
  assumes "mq (j_queueId j)" shows "guar (touches mq mp mj) (job_create j)"
  by (rule guarI) (use assms in \<open>simp add: job_create_def touches_def owned_def outside_def\<close>)

lemma reach_sched_create:
  assumes "mq (s_queueId d)" shows "guar (touches mq mp mj) (sched_create d)"
  by (rule guarI) (use assms in \<open>simp add: sched_create_def touches_def owned_def outside_def\<close>)

lemma reach_queue_create:
  assumes "mp (q_projectId q)" shows "guar (touches mq mp mj) (queue_create q)"
  by (rule guarI) (use assms in \<open>simp add: queue_create_def touches_def owned_def outside_def\<close>)

lemma reach_dlq_delete:
  assumes "mj i" shows "guar (touches mq mp mj) (dlq_delete i)"
proof (rule guarI)
  have *: "filter (\<lambda>d. d_originalJobId d \<noteq> i \<and> \<not> mj (d_originalJobId d)) ds =
      filter (\<lambda>d. \<not> mj (d_originalJobId d)) ds" for ds
    by (rule filter_cong) (use assms in auto)
  show "touches mq mp mj s (snd (dlq_delete i s))" for s
    by (simp add: * dlq_delete_def touches_def owned_def outside_def split: option.split)
qed

lemma reach_job_update:
  assumes "mj i" and "\<And>j. j_id (f j) = j_id j" and "\<And>j. j_queueId (f j) = j_queueId j"
  shows "guar (touches mq mp mj) (job_update i f)"
proof (rule guarI)
  fix s
  have "list_all (\<lambda>j. mj (j_id j) \<longrightarrow> mq (j_queueId j)) js \<Longrightarrow>
      filter (\<lambda>j. \<not> mq (j_queueId j)) (update_by j_id i f js) = filter (\<lambda>j. \<not> mq (j_queueId j)) js \<and>
      list_all (\<lambda>j. mj (j_id j) \<longrightarrow> mq (j_queueId j)) (update_by j_id i f js)" for js
    using assms by (induction js) (auto simp: update_by_def)
  then show "touches mq mp mj s (snd (job_update i f s))"
    by (simp add: job_update_def job_put_def touches_def owned_def outside_def split: option.split)
qed

lemmas reach_walk = reach.ret_guar reach.throw_guar reach.read_guar reach.some_guar reach.unless_guar
  reach.bind_guar reach.catch_guar reach.atomic_guar reach.for_guar reach.map_guar
  reach.if_guar reach.option_guar reach_call reach_prod reach_publish

section \<open>The handlers that write jobs and queues\<close>

lemma create_cron_reach: "mq (q_id queue) \<Longrightarrow> guar (touches mq mp mj) (create_cron env queue cj c)"
  by (auto simp: create_cron_def Let_def intro!: reach_walk reach_sched_create)

lemma create_one_shot_reach: "mq (q_id queue) \<Longrightarrow> guar (touches mq mp mj) (create_one_shot env queue cj)"
  by (auto simp: create_one_shot_def Let_def new_job_def intro!: reach_walk reach_job_create)

lemma batch_rows_reach:
  "mq (q_id queue) \<Longrightarrow> guar (touches mq mp mj) (mapA job_create (batch_rows env queue cjs))"
  by (rule reach.map_guar) (auto simp: batch_rows_def Let_def new_job_def intro!: reach_job_create)

text \<open>Both submissions look the queue up by the parameter \<open>queueId\<close>.\<close>

lemma found_queue:
  assumes "\<And>queue. q_id queue = i \<Longrightarrow> guar (touches mq mp mj) (h queue)"
  shows "guar (touches mq mp mj)
    (bindA (callA env p (readA (\<lambda>w. queue_find w i))) (\<lambda>q. bindA (someA e q) h))"
proof (rule reach_read)
  show "guar (touches mq mp mj) (bindA (someA e (queue_find s i)) h)" for s
    by (cases "queue_find s i")
      (auto simp: someA_def queue_find_def reach.throw_guar dest: find_by_SomeD intro: assms)
qed

lemma createJob_reach:
  assumes "mq (or_else (map_of (rq_params req) ''queueId'') [])"
  shows "guar (touches mq mp mj) (createJob env req)"
  unfolding createJob_def Let_def
  by (intro reach.bind_guar [OF reach.some_guar] found_queue)
    (auto intro!: reach_walk create_cron_reach create_one_shot_reach simp: assms)

lemma createBatch_reach:
  assumes "mq (or_else (map_of (rq_params req) ''queueId'') [])"
  shows "guar (touches mq mp mj) (createBatch env req)"
  unfolding createBatch_def Let_def
  by (intro reach.bind_guar [OF reach.some_guar] found_queue)
    (auto intro!: reach_walk batch_rows_reach simp: assms)

lemma retryJob_reach:
  assumes "mj (or_else (map_of (rq_params req) ''id'') [])"
  shows "guar (touches mq mp mj) (retryJob env req)"
  unfolding retryJob_def Let_def
  by (auto intro!: reach_walk reach_dlq_delete reach_job_update simp: assms)

lemma cancelJob_reach:
  assumes "mj (or_else (map_of (rq_params req) ''id'') [])"
  shows "guar (touches mq mp mj) (cancelJob env req)"
  unfolding cancelJob_def cancel_update_def Let_def
  by (auto intro!: reach_walk reach_job_update simp: assms)

lemma createQueue_reach:
  assumes "mp (or_else (map_of (rq_params req) ''projectId'') [])"
  shows "guar (touches mq mp mj) (createQueue env req)"
  unfolding createQueue_def Let_def
  by (auto intro!: reach_walk reach_queue_create simp: assms new_queue_def)

section \<open>The handlers that leave those tables alone\<close>

lemma reach_accounts:
  shows "guar (touches mq mp mj) (user_create u)" and "guar (touches mq mp mj) (org_create x)"
    and "guar (touches mq mp mj) (membership_create m)" and "guar (touches mq mp mj) (project_create p)"
    and "guar (touches mq mp mj) (storeRefreshJti aenv k)" and "guar (touches mq mp mj) (revokeRefreshJti aenv k)"
    and "guar (touches mq mp mj) (isRefreshJtiValid aenv k)"
  by (auto simp: guar_def user_create_def org_create_def membership_create_def project_create_def
      storeRefreshJti_def revokeRefreshJti_def isRefreshJtiValid_def callA_def modifyA_def readA_def throwA_def
      drop_jti_def intro: touches_frame split: option.split)

lemma sends_reach:
  "guar (touches mq mp mj) (h env req) \<Longrightarrow> guar (touches mq mp mj) (sends h env req)"
  by (auto simp: sends_def intro!: reach_walk)

lemma auth_reach:
  shows "guar (touches mq mp mj) (register aenv req)" and "guar (touches mq mp mj) (login aenv req)"
    and "guar (touches mq mp mj) (refresh aenv req)" and "guar (touches mq mp mj) (logout aenv req)"
  unfolding register_def register_commit_def login_def refresh_def refresh_check_def refresh_rotate_def
    logout_def sum.case_eq_if
  by (intro reach_walk reach_accounts)+

lemma project_reach:
  shows "guar (touches mq mp mj) (createProject renv req)" and "guar (touches mq mp mj) (listProjects renv req)"
    and "guar (touches mq mp mj) (getProject renv req)"
  unfolding createProject_def listProjects_def getProject_def Let_def
  by (intro reach_walk reach_accounts)+

lemma queue_reads_reach:
  shows "guar (touches mq mp mj) (listQueues qenv req)" and "guar (touches mq mp mj) (queueStats qenv req)"
  unfolding listQueues_def queueStats_def Let_def
  by (intro reach_walk)+

lemma job_reads_reach:
  shows "guar (touches mq mp mj) (listJobs jenv req)" and "guar (touches mq mp mj) (getJob jenv req)"
    and "guar (touches mq mp mj) (listExecutions jenv req)" and "guar (touches mq mp mj) (listLogs jenv req)"
  unfolding listJobs_def getJob_def readable_job_def listExecutions_def listLogs_def Let_def
  by (intro reach_walk)+

lemma worker_reads_reach:
  shows "guar (touches mq mp mj) (listWorkers renv req)" and "guar (touches mq mp mj) (getWorker renv req)"
    and "guar (touches mq mp mj) (listHeartbeats renv req)" and "guar (touches mq mp mj) (dashboard_summary renv req)"
    and "guar (touches mq mp mj) (health env req)"
  unfolding listWorkers_def getWorker_def listHeartbeats_def dashboard_summary_def health_def Let_def
  by (intro reach_walk)+

lemmas readers_reach = auth_reach project_reach queue_reads_reach job_reads_reach worker_reads_reach

section \<open>What the preHandlers establish\<close>

definition subject :: "(request \<Rightarrow> js_error + JwtPayload) \<Rightarrow> request \<Rightarrow> ident option" where
  "subject verify req = (case requireAuth verify req of
     Inl _ \<Rightarrow> None | Inr req' \<Rightarrow> map_option jp_sub (rq_user req'))"

definition may_act :: "world \<Rightarrow> ident option \<Rightarrow> ident option \<Rightarrow> bool" where
  \<comment> \<open>the subject is a member of the organization, both being known\<close>
  "may_act w sub org \<longleftrightarrow> (case (sub, org) of (Some u, Some orgId) \<Rightarrow> member_of w u orgId | _ \<Rightarrow> False)"

lemma requireOrgMember_world: "snd (requireOrgMember env minRole req w) = w"
proof -
  have "guar (\<lambda>s t. id t = id s) (requireOrgMember env minRole req)"
    unfolding requireOrgMember_def resolve_org_def Let_def
    by (cases "rq_user req") (auto intro!: guar_rules split: option.split)
  from guarD [OF this, of w] show ?thesis by simp
qed

lemma pre_member_pass:
  assumes "requireOrgMember env minRole req w = (Inr (), w')" and "rq_user req = Some user"
  shows "\<exists>org orgId. resolve_org env (rq_params req) w = (Inr org, w) \<and> truthy_str org = Some orgId \<and>
    member_of w (jp_sub user) orgId"
proof -
  have world: "snd (resolve_org env (rq_params req) w) = w"
  proof -
    have "guar (\<lambda>s t. id t = id s) (resolve_org env (rq_params req))"
      unfolding resolve_org_def Let_def by (auto intro!: guar_rules split: option.split)
    from guarD [OF this, of w] show ?thesis by simp
  qed
  with assms show ?thesis
    by (cases "resolve_org env (rq_params req) w"; cases "fst (resolve_org env (rq_params req) w)")
      (auto simp: requireOrgMember_def bindA_def someA_def throwA_def retA_def callA_def readA_def member_of_def
        split: option.splits)
qed

lemma truthy_nil [simp]: "truthy_str (Some []) = None"
  by (simp add: truthy_str_def)

lemma resolve_queue:
  "resolve_org env [(''queueId'', i)] w = (Inr org, w) \<Longrightarrow> truthy_str org = Some o' \<Longrightarrow> queue_org w i = Some o'"
  by (cases "i = []"; cases "fails env A_queue"; cases "queue_org w i"; cases "queue_org w i = Some []")
    (simp_all add: resolve_org_def run_rules Let_def)

lemma resolve_project:
  "resolve_org env [(''projectId'', i)] w = (Inr org, w) \<Longrightarrow> truthy_str org = Some o' \<Longrightarrow> project_org w i = Some o'"
  by (cases "i = []"; cases "fails env A_project"; cases "project_org w i"; cases "project_org w i = Some []")
    (simp_all add: resolve_org_def run_rules Let_def)

lemma resolve_job:
  "resolve_org env [(''id'', i)] w = (Inr org, w) \<Longrightarrow> truthy_str org = Some o' \<Longrightarrow> job_org w i = Some o'"
  by (cases "i = []"; cases "fails env A_job"; cases "job_org w i")
    (simp_all add: resolve_org_def run_rules Let_def)

lemmas resolve_one = resolve_queue resolve_project resolve_job

lemma one_param: "map fst ps = [k] \<Longrightarrow> ps = [(k, or_else (map_of ps k) [])]"
  by (cases ps) (auto simp: or_else_def)

text \<open>The resource named by the only parameter of the path belongs to the user's organization.\<close>

lemma reach_param:
  assumes "requireOrgMember env minRole req w = (Inr (), w')" and "rq_user req = Some user"
  shows "map fst (rq_params req) = [''queueId''] \<Longrightarrow>
      may_act w (Some (jp_sub user)) (queue_org w (or_else (map_of (rq_params req) ''queueId'') []))"
    and "map fst (rq_params req) = [''projectId''] \<Longrightarrow>
      may_act w (Some (jp_sub user)) (project_org w (or_else (map_of (rq_params req) ''projectId'') []))"
    and "map fst (rq_params req) = [''id''] \<Longrightarrow>
      may_act w (Some (jp_sub user)) (job_org w (or_else (map_of (rq_params req) ''id'') []))"
proof -
  obtain org orgId where o: "resolve_org env (rq_params req) w = (Inr org, w)" "truthy_str org = Some orgId"
      and m: "member_of w (jp_sub user) orgId"
    using pre_member_pass [OF assms] by blast
  note resolve = resolve_one [OF _ o(2)]
  show "map fst (rq_params req) = [''queueId''] \<Longrightarrow>
      may_act w (Some (jp_sub user)) (queue_org w (or_else (map_of (rq_params req) ''queueId'') []))"
    using resolve(1) one_param [of "rq_params req"] o(1) m by (metis may_act_def option.case old.prod.case)
  show "map fst (rq_params req) = [''projectId''] \<Longrightarrow>
      may_act w (Some (jp_sub user)) (project_org w (or_else (map_of (rq_params req) ''projectId'') []))"
    using resolve(2) one_param [of "rq_params req"] o(1) m by (metis may_act_def option.case old.prod.case)
  show "map fst (rq_params req) = [''id''] \<Longrightarrow>
      may_act w (Some (jp_sub user)) (job_org w (or_else (map_of (rq_params req) ''id'') []))"
    using resolve(3) one_param [of "rq_params req"] o(1) m by (metis may_act_def option.case old.prod.case)
qed

lemma run_pre_world: "run_pre env p req s = (r, s') \<Longrightarrow> fst s' = fst s"
proof (cases p)
  case (Pre_member minRole)
  then show "run_pre env p req s = (r, s') \<Longrightarrow> fst s' = fst s"
    using requireOrgMember_world [of "sv_access env" minRole req "fst s"]
    by (auto simp: bindA_def on_world_def retA_def split: prod.splits sum.splits)
qed (auto simp: bindA_def retA_def throwA_def split: sum.splits option.splits prod.splits)

lemma run_pres_world: "run_pres env ps req s = (r, s') \<Longrightarrow> fst s' = fst s"
  by (induction ps arbitrary: req s)
    (auto simp: retA_def bindA_def dest: run_pre_world split: prod.splits sum.splits)

lemma limit_keeps_request: "run_pre env (Pre_limit name cfg) req s = (Inr req', s') \<Longrightarrow> req' = req"
  by (auto simp: bindA_def retA_def throwA_def split: sum.splits option.splits prod.splits)

text \<open>What has been established when the handler of a route with a role check runs.\<close>

lemma member_pre:
  assumes "run_pres env (Pre_auth # Pre_member minRole # ps) req s = (Inr req', s')"
    and "ps = [] \<or> ps = [jobRateLimit]"
  shows "\<exists>user. subject (sv_verify env) req = Some (jp_sub user) \<and> rq_user req' = Some user \<and>
    rq_params req' = rq_params req \<and> requireOrgMember (sv_access env) minRole req' (fst s) = (Inr (), fst s)"
proof -
  obtain req1 where auth: "requireAuth (sv_verify env) req = Inr req1"
    using assms(1) by (cases "requireAuth (sv_verify env) req") (simp_all add: throwA_def)
  then obtain user where user: "rq_user req1 = Some user" "rq_params req1 = rq_params req"
    by (auto simp: requireAuth_def split: option.splits sum.splits if_splits)
  have member: "bindA (run_pre env (Pre_member minRole) req1) (run_pres env ps) s = (Inr req', s')"
    using assms(1) auth by simp
  obtain x w1 where m: "requireOrgMember (sv_access env) minRole req1 (fst s) = (x, w1)"
    by (cases "requireOrgMember (sv_access env) minRole req1 (fst s)")
  then have w1: "w1 = fst s" using requireOrgMember_world [of "sv_access env" minRole req1 "fst s"] by simp
  then have "x = Inr ()" and rest: "run_pres env ps req1 s = (Inr req', s')"
    using member m by (cases x; simp add: bindA_def on_world_def retA_def)+
  have "req' = req1"
    using assms(2)
  proof
    assume "ps = []" then show ?thesis using rest by (simp add: retA_def)
  next
    assume "ps = [jobRateLimit]"
    then have "bindA (run_pre env jobRateLimit req1) (run_pres env []) s = (Inr req', s')" using rest by simp
    then show ?thesis
      by (cases "run_pre env jobRateLimit req1 s"; cases "fst (run_pre env jobRateLimit req1 s)")
        (auto simp: bindA_def retA_def jobRateLimit_def simp del: run_pre.simps dest: limit_keeps_request)
  qed
  then show ?thesis using auth user m w1 \<open>x = Inr ()\<close> by (simp add: subject_def)
qed

section \<open>The whole API\<close>

definition foreign_rows :: "world \<Rightarrow> ident option \<Rightarrow> world \<Rightarrow>
      (Job list \<times> ScheduledJob list \<times> Queue list \<times> DeadLetterJob list) \<times>
      JobExecution list \<times> JobLog list \<times> Worker list \<times> WorkerHeartbeat list \<times> RetryPolicy list" where
  "foreign_rows w sub = outside (\<lambda>i. may_act w sub (queue_org w i)) (\<lambda>i. may_act w sub (project_org w i))
     (\<lambda>i. may_act w sub (job_org w i))"

abbreviation in_reach :: "world \<Rightarrow> ident option \<Rightarrow> world \<Rightarrow> world \<Rightarrow> bool" where
  "in_reach w sub \<equiv> touches (\<lambda>i. may_act w sub (queue_org w i)) (\<lambda>i. may_act w sub (project_org w i))
     (\<lambda>i. may_act w sub (job_org w i))"

lemma respond_touches:
  assumes "\<And>req' s'. run_pres env (rt_pre r) req s = (Inr req', s') \<Longrightarrow>
    touches mq mp mj (fst s) (snd (rt_handler r env req' (fst s)))"
  shows "touches mq mp mj (fst s) (fst (snd (respond env r req s)))"
proof -
  obtain x s' where pre: "run_pres env (rt_pre r) req s = (x, s')" by (cases "run_pres env (rt_pre r) req s")
  then have s': "fst s' = fst s" by (rule run_pres_world)
  show ?thesis
  proof (cases x)
    case (Inl e)
    then show ?thesis using pre s'
      by (auto simp: respond_def bindA_def reach.refl_R split: prod.split)
  next
    case (Inr req')
    then have "fst (snd (respond env r req s)) = snd (rt_handler r env req' (fst s))"
      using pre s' by (auto simp: respond_def bindA_def on_world_def split: prod.split sum.split)
    then show ?thesis using assms [of req' s'] pre Inr by simp
  qed
qed

text \<open>The routes that write, the others being covered by \<open>readers_reach\<close>.\<close>

lemma writing_routes:
  assumes "r \<in> set api_routes"
  shows "(\<forall>mq mp mj env req. guar (touches mq mp mj) (rt_handler r env req)) \<or>
    (\<exists>minRole ps h. rt_pre r = Pre_auth # Pre_member minRole # ps \<and> (ps = [] \<or> ps = [jobRateLimit]) \<and>
      rt_handler r = sends h \<and>
      (path_params (rt_path r) = [''queueId''] \<and> (h = (\<lambda>env. createJob (sv_api env)) \<or> h = (\<lambda>env. createBatch (sv_api env))) \<or>
       path_params (rt_path r) = [''projectId''] \<and> h = (\<lambda>env. createQueue (sv_queues env)) \<or>
       path_params (rt_path r) = [''id''] \<and> (h = (\<lambda>env. retryJob (sv_api env)) \<or> h = (\<lambda>env. cancelJob (sv_api env)) \<or>
         h = (\<lambda>env. updateQueue (sv_queues env)))))"
  using assms unfolding api_routes_def set_append Un_iff
proof (elim disjE)
  assume "r \<in> set (registered ''/auth'' authRoutes)"
  then show ?thesis by (auto simp: registered_def authRoutes_def readers_reach)
next
  assume "r \<in> set (registered ''/projects'' projectRoutes)"
  then show ?thesis by (auto simp: registered_def projectRoutes_def readers_reach sends_reach)
next
  assume "r \<in> set (registered [] queueRoutes)"
  then show ?thesis by (auto simp: registered_def queueRoutes_def readers_reach sends_reach path_params_def)
next
  assume "r \<in> set (registered [] jobRoutes)"
  then show ?thesis by (auto simp: registered_def jobRoutes_def readers_reach sends_reach path_params_def)
next
  assume "r \<in> set (registered ''/workers'' workerRoutes)"
  then show ?thesis by (auto simp: registered_def workerRoutes_def readers_reach sends_reach)
next
  assume "r \<in> set (registered ''/dashboard'' dashboardRoutes)"
  then show ?thesis by (auto simp: registered_def dashboardRoutes_def readers_reach sends_reach)
qed (auto simp: readers_reach sends_reach)

text \<open>In a database with unique job ids, the jobs in reach are those of the queues in reach.\<close>

lemma owned_start:
  assumes "distinct (map j_id (jobs w))"
  shows "owned (\<lambda>i. may_act w sub (queue_org w i)) (\<lambda>i. may_act w sub (job_org w i)) w"
  unfolding owned_def list_all_iff
proof
  fix j assume "j \<in> set (jobs w)"
  then have "job_org w (j_id j) = queue_org w (j_queueId j)"
    using find_by_distinct [OF assms] by (simp add: job_org_def job_find_def)
  then show "may_act w sub (job_org w (j_id j)) \<longrightarrow> may_act w sub (queue_org w (j_queueId j))" by simp
qed

lemma updateQueue_missing:
  assumes "queue_find w (or_else (map_of (rq_params req) ''id'') []) = None"
  shows "snd (sends (\<lambda>env. updateQueue (sv_queues env)) env req w) = w"
  using assms
  by (cases "updateQueueSchema (rq_body req)"; cases "fails (sv_queues env) Q_find")
    (simp_all add: sends_def updateQueue_def Let_def run_rules bindA_assoc)

lemma writer_reach:
  assumes h: "path_params path = [''queueId''] \<and> (h = (\<lambda>env. createJob (sv_api env)) \<or> h = (\<lambda>env. createBatch (sv_api env))) \<or>
       path_params path = [''projectId''] \<and> h = (\<lambda>env. createQueue (sv_queues env)) \<or>
       path_params path = [''id''] \<and> (h = (\<lambda>env. retryJob (sv_api env)) \<or> h = (\<lambda>env. cancelJob (sv_api env)) \<or>
         h = (\<lambda>env. updateQueue (sv_queues env)))"
    and params: "map fst (rq_params req) = path_params path"
    and pre: "requireOrgMember aenv minRole req w = (Inr (), w)" "rq_user req = Some user"
    and ids: "q_id ` set (queues w) \<inter> j_id ` set (jobs w) = {}"
  shows "in_reach w (Some (jp_sub user)) w (snd (sends h env req w))"
  using h
proof (elim disjE conjE)
  assume "path_params path = [''queueId'']" "h = (\<lambda>env. createJob (sv_api env))"
  then show ?thesis using reach_param(1) [OF pre] params
    by (simp add: guarD [OF sends_reach [OF createJob_reach]])
next
  assume "path_params path = [''queueId'']" "h = (\<lambda>env. createBatch (sv_api env))"
  then show ?thesis using reach_param(1) [OF pre] params
    by (simp add: guarD [OF sends_reach [OF createBatch_reach]])
next
  assume "path_params path = [''projectId'']" "h = (\<lambda>env. createQueue (sv_queues env))"
  then show ?thesis using reach_param(2) [OF pre] params
    by (simp add: guarD [OF sends_reach [OF createQueue_reach]])
next
  assume "path_params path = [''id'']" "h = (\<lambda>env. retryJob (sv_api env))"
  then show ?thesis using reach_param(3) [OF pre] params
    by (simp add: guarD [OF sends_reach [OF retryJob_reach]])
next
  assume "path_params path = [''id'']" "h = (\<lambda>env. cancelJob (sv_api env))"
  then show ?thesis using reach_param(3) [OF pre] params
    by (simp add: guarD [OF sends_reach [OF cancelJob_reach]])
next
  assume p: "path_params path = [''id'']" and h: "h = (\<lambda>env. updateQueue (sv_queues env))"
  let ?v = "or_else (map_of (rq_params req) ''id'') []"
  have "job_find w ?v \<noteq> None"
    using reach_param(3) [OF pre] params p
    by (auto simp: may_act_def job_org_def bind_eq_Some_conv split: option.splits)
  then have "queue_find w ?v = None"
    using ids by (auto simp: queue_find_def job_find_def find_by_None_iff)
  then show ?thesis unfolding h by (simp add: updateQueue_missing reach.refl_R)
qed

text \<open>
  C6. No request reaches outside its subject's organizations: whatever route of the API it hits,
  whatever its parameters and body, and whatever fails while it is served, every job, cron
  definition, queue and dead letter that does not belong to an organization its (verified) subject
  is a member of is the same afterwards, and so are all executions, logs, workers, heartbeats and
  retry policies. Without a valid token everything is foreign.
\<close>

theorem api_integrity:
  assumes "r \<in> set api_routes" and "map fst (rq_params req) = path_params (rt_path r)"
    and "distinct (map j_id (jobs w))" and "q_id ` set (queues w) \<inter> j_id ` set (jobs w) = {}"
    and "sub = subject (sv_verify env) req"
  shows "foreign_rows w sub (fst (snd (respond env r req (w, bs)))) = foreign_rows w sub w"
proof -
  have "in_reach w sub (fst (w, bs)) (fst (snd (respond env r req (w, bs))))"
  proof (rule respond_touches)
    fix req' s'
    assume pre: "run_pres env (rt_pre r) req (w, bs) = (Inr req', s')"
    show "in_reach w sub (fst (w, bs)) (snd (rt_handler r env req' (fst (w, bs))))"
      using writing_routes [OF assms(1)]
    proof (elim disjE exE conjE)
      assume "\<forall>mq mp mj env req. guar (touches mq mp mj) (rt_handler r env req)"
      then show ?thesis by (simp add: guarD)
    qed (use pre member_pre [of env _ _ req "(w, bs)" req' s'] assms(2,5) in
        \<open>fastforce intro!: writer_reach [where path = "rt_path r"] assms(4)\<close>)+
  qed
  then show ?thesis using owned_start [OF assms(3)] by (simp add: touches_def foreign_rows_def)
qed

text \<open>Someone from outside who submits a job to the queue of an organization adds none.\<close>

theorem api_integrity_witness:
  "jobs (fst (snd (respond demo_services submit_route
     (bare_request (Some ''eve'') [(''queueId'', ''q'')] demo_body) (rbac_world, Map.empty)))) = jobs rbac_world"
proof -
  let ?req = "bare_request (Some ''eve'') [(''queueId'', ''q'')] demo_body"
  have eve: "subject (sv_verify demo_services) ?req = Some ''eve''"
    by (simp add: subject_def requireAuth_def auth_token_def bare_request_def demo_services_def starts_with_def)
  have "may_act rbac_world (Some ''eve'') org = False" for org
    by (simp add: may_act_def member_of_def rbac_defs split: option.split)
  then show ?thesis
    using api_integrity [OF submit_route, of ?req rbac_world "Some ''eve''" demo_services Map.empty] eve
    by (simp add: foreign_rows_def outside_def submit_route_def path_params_def bare_request_def rbac_defs)
qed

end
