(* ===== verification/JsonSchema.thy ===== *)
theory JsonSchema
  imports Schema
begin

text \<open>
  JSON Schema, as far as the routes of the API use it: the schemas they declare for parameters,
  query, body and responses are values of the type \<open>schema\<close>, and \<open>conforms\<close> says what they mean.
  Fastify gives them to two libraries, one that validates requests and one that writes responses;
  of the latter \<open>serializes\<close> states what it documents, that only declared properties are written.
  \<open>returns\<close> reasons about the value an action returns.
\<close>

section \<open>Schemas\<close>

datatype schema =
    S_string nat "string option"  \<comment> \<open>\<open>minLength\<close>, \<open>format\<close>\<close>
  | S_enum "string list"
  | S_number
  | S_boolean
  | S_array schema
  | S_object "string list" "(string \<times> schema) list"  \<comment> \<open>\<open>required\<close>, \<open>properties\<close>\<close>
  | S_nullable schema

abbreviation S_str :: schema where "S_str \<equiv> S_string 0 None"

abbreviation S_props :: "(string \<times> schema) list \<Rightarrow> schema" where "S_props \<equiv> S_object []"

abbreviation S_any_object :: schema where "S_any_object \<equiv> S_object [] []"

lemma size_prop: "p \<in> set props \<Longrightarrow> size (snd p) < Suc (size_list (size_prod (\<lambda>x. 0) size) props)"
  by (induction props) (auto simp: size_prod_def split: prod.splits)

text \<open>A date is written in ISO format, so it conforms as a text without further conditions.\<close>

definition text_ok :: "(string \<Rightarrow> string \<Rightarrow> bool) \<Rightarrow> nat \<Rightarrow> string option \<Rightarrow> json \<Rightarrow> bool" where
  "text_ok fmt least format v = (case v of
     JStr s \<Rightarrow> least \<le> length s \<and> (case format of None \<Rightarrow> True | Some f \<Rightarrow> fmt f s)
   | JDate _ \<Rightarrow> least = 0 \<and> format = None
   | _ \<Rightarrow> False)"

text \<open>The formats (\<open>email\<close>, \<open>date-time\<close>) are the validator's, the argument \<open>fmt\<close>.\<close>

function conforms :: "(string \<Rightarrow> string \<Rightarrow> bool) \<Rightarrow> schema \<Rightarrow> json \<Rightarrow> bool" where
  "conforms fmt (S_string least format) v = text_ok fmt least format v"
| "conforms fmt (S_enum values) v = (case v of JStr s \<Rightarrow> s \<in> set values | _ \<Rightarrow> False)"
| "conforms fmt S_number v = (case v of JNum _ \<Rightarrow> True | _ \<Rightarrow> False)"
| "conforms fmt S_boolean v = (case v of JBool _ \<Rightarrow> True | _ \<Rightarrow> False)"
| "conforms fmt (S_array s) v = (case v of JArr vs \<Rightarrow> list_all (conforms fmt s) vs | _ \<Rightarrow> False)"
| "conforms fmt (S_object required props) v = (case v of
     JObj fs \<Rightarrow> list_all (\<lambda>k. map_of fs k \<noteq> None) required \<and>
       list_all (\<lambda>p. case map_of fs (fst p) of None \<Rightarrow> True | Some x \<Rightarrow> conforms fmt (snd p) x) props
   | _ \<Rightarrow> False)"
| "conforms fmt (S_nullable s) v = (v = JNull \<or> conforms fmt s v)"
  by pat_completeness auto

termination
  by (relation "measure (\<lambda>(fmt, s, v). size s)") (auto dest: size_prop)

section \<open>Writing responses\<close>

text \<open>
  What \<open>fast-json-stringify\<close> documents about a schema of type object: the declared properties that
  are present are written, in the order of the schema, each by its own schema, and nothing else.
\<close>

definition serializes :: "(schema \<Rightarrow> json \<Rightarrow> json) \<Rightarrow> bool" where
  "serializes str \<longleftrightarrow>
     (\<forall>required props fs. str (S_object required props) (JObj fs) =
        JObj (List.map_filter (\<lambda>(k, s). map_option (\<lambda>v. (k, str s v)) (map_of fs k)) props)) \<and>
     (\<forall>s vs. str (S_array s) (JArr vs) = JArr (map (str s) vs)) \<and>
     (\<forall>least format t. str (S_string least format) (JStr t) = JStr t) \<and>
     (\<forall>least format t. str (S_string least format) (JDate t) = JDate t) \<and>
     (\<forall>vs t. str (S_enum vs) (JStr t) = JStr t) \<and>
     (\<forall>q. str S_number (JNum q) = JNum q) \<and>
     (\<forall>b. str S_boolean (JBool b) = JBool b) \<and>
     (\<forall>s v. str (S_nullable s) v = (if v = JNull then JNull else str s v))"

lemma serializes_rules:
  assumes "serializes str"
  shows "str (S_object required props) (JObj fs) =
      JObj (List.map_filter (\<lambda>(k, s). map_option (\<lambda>v. (k, str s v)) (map_of fs k)) props)"
    and "str (S_array s) (JArr vs) = JArr (map (str s) vs)"
    and "str (S_string least format) (JStr t) = JStr t"
    and "str (S_string least format) (JDate i) = JDate i"
    and "str (S_enum values) (JStr t) = JStr t"
    and "str S_number (JNum q) = JNum q" and "str S_boolean (JBool b) = JBool b"
    and "str (S_nullable s) v = (if v = JNull then JNull else str s v)"
  using assms by (simp_all add: serializes_def)

text \<open>A function that does what is documented, to evaluate examples.\<close>

function written :: "schema \<Rightarrow> json \<Rightarrow> json" where
  "written (S_array s) v = (case v of JArr vs \<Rightarrow> JArr (map (written s) vs) | _ \<Rightarrow> v)"
| "written (S_object required props) v = (case v of
     JObj fs \<Rightarrow> JObj (concat (map (\<lambda>p. case map_of fs (fst p) of
       None \<Rightarrow> [] | Some x \<Rightarrow> [(fst p, written (snd p) x)]) props))
   | _ \<Rightarrow> v)"
| "written (S_nullable s) v = (if v = JNull then JNull else written s v)"
| "written (S_string least format) v = v"
| "written (S_enum values) v = v"
| "written S_number v = v"
| "written S_boolean v = v"
  by pat_completeness auto

termination
  by (relation "measure (\<lambda>(s, v). size s)") (auto dest: size_prop)

lemma map_filter_concat:
  "List.map_filter f xs = concat (map (\<lambda>x. case f x of None \<Rightarrow> [] | Some y \<Rightarrow> [y]) xs)"
  by (induction xs) (auto simp: List.map_filter_simps split: option.split)

lemma written_serializes: "serializes written"
  by (auto simp: serializes_def map_filter_concat case_prod_beta intro!: arg_cong [of _ _ concat]
      split: option.split)

text \<open>What a value that conforms is written as is therefore determined.\<close>

lemma written_unique:
  assumes "serializes str" and "conforms fmt s v" shows "str s v = written s v"
  using assms(2)
proof (induction s arbitrary: v)
  case (S_array s)
  then show ?case by (auto simp: serializes_rules [OF assms(1)] list_all_iff split: json.splits)
next
  case (S_object required props)
  then obtain fs where v: "v = JObj fs" by (cases v) auto
  have "str t x = written t x" if "(k, t) \<in> set props" "map_of fs k = Some x" for k t x
  proof -
    have "conforms fmt t x" using S_object.prems that v by (fastforce simp: list_all_iff)
    with S_object.IH that(1) show ?thesis by fastforce
  qed
  then show ?case
    by (auto simp: v serializes_rules [OF assms(1)] map_filter_concat case_prod_beta
        intro!: arg_cong [of _ _ concat] split: option.splits)
qed (auto simp: serializes_rules [OF assms(1)] text_ok_def split: json.splits)

section \<open>What an action returns\<close>

definition returns :: "('a \<Rightarrow> bool) \<Rightarrow> ('s, 'e, 'a) act \<Rightarrow> bool" where
  "returns P m \<longleftrightarrow> (\<forall>s x. fst (m s) = Inr x \<longrightarrow> P x)"

lemma returnsI: "(\<And>s x. fst (m s) = Inr x \<Longrightarrow> P x) \<Longrightarrow> returns P m"
  by (simp add: returns_def)

lemma returnsD: "returns P m \<Longrightarrow> fst (m s) = Inr x \<Longrightarrow> P x"
  by (simp add: returns_def)

lemma returns_mono: "returns P m \<Longrightarrow> (\<And>x. P x \<Longrightarrow> Q x) \<Longrightarrow> returns Q m"
  by (simp add: returns_def)

lemma returns_ret: "P x \<Longrightarrow> returns P (retA x)"
  by (simp add: returns_def retA_def)

lemma returns_throw: "returns P (throwA e)"
  by (simp add: returns_def throwA_def)

lemma returns_read: "(\<And>s. P (g s)) \<Longrightarrow> returns P (readA g)"
  by (simp add: returns_def readA_def)

lemma returns_call: "returns P m \<Longrightarrow> returns P (callA env p m)"
  by (simp add: callA_def returns_throw split: option.split)

lemma returns_some: "(\<And>x. v = Some x \<Longrightarrow> P x) \<Longrightarrow> returns P (someA e v)"
  by (cases v) (simp_all add: someA_def returns_ret returns_throw)

lemma returns_bind_with:
  assumes "returns Q m" and "\<And>x. Q x \<Longrightarrow> returns P (f x)"
  shows "returns P (bindA m f)"
proof (rule returnsI)
  fix s y assume "fst (bindA m f s) = Inr y"
  then obtain x t where "m s = (Inr x, t)" "fst (f x t) = Inr y"
    by (auto simp: bindA_def split: prod.splits sum.splits)
  then show "P y" using assms by (metis fst_conv returnsD)
qed

lemma returns_bind: "(\<And>x. returns P (f x)) \<Longrightarrow> returns P (bindA m f)"
  by (rule returns_bind_with [where Q = "\<lambda>_. True"]) (simp_all add: returns_def)

lemma returns_catch: "returns P m \<Longrightarrow> (\<And>e. returns P (h e)) \<Longrightarrow> returns P (catchA m h)"
  by (auto simp: returns_def catchA_def split: prod.splits sum.splits) (metis fst_conv)

lemma returns_if: "(c \<Longrightarrow> returns P m) \<Longrightarrow> (\<not> c \<Longrightarrow> returns P n) \<Longrightarrow> returns P (if c then m else n)"
  by simp

lemma returns_option:
  "(v = None \<Longrightarrow> returns P m) \<Longrightarrow> (\<And>x. v = Some x \<Longrightarrow> returns P (f x)) \<Longrightarrow>
    returns P (case v of None \<Rightarrow> m | Some x \<Rightarrow> f x)"
  by (cases v) simp_all

lemma returns_prod: "(\<And>a b. x = (a, b) \<Longrightarrow> returns P (f a b)) \<Longrightarrow> returns P (case x of (a, b) \<Rightarrow> f a b)"
  by (cases x) simp

lemmas returns_rules = returns_ret returns_throw returns_bind returns_if returns_option returns_prod

end
