(* ===== verification/RouteSchemas.thy ===== *)
theory RouteSchemas
  imports Authority JsonSchema
begin

text \<open>
  The schemas of \<open>api/src/routes\<close>: for every route what it declares of the parameters, the query,
  the body and the answers. A declared body lets everything through that the route's zod schema
  accepts, and what a handler returns conforms to the schema of its status. An answer is written by
  that schema: only declared properties reach the client.
\<close>

section \<open>The declarations\<close>

record route_schema =
  rs_params :: "schema option"
  rs_query :: "schema option"
  rs_body :: "schema option"
  rs_response :: "(int \<times> schema) list"

definition on_id :: "string \<Rightarrow> schema option" where
  "on_id key = Some (S_object [key] [(key, S_str)])"

definition page_query :: schema where
  "page_query = S_props [(''page'', S_str), (''limit'', S_str)]"

definition bare_page :: schema where
  \<comment> \<open>items and meta of type object, of which no property is declared\<close>
  "bare_page = S_props [(''data'', S_array S_any_object), (''meta'', S_any_object)]"

subsection \<open>\<open>auth.ts\<close>\<close>

definition user_schema :: schema where
  "user_schema = S_props [(''id'', S_str), (''email'', S_str), (''role'', S_str), (''createdAt'', S_str)]"

definition register_schema :: route_schema where
  "register_schema = \<lparr>rs_params = None, rs_query = None,
     rs_body = Some (S_object [''email'', ''password'']
       [(''email'', S_string 0 (Some ''email'')), (''password'', S_string 8 None), (''orgName'', S_str)]),
     rs_response = [(201, S_props [(''user'', user_schema), (''accessToken'', S_str),
       (''organization'', S_props [(''id'', S_str), (''name'', S_str)])])]\<rparr>"

definition login_schema :: route_schema where
  "login_schema = \<lparr>rs_params = None, rs_query = None,
     rs_body = Some (S_object [''email'', ''password'']
       [(''email'', S_string 0 (Some ''email'')), (''password'', S_str)]),
     rs_response = [(200, S_props [(''user'', user_schema), (''accessToken'', S_str)])]\<rparr>"

definition refresh_schema :: route_schema where
  "refresh_schema = \<lparr>rs_params = None, rs_query = None, rs_body = None,
     rs_response = [(200, S_props [(''accessToken'', S_str)])]\<rparr>"

definition logout_schema :: route_schema where
  "logout_schema = \<lparr>rs_params = None, rs_query = None, rs_body = None,
     rs_response = [(200, S_props [(''message'', S_str)])]\<rparr>"

subsection \<open>\<open>projects.ts\<close>\<close>

definition createProject_schema :: route_schema where
  "createProject_schema = \<lparr>rs_params = None, rs_query = None,
     rs_body = Some (S_object [''orgId'', ''name''] [(''orgId'', S_str), (''name'', S_str)]),
     rs_response = [(201, S_props [(''id'', S_str), (''orgId'', S_str), (''name'', S_str),
       (''apiKey'', S_str), (''createdAt'', S_str)])]\<rparr>"

definition listProjects_schema :: route_schema where
  "listProjects_schema = \<lparr>rs_params = None, rs_query = Some page_query, rs_body = None,
     rs_response = [(200, S_props
       [(''data'', S_array (S_props [(''id'', S_str), (''orgId'', S_str), (''name'', S_str),
          (''createdAt'', S_str), (''_count'', S_props [(''queues'', S_number)])])),
        (''meta'', S_props [(''page'', S_number), (''limit'', S_number), (''total'', S_number),
          (''totalPages'', S_number)])])]\<rparr>"

definition getProject_schema :: route_schema where
  "getProject_schema = \<lparr>rs_params = on_id ''id'', rs_query = None, rs_body = None,
     rs_response = [(200, S_props [(''id'', S_str), (''orgId'', S_str), (''name'', S_str),
       (''apiKey'', S_str), (''createdAt'', S_str), (''queues'', S_array S_any_object),
       (''_count'', S_any_object)])]\<rparr>"

subsection \<open>\<open>queues.ts\<close>\<close>

definition createQueue_schema :: route_schema where
  "createQueue_schema = \<lparr>rs_params = on_id ''projectId'', rs_query = None,
     rs_body = Some (S_object [''name''] [(''name'', S_str), (''priority'', S_number),
       (''concurrencyLimit'', S_number), (''defaultRetryPolicyId'', S_str)]),
     rs_response = [(201, S_props [(''id'', S_str), (''projectId'', S_str), (''name'', S_str),
       (''priority'', S_number), (''concurrencyLimit'', S_number), (''isPaused'', S_boolean),
       (''defaultRetryPolicyId'', S_nullable S_str), (''createdAt'', S_str)])]\<rparr>"

definition listQueues_schema :: route_schema where
  "listQueues_schema = \<lparr>rs_params = on_id ''projectId'', rs_query = Some page_query, rs_body = None,
     rs_response = [(200, bare_page)]\<rparr>"

definition updateQueue_schema :: route_schema where
  "updateQueue_schema = \<lparr>rs_params = on_id ''id'', rs_query = None,
     rs_body = Some (S_props [(''priority'', S_number), (''concurrencyLimit'', S_number),
       (''isPaused'', S_boolean)]),
     rs_response = [(200, S_props [(''id'', S_str), (''projectId'', S_str), (''name'', S_str),
       (''priority'', S_number), (''concurrencyLimit'', S_number), (''isPaused'', S_boolean),
       (''updatedAt'', S_str)])]\<rparr>"

definition queueStats_schema :: route_schema where
  "queueStats_schema = \<lparr>rs_params = on_id ''id'', rs_query = None, rs_body = None,
     rs_response = [(200, S_props [(''totalJobs'', S_number), (''byStatus'', S_any_object),
       (''jobsPerMinute'', S_number)])]\<rparr>"

subsection \<open>\<open>jobs.ts\<close>\<close>

definition createJob_schema :: route_schema where
  "createJob_schema = \<lparr>rs_params = on_id ''queueId'', rs_query = None,
     rs_body = Some (S_object [''type''] [(''type'', S_str), (''payload'', S_any_object),
       (''runAt'', S_string 0 (Some ''date-time'')), (''cronExpression'', S_str),
       (''retryPolicyId'', S_str), (''idempotencyKey'', S_str), (''priority'', S_number)]),
     rs_response = [(201, S_props [(''id'', S_str), (''type'', S_str), (''status'', S_str),
       (''queueId'', S_str), (''priority'', S_number), (''runAt'', S_str), (''createdAt'', S_str),
       (''scheduledJobId'', S_nullable S_str)])]\<rparr>"

definition createBatch_schema :: route_schema where
  "createBatch_schema = \<lparr>rs_params = on_id ''queueId'', rs_query = None,
     rs_body = Some (S_object [''jobs''] [(''jobs'', S_array (S_object [''type'']
       [(''type'', S_str), (''payload'', S_any_object), (''runAt'', S_string 0 (Some ''date-time'')),
        (''priority'', S_number), (''idempotencyKey'', S_str)]))]),
     rs_response = [(201, S_props [(''batchId'', S_str), (''jobs'', S_array S_any_object),
       (''count'', S_number)])]\<rparr>"

definition listJobs_schema :: route_schema where
  "listJobs_schema = \<lparr>rs_params = None,
     rs_query = Some (S_props [(''queueId'', S_str), (''status'', S_str), (''type'', S_str),
       (''batchId'', S_str), (''page'', S_str), (''limit'', S_str)]), rs_body = None,
     rs_response = [(200, bare_page)]\<rparr>"

definition getJob_schema :: route_schema where
  "getJob_schema = \<lparr>rs_params = on_id ''id'', rs_query = None, rs_body = None,
     rs_response = [(200, S_any_object)]\<rparr>"

definition listExecutions_schema :: route_schema where
  "listExecutions_schema = \<lparr>rs_params = on_id ''id'', rs_query = None, rs_body = None,
     rs_response = [(200, bare_page)]\<rparr>"

definition listLogs_schema :: route_schema where
  "listLogs_schema = \<lparr>rs_params = on_id ''id'', rs_query = None, rs_body = None,
     rs_response = [(200, bare_page)]\<rparr>"

definition retryJob_schema :: route_schema where
  "retryJob_schema = \<lparr>rs_params = on_id ''id'', rs_query = None, rs_body = None,
     rs_response = [(200, S_any_object)]\<rparr>"

definition cancelJob_schema :: route_schema where
  "cancelJob_schema = \<lparr>rs_params = on_id ''id'', rs_query = None, rs_body = None,
     rs_response = [(200, S_any_object)]\<rparr>"

subsection \<open>\<open>workers.ts\<close>, \<open>dashboard.ts\<close> and the health check\<close>

definition listWorkers_schema :: route_schema where
  "listWorkers_schema = \<lparr>rs_params = None,
     rs_query = Some (S_props [(''status'', S_enum [''active'', ''draining'', ''dead'']),
       (''page'', S_str), (''limit'', S_str)]), rs_body = None,
     rs_response = [(200, S_props
       [(''data'', S_array (S_props [(''id'', S_str), (''hostname'', S_str), (''pid'', S_number),
          (''status'', S_str), (''startedAt'', S_str), (''lastHeartbeatAt'', S_str),
          (''activeJobCount'', S_number)])),
        (''meta'', S_any_object)])]\<rparr>"

definition getWorker_schema :: route_schema where
  "getWorker_schema = \<lparr>rs_params = on_id ''id'', rs_query = None, rs_body = None,
     rs_response = [(200, S_any_object)]\<rparr>"

definition listHeartbeats_schema :: route_schema where
  "listHeartbeats_schema = \<lparr>rs_params = on_id ''id'', rs_query = None, rs_body = None,
     rs_response = [(200, S_props [(''data'', S_array (S_props [(''id'', S_str), (''workerId'', S_str),
       (''activeJobCount'', S_number), (''cpuLoad'', S_nullable S_number), (''timestamp'', S_str)]))])]\<rparr>"

definition summary_schema :: route_schema where
  "summary_schema = \<lparr>rs_params = None, rs_query = None, rs_body = None,
     rs_response = [(200, S_props [(''totalQueues'', S_number), (''activeWorkers'', S_number),
       (''totalWorkers'', S_number), (''failedJobs'', S_number), (''queuedJobs'', S_number),
       (''runningJobs'', S_number), (''completedJobsToday'', S_number), (''jobsPerMinute'', S_number)])]\<rparr>"

definition health_schema :: route_schema where
  "health_schema = \<lparr>rs_params = None, rs_query = None, rs_body = None,
     rs_response = [(200, S_props [(''status'', S_str), (''service'', S_str), (''timestamp'', S_str)])]\<rparr>"

lemmas schema_defs = on_id_def page_query_def bare_page_def user_schema_def
  register_schema_def login_schema_def refresh_schema_def logout_schema_def
  createProject_schema_def listProjects_schema_def getProject_schema_def
  createQueue_schema_def listQueues_schema_def updateQueue_schema_def queueStats_schema_def
  createJob_schema_def createBatch_schema_def listJobs_schema_def getJob_schema_def
  listExecutions_schema_def listLogs_schema_def retryJob_schema_def cancelJob_schema_def
  listWorkers_schema_def getWorker_schema_def listHeartbeats_schema_def summary_schema_def health_schema_def

text \<open>The schemas in the order of \<open>api_routes\<close>, and the schema of a route.\<close>

definition api_schemas :: "route_schema list" where
  "api_schemas =
     [register_schema, login_schema, refresh_schema, logout_schema,
      createProject_schema, listProjects_schema, getProject_schema,
      createQueue_schema, listQueues_schema, updateQueue_schema, queueStats_schema,
      createJob_schema, createBatch_schema, listJobs_schema, getJob_schema, listExecutions_schema,
      listLogs_schema, retryJob_schema, cancelJob_schema,
      listWorkers_schema, getWorker_schema, listHeartbeats_schema, summary_schema, health_schema]"

definition declared :: "(route \<times> route_schema) list" where
  "declared = zip api_routes api_schemas"

lemma declared_routes: "map fst declared = api_routes" "map snd declared = api_schemas"
  by (simp_all add: declared_def api_schemas_def route_tables)

section \<open>What the handlers answer\<close>

text \<open>
  A handler answers with a status the route declares, and the body conforms to the schema of that
  status.
\<close>

definition answers :: "(string \<Rightarrow> string \<Rightarrow> bool) \<Rightarrow> route_schema \<Rightarrow> int \<Rightarrow> json \<Rightarrow> bool" where
  "answers fmt d status body \<longleftrightarrow> (case map_of (rs_response d) status of
     None \<Rightarrow> False | Some s \<Rightarrow> conforms fmt s body)"

abbreviation sends_ok :: "(string \<Rightarrow> string \<Rightarrow> bool) \<Rightarrow> route_schema \<Rightarrow> int \<times> json \<Rightarrow> bool" where
  "sends_ok fmt d x \<equiv> answers fmt d (fst x) (snd x)"

abbreviation reply_ok :: "(string \<Rightarrow> string \<Rightarrow> bool) \<Rightarrow> route_schema \<Rightarrow> Reply \<Rightarrow> bool" where
  "reply_ok fmt d reply \<equiv> answers fmt d (re_status reply) (re_body reply)"

lemma returns_sends: "returns (sends_ok fmt d) (h env req) \<Longrightarrow> returns (reply_ok fmt d) (sends h env req)"
  unfolding sends_def by (erule returns_bind_with) (auto intro!: returns_ret)

lemma text_ok_any [simp]: "text_ok fmt 0 None (JStr s)" "text_ok fmt 0 None (JDate t)"
  by (simp_all add: text_ok_def)

lemma conforms_nullable_or [simp]:
  "(\<And>x. v = Some x \<Longrightarrow> conforms fmt s (f x)) \<Longrightarrow> conforms fmt (S_nullable s) (JNull_or f v)"
  by (cases v) (simp_all add: JNull_or_def)

lemmas body_rules = answers_def schema_defs jint_def

lemma createJob_conforms: "returns (sends_ok fmt createJob_schema) (createJob env req)"
  by (auto simp: createJob_def create_cron_def create_one_shot_def Let_def body_rules intro!: returns_rules)

lemma createBatch_conforms: "returns (sends_ok fmt createBatch_schema) (createBatch env req)"
  by (auto simp: createBatch_def Let_def body_rules batch_item_def list_all_iff intro!: returns_rules)

lemma retryJob_conforms: "returns (sends_ok fmt retryJob_schema) (retryJob env req)"
  by (auto simp: retryJob_def Let_def body_rules intro!: returns_rules)

lemma cancelJob_conforms: "returns (sends_ok fmt cancelJob_schema) (cancelJob env req)"
  by (auto simp: cancelJob_def cancel_update_def Let_def body_rules intro!: returns_rules)

lemma register_conforms: "returns (reply_ok fmt register_schema) (register env req)"
  by (auto simp: register_def issueTokens_def Let_def answers_def schema_defs user_json_def intro!: returns_rules)

lemma login_conforms: "returns (reply_ok fmt login_schema) (login env req)"
  by (auto simp: login_def issueTokens_def Let_def answers_def schema_defs user_json_def intro!: returns_rules)

lemma refresh_conforms: "returns (reply_ok fmt refresh_schema) (refresh env req)"
  by (auto simp: refresh_def refresh_rotate_def issueTokens_def Let_def answers_def schema_defs intro!: returns_rules)

lemma logout_conforms: "returns (reply_ok fmt logout_schema) (logout env req)"
  by (auto simp: logout_def answers_def schema_defs intro!: returns_rules)

lemma createProject_conforms: "returns (sends_ok fmt createProject_schema) (createProject env req)"
  by (auto simp: createProject_def body_rules project_fields_def intro!: returns_rules)

lemma createQueue_conforms: "returns (sends_ok fmt createQueue_schema) (createQueue env req)"
  by (auto simp: createQueue_def Let_def body_rules queue_json_def queue_fields_json_def JNull_or_def
      intro!: returns_rules split: option.split)

lemma updateQueue_conforms: "returns (sends_ok fmt updateQueue_schema) (updateQueue env req)"
  by (auto simp: updateQueue_def Let_def body_rules queue_fields_json_def intro!: returns_rules)

lemma queueStats_conforms: "returns (sends_ok fmt queueStats_schema) (queueStats env req)"
  by (auto simp: queueStats_def Let_def body_rules intro!: returns_rules)

lemma returns_read_with:
  assumes "\<And>w. Q (g w)" and "\<And>x. Q x \<Longrightarrow> returns P (f x)"
  shows "returns P (bindA (callA env p (readA g)) f)"
  by (rule returns_bind_with [where Q = Q]) (simp_all add: assms returns_call returns_read)

text \<open>The four listings whose items are of no declared shape: items are read, counted and sent.\<close>

definition listing :: "int \<times> json \<Rightarrow> bool" where
  "listing x \<longleftrightarrow> (\<exists>items m. x = (200, data_page items m) \<and> list_all (\<lambda>v. \<exists>fs. v = JObj fs) items)"

lemma listingI: "(\<And>v. v \<in> set items \<Longrightarrow> \<exists>fs. v = JObj fs) \<Longrightarrow> listing (200, data_page items m)"
  by (auto simp: listing_def list_all_iff)

lemma objects_conform:
  "list_all (\<lambda>v. \<exists>fs. v = JObj fs) items \<Longrightarrow> list_all (conforms fmt S_any_object) items"
  by (erule list.pred_mono_strong) auto

lemma listing_conforms: "listing x \<Longrightarrow> map_of (rs_response d) 200 = Some bare_page \<Longrightarrow> sends_ok fmt d x"
  by (auto simp: listing_def answers_def bare_page_def data_page_def meta_json_def
      dest!: objects_conform [where fmt = fmt])

lemma returns_listing:
  assumes "\<And>w x. \<exists>fs. item w x = JObj fs"
  shows "returns listing (bindA (callA env p (readA (\<lambda>w. map (item w) (xs w)))) (\<lambda>js.
      bindA m (\<lambda>n. retA (200, data_page js (meta n)))))"
  by (rule returns_read_with [where Q = "\<lambda>js. \<forall>v\<in>set js. \<exists>fs. v = JObj fs"])
    (auto simp: assms intro!: returns_rules listingI)

lemma listJobs_listing: "returns listing (listJobs env req)"
  unfolding listJobs_def Let_def
  by (intro returns_bind returns_listing) (simp_all add: job_item_def)

lemma listExecutions_listing: "returns listing (listExecutions env req)"
  unfolding listExecutions_def Let_def
  by (intro returns_bind returns_listing) (simp_all add: execution_item_def)

lemma listLogs_listing: "returns listing (listLogs env req)"
  unfolding listLogs_def Let_def
  by (intro returns_bind returns_listing) (simp_all add: log_item_def)

lemma listQueues_listing: "returns listing (listQueues env req)"
  by (auto simp: listQueues_def Let_def intro!: returns_rules listingI)

lemma listing_schemas:
  "map_of (rs_response listJobs_schema) 200 = Some bare_page"
  "map_of (rs_response listExecutions_schema) 200 = Some bare_page"
  "map_of (rs_response listLogs_schema) 200 = Some bare_page"
  "map_of (rs_response listQueues_schema) 200 = Some bare_page"
  by (simp_all add: schema_defs)

lemmas listings_conform =
  returns_mono [OF listJobs_listing listing_conforms [OF _ listing_schemas(1)]]
  returns_mono [OF listExecutions_listing listing_conforms [OF _ listing_schemas(2)]]
  returns_mono [OF listLogs_listing listing_conforms [OF _ listing_schemas(3)]]
  returns_mono [OF listQueues_listing listing_conforms [OF _ listing_schemas(4)]]

lemma returns_readable_job:
  assumes "\<And>w j. P (g w j)"
  shows "returns P (readable_job env req g)"
  unfolding readable_job_def Let_def
  by (rule returns_read_with [where Q = "\<lambda>x. case x of None \<Rightarrow> True | Some (y, _) \<Rightarrow> P y"])
    (auto simp: assms someA_def intro!: returns_rules split: option.splits bind_split)

lemma getJob_conforms: "returns (sends_ok fmt getJob_schema) (getJob env req)"
  unfolding getJob_def
  by (rule returns_bind_with [where Q = "conforms fmt S_any_object"], rule returns_readable_job)
    (auto simp: job_detail_def body_rules intro!: returns_ret)

lemma listProjects_conforms: "returns (sends_ok fmt listProjects_schema) (listProjects env req)"
  unfolding listProjects_def Let_def
  by (rule returns_bind, rule returns_bind,
      rule returns_read_with [where Q = "\<lambda>ps. \<forall>m. answers fmt listProjects_schema 200 (data_page ps m)"])
    (auto simp: project_item_def project_fields_def data_page_def meta_json_def list_all_iff body_rules
      intro!: returns_rules)

lemma listWorkers_conforms: "returns (sends_ok fmt listWorkers_schema) (listWorkers env req)"
  unfolding listWorkers_def Let_def
  by (rule returns_read_with [where Q = "\<lambda>vs. \<forall>m. answers fmt listWorkers_schema 200 (data_page vs m)"])
    (auto simp: worker_item_def worker_row_def data_page_def meta_json_def list_all_iff body_rules
      intro!: returns_rules split: list.split)

text \<open>Where the body is read together with the row, or not at all.\<close>

lemma returns_find_with:
  assumes "\<And>w x. g w = Some x \<Longrightarrow> Q x" and "\<And>x. Q x \<Longrightarrow> returns P (f x)"
  shows "returns P (bindA (callA env p (readA g)) (\<lambda>found. bindA (someA e found) f))"
  by (rule returns_read_with [where Q = "\<lambda>v. case v of None \<Rightarrow> True | Some x \<Rightarrow> Q x"])
    (auto simp: assms(1) someA_def intro!: returns_rules assms(2) split: option.splits)

lemma getProject_conforms: "returns (sends_ok fmt getProject_schema) (getProject env req)"
  unfolding getProject_def Let_def
  by (rule returns_find_with [where Q = "\<lambda>x. answers fmt getProject_schema 200 (snd x)"])
    (auto simp: project_detail_def project_fields_def list_all_iff answers_def getProject_schema_def
      intro!: returns_rules)

lemma getWorker_conforms: "returns (sends_ok fmt getWorker_schema) (getWorker env req)"
  unfolding getWorker_def Let_def
  by (rule returns_find_with [where Q = "answers fmt getWorker_schema 200"])
    (auto simp: worker_detail_def answers_def getWorker_schema_def intro!: returns_rules)

lemma listHeartbeats_conforms: "returns (sends_ok fmt listHeartbeats_schema) (listHeartbeats env req)"
  by (auto simp: listHeartbeats_def Let_def beat_fields_def list_all_iff body_rules intro!: returns_rules)

lemma summary_conforms: "returns (sends_ok fmt summary_schema) (dashboard_summary env req)"
  unfolding dashboard_summary_def
  by (rule returns_bind, rule returns_bind, rule returns_bind, rule returns_bind,
      rule returns_read_with [where Q = "answers fmt summary_schema 200"])
    (auto simp: summary_json_def answers_def summary_schema_def jint_def intro!: returns_rules)

lemma health_conforms: "returns (sends_ok fmt health_schema) (health env req)"
  by (auto simp: health_def body_rules intro!: returns_rules)

lemma handlers_conform:
  assumes "(r, d) \<in> set declared" shows "returns (reply_ok fmt d) (rt_handler r env req)"
proof -
  have "list_all (\<lambda>(r, d). returns (reply_ok fmt d) (rt_handler r env req)) declared"
    by (simp add: declared_def api_schemas_def route_tables returns_sends register_conforms login_conforms
      refresh_conforms logout_conforms createProject_conforms listProjects_conforms getProject_conforms
      createQueue_conforms updateQueue_conforms queueStats_conforms
      listings_conform createJob_conforms createBatch_conforms getJob_conforms retryJob_conforms cancelJob_conforms listWorkers_conforms getWorker_conforms
      listHeartbeats_conforms summary_conforms health_conforms)
  with assms show ?thesis by (auto simp: list_all_iff)
qed


end
