(* ===== verification/Server.thy ===== *)
theory Server
  imports RouteSchemas
begin

text \<open>
  A request from end to end: Fastify checks its parts against the schemas of the route, the
  preHandlers and the handler run (\<open>respond\<close>), and the answer is written by the schema of its
  status. The validator and the serializer are libraries: \<open>validates\<close> and \<open>serializes\<close> state what they
  document. The order, checks before preHandlers, is Fastify's request lifecycle.
\<close>

section \<open>zod accepts less than the declared bodies\<close>

text \<open>The formats zod tests are at least as strict as those of the validator.\<close>

definition formats_agree :: "(string \<Rightarrow> string \<Rightarrow> bool) \<Rightarrow> services \<Rightarrow> bool" where
  "formats_agree fmt env \<longleftrightarrow> (\<forall>s. au_email (sv_auth env) s \<longrightarrow> fmt ''email'' s) \<and>
     (\<forall>s t. ae_datetime (sv_api env) s = Some t \<longrightarrow> fmt ''date-time'' s)"

definition field_ok :: "(string \<Rightarrow> string \<Rightarrow> bool) \<Rightarrow> json option \<Rightarrow> schema \<Rightarrow> bool" where
  "field_ok fmt v s \<longleftrightarrow> (case v of None \<Rightarrow> True | Some x \<Rightarrow> conforms fmt s x)"

text \<open>What zod accepts of a field, optional or required, has the type the schema declares.\<close>

lemma zod_fields:
  "zod_optional (zod_string lo hi) v = Some s \<Longrightarrow> field_ok fmt v S_str"
  "zod_optional (zod_int l h) v = Some i \<Longrightarrow> field_ok fmt v S_number"
  "zod_optional zod_bool v = Some b \<Longrightarrow> field_ok fmt v S_boolean"
  "zod_optional zod_record v = Some r \<Longrightarrow> field_ok fmt v S_any_object"
  by (cases v; auto simp: zod_optional_def field_ok_def zod_string_def zod_int_def zod_bool_def zod_record_def
      text_ok_def split: json.splits)+

lemma zod_required: "zod_string lo hi x = Some t \<Longrightarrow> field_ok fmt (Some x) S_str"
  by (auto simp: zod_string_def field_ok_def text_ok_def split: json.splits)

lemma zod_datetime_field:
  assumes "\<And>s t. ae_datetime env s = Some t \<Longrightarrow> fmt ''date-time'' s"
    and "zod_optional (zod_datetime env) v = Some r"
  shows "field_ok fmt v (S_string 0 (Some ''date-time''))"
  using assms by (cases v) (auto simp: zod_optional_def zod_datetime_def field_ok_def text_ok_def split: json.splits)

lemma conforms_object: "conforms fmt (S_object required props) (JObj fs) \<longleftrightarrow>
    list_all (\<lambda>k. map_of fs k \<noteq> None) required \<and> list_all (\<lambda>p. field_ok fmt (map_of fs (fst p)) (snd p)) props"
  by (simp add: field_ok_def)

definition part_ok :: "(string \<Rightarrow> string \<Rightarrow> bool) \<Rightarrow> schema option \<Rightarrow> json \<Rightarrow> bool" where
  "part_ok fmt s v \<longleftrightarrow> (case s of None \<Rightarrow> True | Some sc \<Rightarrow> conforms fmt sc v)"

definition batch_item_schema :: schema where
  "batch_item_schema = S_object [''type''] [(''type'', S_str), (''payload'', S_any_object),
      (''runAt'', S_string 0 (Some ''date-time'')), (''priority'', S_number), (''idempotencyKey'', S_str)]"

lemma batch_job_fields:
  assumes "\<And>s t. ae_datetime env s = Some t \<Longrightarrow> fmt ''date-time'' s"
    and "batchJobSchema env body = Some cj"
  shows "\<exists>fs. body = JObj fs \<and> map_of fs ''type'' \<noteq> None \<and> field_ok fmt (map_of fs ''type'') S_str \<and>
    field_ok fmt (map_of fs ''payload'') S_any_object \<and>
    field_ok fmt (map_of fs ''runAt'') (S_string 0 (Some ''date-time'')) \<and>
    field_ok fmt (map_of fs ''priority'') S_number \<and> field_ok fmt (map_of fs ''idempotencyKey'') S_str"
proof -
  obtain fs where "body = JObj fs" using assms(2) by (cases body) (simp_all add: batchJobSchema_def)
  with assms(2) show ?thesis
    by (auto simp: batchJobSchema_def Option.bind_eq_Some_conv zod_fields zod_required
        zod_datetime_field [where fmt = fmt, OF assms(1)])
qed

lemma batchJob_conforms:
  "(\<And>s t. ae_datetime env s = Some t \<Longrightarrow> fmt ''date-time'' s) \<Longrightarrow> batchJobSchema env body = Some cj \<Longrightarrow>
    conforms fmt batch_item_schema body"
  using batch_job_fields [of env fmt body cj]
  by (auto simp: batch_item_schema_def conforms_object simp del: conforms.simps)
lemma createJob_body:
  assumes "\<And>s t. ae_datetime env s = Some t \<Longrightarrow> fmt ''date-time'' s" and "createJobSchema env body = Some cj"
  shows "part_ok fmt (rs_body createJob_schema) body"
proof -
  obtain cj' where "batchJobSchema env body = Some cj'"
    using assms(2) by (auto simp: createJobSchema_def Option.bind_eq_Some_conv)
  with batch_job_fields [of env fmt body cj'] assms show ?thesis
    by (auto simp: createJobSchema_def Option.bind_eq_Some_conv zod_fields createJob_schema_def part_ok_def conforms_object
        simp del: conforms.simps)
qed

lemma createBatch_body:
  assumes "\<And>s t. ae_datetime env s = Some t \<Longrightarrow> fmt ''date-time'' s" and "createBatchSchema env body = Some cjs"
  shows "part_ok fmt (rs_body createBatch_schema) body"
proof -
  obtain fs items where "body = JObj fs" "map_of fs ''jobs'' = Some (JArr items)"
      "those (map (batchJobSchema env) items) \<noteq> None"
    using assms(2) by (cases body) (auto simp: createBatchSchema_def split: option.splits json.splits if_splits)
  moreover from this(3) have "list_all (conforms fmt batch_item_schema) items"
    using assms(1)
    by (induction items) (auto intro: batchJob_conforms split: option.splits)
  ultimately show ?thesis
    by (simp add: createBatch_schema_def part_ok_def conforms_object field_ok_def flip: batch_item_schema_def
        del: conforms.simps(6))
qed

lemma createQueue_body:
  assumes "createQueueSchema body = Some cq"
  shows "part_ok fmt (rs_body createQueue_schema) body"
  using assms by (cases body) (auto simp: createQueueSchema_def createQueue_schema_def part_ok_def Option.bind_eq_Some_conv
      conforms_object zod_fields zod_required simp del: conforms.simps split: if_splits)

lemma updateQueue_body:
  assumes "updateQueueSchema body = Some uq"
  shows "part_ok fmt (rs_body updateQueue_schema) body"
  using assms by (cases body) (auto simp: updateQueueSchema_def updateQueue_schema_def part_ok_def Option.bind_eq_Some_conv
      conforms_object zod_fields simp del: conforms.simps)

lemma createProject_body:
  assumes "createProjectSchema body = Some p"
  shows "part_ok fmt (rs_body createProject_schema) body"
  using assms by (cases body) (auto simp: createProjectSchema_def createProject_schema_def part_ok_def Option.bind_eq_Some_conv
      conforms_object zod_fields zod_required simp del: conforms.simps)

lemma credentials_fields:
  assumes "credentials env n body = Some c"
  shows "\<exists>fs email password. body = JObj fs \<and> map_of fs ''email'' = Some (JStr email) \<and> au_email env email \<and>
    map_of fs ''password'' = Some (JStr password) \<and> n \<le> length password"
  using assms by (cases body) (auto simp: credentials_def str_field_def split: option.splits json.splits if_splits)

lemma register_body:
  assumes "\<And>s. au_email env s \<Longrightarrow> fmt ''email'' s" and "registerSchema env body = Some c"
  shows "part_ok fmt (rs_body register_schema) body"
proof -
  obtain c' where "credentials env 8 body = Some c'"
    using assms(2) by (auto simp: registerSchema_def Option.bind_eq_Some_conv)
  from credentials_fields [OF this] assms show ?thesis
    by (auto simp: registerSchema_def register_schema_def part_ok_def conforms_object field_ok_def text_ok_def
        split: option.splits json.splits)
qed

lemma login_body:
  assumes "\<And>s. au_email env s \<Longrightarrow> fmt ''email'' s" and "loginSchema env body = Some c"
  shows "part_ok fmt (rs_body login_schema) body"
  using credentials_fields [of env 1 body c] assms
  by (auto simp: loginSchema_def login_schema_def part_ok_def text_ok_def)

section \<open>Requests that reach a handler\<close>

text \<open>What the handlers of the table accept as a body, by path; the other routes read none.\<close>

definition body_readers :: "services \<Rightarrow> (string \<times> (json \<Rightarrow> bool)) list" where
  "body_readers env =
     [(''/auth/register'', \<lambda>b. registerSchema (sv_auth env) b \<noteq> None),
      (''/auth/login'', \<lambda>b. loginSchema (sv_auth env) b \<noteq> None),
      (''/projects/projects'', \<lambda>b. createProjectSchema b \<noteq> None),
      (''/projects/:projectId/queues'', \<lambda>b. createQueueSchema b \<noteq> None),
      (''/queues/:id'', \<lambda>b. updateQueueSchema b \<noteq> None),
      (''/queues/:queueId/jobs'', \<lambda>b. createJobSchema (sv_api env) b \<noteq> None),
      (''/queues/:queueId/jobs/batch'', \<lambda>b. createBatchSchema (sv_api env) b \<noteq> None)]"

definition zod_accepts :: "services \<Rightarrow> route \<Rightarrow> json \<Rightarrow> bool" where
  "zod_accepts env r body \<longleftrightarrow> (if rt_method r = GET then True else
     case map_of (body_readers env) (rt_path r) of None \<Rightarrow> True | Some f \<Rightarrow> f body)"

lemma no_body [simp]:
  "part_ok fmt (rs_body refresh_schema) b" "part_ok fmt (rs_body logout_schema) b"
  "part_ok fmt (rs_body listProjects_schema) b" "part_ok fmt (rs_body getProject_schema) b"
  "part_ok fmt (rs_body listQueues_schema) b" "part_ok fmt (rs_body queueStats_schema) b"
  "part_ok fmt (rs_body listJobs_schema) b" "part_ok fmt (rs_body getJob_schema) b"
  "part_ok fmt (rs_body listExecutions_schema) b" "part_ok fmt (rs_body listLogs_schema) b"
  "part_ok fmt (rs_body retryJob_schema) b" "part_ok fmt (rs_body cancelJob_schema) b"
  "part_ok fmt (rs_body listWorkers_schema) b" "part_ok fmt (rs_body getWorker_schema) b"
  "part_ok fmt (rs_body listHeartbeats_schema) b" "part_ok fmt (rs_body summary_schema) b"
  "part_ok fmt (rs_body health_schema) b"
  by (simp_all add: part_ok_def schema_defs)

lemma zod_bodies_conform:
  assumes "formats_agree fmt env" and "(r, d) \<in> set declared" and "zod_accepts env r body"
  shows "part_ok fmt (rs_body d) body"
proof -
  have *: "au_email (sv_auth env) s \<Longrightarrow> fmt ''email'' s" "ae_datetime (sv_api env) s = Some t \<Longrightarrow> fmt ''date-time'' s" for s t
    using assms(1) by (auto simp: formats_agree_def)
  have "list_all (\<lambda>(r, d). zod_accepts env r body \<longrightarrow> part_ok fmt (rs_body d) body) declared"
    by (auto simp: declared_def api_schemas_def route_tables zod_accepts_def body_readers_def
        intro: * register_body login_body createProject_body createQueue_body updateQueue_body
          createJob_body createBatch_body)
  with assms show ?thesis by (auto simp: list_all_iff)
qed

section \<open>Fastify in front of and behind a handler\<close>

record fastify =
  fy_validate :: "schema \<Rightarrow> json \<Rightarrow> json + json"  \<comment> \<open>\<open>error.validation\<close>, or the coerced value\<close>
  fy_write :: "schema \<Rightarrow> json \<Rightarrow> json"

definition check_part :: "fastify \<Rightarrow> schema option \<Rightarrow> json \<Rightarrow> json + json" where
  "check_part fy s v = (case s of None \<Rightarrow> Inr v | Some sc \<Rightarrow> fy_validate fy sc v)"

definition texts :: "(string \<times> string) list \<Rightarrow> json" where
  "texts kvs = JObj (map (\<lambda>(k, v). (k, JStr v)) kvs)"

text \<open>Parameters, body and query, in this order, before the preHandlers. Parameters and query are texts,
  which every schema of the repository leaves as they are.\<close>

definition admit :: "fastify \<Rightarrow> route_schema \<Rightarrow> request \<Rightarrow> json + request" where
  "admit fy d req =
     (case check_part fy (rs_params d) (texts (rq_params req)) of Inl e \<Rightarrow> Inl e | Inr _ \<Rightarrow>
      case check_part fy (rs_body d) (rq_body req) of Inl e \<Rightarrow> Inl e | Inr body \<Rightarrow>
      case check_part fy (rs_query d) (texts (rq_query req)) of Inl e \<Rightarrow> Inl e | Inr _ \<Rightarrow>
      Inr (req\<lparr>rq_body := body\<rparr>))"

definition write_reply :: "fastify \<Rightarrow> route_schema \<Rightarrow> Reply \<Rightarrow> Reply" where
  "write_reply fy d reply = (case map_of (rs_response d) (re_status reply) of
     None \<Rightarrow> reply | Some s \<Rightarrow> reply\<lparr>re_body := fy_write fy s (re_body reply)\<rparr>)"

definition answer_request :: "fastify \<Rightarrow> services \<Rightarrow> route \<times> route_schema \<Rightarrow> request \<Rightarrow> world \<times> buckets \<Rightarrow>
    Reply \<times> (world \<times> buckets)" where
  "answer_request fy env rd req s = (case admit fy (snd rd) req of
     Inl v \<Rightarrow> (case errorHandler (FastifyValidationError v) of (status, body) \<Rightarrow>
       (\<lparr>re_status = status, re_body = body, re_cookies = []\<rparr>, s))
   | Inr req' \<Rightarrow> (case respond env (fst rd) req' s of (reply, s') \<Rightarrow> (write_reply fy (snd rd) reply, s')))"

definition validates :: "(string \<Rightarrow> string \<Rightarrow> bool) \<Rightarrow> fastify \<Rightarrow> bool" where
  "validates fmt fy \<longleftrightarrow> (\<forall>s v. conforms fmt s v \<longrightarrow> fy_validate fy s v = Inr v) \<and>
     (\<forall>s v v'. fy_validate fy s v = Inr v' \<longrightarrow> conforms fmt s v')"

lemma check_part_ok: "validates fmt fy \<Longrightarrow> part_ok fmt s v \<Longrightarrow> check_part fy s v = Inr v"
  by (auto simp: validates_def part_ok_def check_part_def split: option.splits)

section \<open>Sample requests\<close>

definition sample_fastify :: fastify where
  "sample_fastify = \<lparr>fy_validate = (\<lambda>s v. if conforms (\<lambda>_ _. True) s v then Inr v else Inl (JStr ''schema'')),
     fy_write = written\<rparr>"

lemma sample_fastify: "validates (\<lambda>_ _. True) sample_fastify" "serializes (fy_write sample_fastify)"
  by (auto simp: sample_fastify_def validates_def written_serializes split: if_splits)

definition jobs_route :: route where
  "jobs_route = to GET ''/jobs'' [Pre_auth] (sends (\<lambda>env. listJobs (sv_api env)))"

definition logout_route :: route where
  "logout_route = to POST ''/auth/logout'' [] (\<lambda>env. logout (sv_auth env))"

lemma declared_samples: "(jobs_route, listJobs_schema) \<in> set declared" "(logout_route, logout_schema) \<in> set declared"
    "(submit_route, createJob_schema) \<in> set declared"
  by (simp_all add: declared_def api_schemas_def route_tables jobs_route_def logout_route_def submit_route_def)

definition jobs_reply :: Reply where
  "jobs_reply = \<lparr>re_status = 200, re_body = data_page [job_item rbac_world (sample_job ''a'' 0)] (buildMeta 1 1 20),
     re_cookies = []\<rparr>"

lemma jobs_reply: "fst (rt_handler jobs_route demo_services (demo_request [] JNull) rbac_world) = Inr jobs_reply"
proof -
  have "parsePagination None None = \<lparr>pg_page = 1, pg_limit = 20, pg_skip = 0\<rparr>"
    by (simp add: parsePagination_def DEFAULT_PAGE_def DEFAULT_LIMIT_def MAX_LIMIT_def int_or_def)
  moreover have "matching_jobs (map_of []) (user_orgs rbac_world ''ann'') rbac_world = [sample_job ''a'' 0]"
    by (simp add: matching_jobs_def job_where_def job_visible_accessible accessible_def member_of_def matches_def
        rbac_defs)
  ultimately show ?thesis
    by (simp add: jobs_route_def sends_def listJobs_def demo_request_def request_of_def demo_services_def demo_api_def
       jobs_reply_def run_rules paginate_def Let_def)
qed

definition logout_reply :: Reply where
  "logout_reply = \<lparr>re_status = 200, re_body = JObj [(''message'', JStr ''Logged out successfully'')],
       re_cookies = [clearCookie REFRESH_COOKIE ''/auth'', clearCookie ACCESS_COOKIE ''/'']\<rparr>"

lemma logout_reply: "fst (rt_handler logout_route demo_services (demo_request [] JNull) rbac_world) = Inr logout_reply"
  by (simp add: logout_route_def logout_def logout_reply_def demo_request_def request_of_def truthy_str_def run_rules)

section \<open>Requests are checked, then authenticated, then served\<close>

definition no_token :: "services \<Rightarrow> request \<Rightarrow> bool" where
  "no_token env req \<longleftrightarrow> auth_token req = None \<or>
     (case sv_verify env req of Inl e \<Rightarrow> True | Inr p \<Rightarrow> jp_type p \<noteq> ''access'')"

lemma write_reply_status [simp]: "re_status (write_reply fy d reply) = re_status reply"
  by (simp add: write_reply_def split: option.split)

lemma declared_route: "(r, d) \<in> set declared \<Longrightarrow> r \<in> set api_routes"
  using in_set_zipE [of r d api_routes api_schemas] by (auto simp: declared_def)



lemma declared_params:
  "(r, d) \<in> set declared \<Longrightarrow> rs_params d = None \<or> (\<exists>k. rs_params d = on_id k \<and> path_params (rt_path r) = [k])"
proof -
  have "list_all (\<lambda>(r, d). rs_params d = None \<or> (\<exists>k. rs_params d = on_id k \<and> path_params (rt_path r) = [k])) declared"
    by (simp add: declared_def api_schemas_def route_tables path_params_def schema_defs(4-))
  then show "(r, d) \<in> set declared \<Longrightarrow> rs_params d = None \<or> (\<exists>k. rs_params d = on_id k \<and> path_params (rt_path r) = [k])"
    by (auto simp: list_all_iff)
qed

lemma params_conform:
  assumes "(r, d) \<in> set declared" and "set (path_params (rt_path r)) \<subseteq> fst ` set ps"
  shows "part_ok fmt (rs_params d) (texts ps)"
proof -
  have map_texts: "map_of (map (\<lambda>(k, v). (k, JStr v)) ps) k = map_option JStr (map_of ps k)" for k
    by (induction ps) auto
  have "k \<in> fst ` set ps \<Longrightarrow> part_ok fmt (on_id k) (texts ps)" for k
    using map_of_eq_None_iff [of ps k]
    by (auto simp: part_ok_def on_id_def texts_def map_texts split: option.splits)
  with declared_params [OF assms(1)] assms(2) show ?thesis by (auto simp: part_ok_def)
qed



section \<open>Answers conform\<close>

text \<open>
  C24. Whatever a handler of the API returns, on any route, conforms to the schema the route declares
  for its status, and the status is a declared one.
\<close>

theorem answers_conform:
  assumes "(r, d) \<in> set declared" and "fst (rt_handler r env req w) = Inr reply"
  shows "\<exists>s. map_of (rs_response d) (re_status reply) = Some s \<and> conforms fmt s (re_body reply)"
proof -
  have "answers fmt d (re_status reply) (re_body reply)"
    using handlers_conform [OF assms(1)] assms(2) by (rule returnsD)
  then show ?thesis by (auto simp: answers_def split: option.splits)
qed

theorem answers_conform_witness:
  "conforms (\<lambda>_ _. False) (S_props [(''message'', S_str)]) (JObj [(''message'', JStr ''Logged out successfully'')])"
  using answers_conform [OF declared_samples(2) logout_reply, of "\<lambda>_ _. False"]
  by (auto simp: logout_reply_def logout_schema_def)

section \<open>What arrives\<close>

definition full :: "route_schema \<Rightarrow> int \<Rightarrow> json \<Rightarrow> bool" where
  "full d status body \<longleftrightarrow> (case map_of (rs_response d) status of
     None \<Rightarrow> True | Some s \<Rightarrow> written s body = body)"

abbreviation sends_full :: "route_schema \<Rightarrow> int \<times> json \<Rightarrow> bool" where
  "sends_full d x \<equiv> full d (fst x) (snd x)"

abbreviation reply_full :: "route_schema \<Rightarrow> Reply \<Rightarrow> bool" where
  "reply_full d reply \<equiv> full d (re_status reply) (re_body reply)"

lemma sends_arrives: "returns (sends_full d) (h env req) \<Longrightarrow> returns (reply_full d) (sends h env req)"
  unfolding sends_def by (erule returns_bind_with) (auto intro!: returns_ret)

lemmas full_rules = full_def schema_defs jint_def JNull_or_def

lemma auth_full:
  "returns (reply_full register_schema) (register aenv req)"
  "returns (reply_full login_schema) (login aenv req)"
  "returns (reply_full refresh_schema) (refresh aenv req)"
  "returns (reply_full logout_schema) (logout aenv req)"
  by (auto simp: register_def login_def refresh_def refresh_rotate_def logout_def issueTokens_def Let_def
      full_rules user_json_def intro!: returns_rules)

lemma createJob_full: "returns (sends_full createJob_schema) (createJob env req)"
  by (auto simp: createJob_def create_cron_def create_one_shot_def Let_def full_rules intro!: returns_rules)

lemma createProject_full: "returns (sends_full createProject_schema) (createProject env req)"
  by (auto simp: createProject_def full_rules project_fields_def intro!: returns_rules)

lemma queues_full:
  "returns (sends_full createQueue_schema) (createQueue env req)"
  "returns (sends_full updateQueue_schema) (updateQueue env req)"
  by (auto simp: createQueue_def updateQueue_def Let_def full_rules queue_json_def queue_fields_json_def
      intro!: returns_rules split: option.split)

lemma listProjects_full: "returns (sends_full listProjects_schema) (listProjects env req)"
  unfolding listProjects_def Let_def
  by (rule returns_bind, rule returns_bind,
      rule returns_read_with [where Q = "\<lambda>ps. \<forall>m. full listProjects_schema 200 (data_page ps m)"])
    (auto simp: project_item_def project_fields_def data_page_def meta_json_def full_rules
      intro!: returns_rules)

lemma listHeartbeats_full: "returns (sends_full listHeartbeats_schema) (listHeartbeats env req)"
  by (auto simp: listHeartbeats_def Let_def beat_fields_def full_rules intro!: returns_rules)

lemma summary_full: "returns (sends_full summary_schema) (dashboard_summary env req)"
  unfolding dashboard_summary_def
  by (rule returns_bind, rule returns_bind, rule returns_bind, rule returns_bind,
      rule returns_read_with [where Q = "full summary_schema 200"])
    (simp add: summary_json_def full_def summary_schema_def jint_def, auto intro!: returns_rules)

lemma health_full: "returns (sends_full health_schema) (health env req)"
  by (auto simp: health_def full_rules intro!: returns_rules)

definition complete_paths :: "(http_method \<times> string) list" where
  "complete_paths =
     [(POST, ''/auth/register''), (POST, ''/auth/login''), (POST, ''/auth/refresh''), (POST, ''/auth/logout''),
      (POST, ''/projects/projects''), (GET, ''/projects/projects''),
      (POST, ''/projects/:projectId/queues''), (PATCH, ''/queues/:id''), (POST, ''/queues/:queueId/jobs''),
      (GET, ''/workers/workers/:id/heartbeats''), (GET, ''/dashboard/dashboard/summary''), (GET, ''/health'')]"

lemma handlers_full:
  assumes "(r, d) \<in> set declared" and "(rt_method r, rt_path r) \<in> set complete_paths"
  shows "returns (reply_full d) (rt_handler r env req)"
proof -
  have "list_all (\<lambda>(r, d). (rt_method r, rt_path r) \<in> set complete_paths \<longrightarrow>
      returns (reply_full d) (rt_handler r env req)) declared"
    by (simp add: declared_def api_schemas_def route_tables complete_paths_def sends_arrives auth_full createJob_full
      createProject_full queues_full listProjects_full listHeartbeats_full summary_full health_full)
  with assms show ?thesis by (auto simp: list_all_iff)
qed

text \<open>
  Twelve routes, among them registration, login, submission and the dashboard, declare every
  field they answer: what the client receives is what the handler returned.
\<close>

lemma complete_answers:
  assumes "serializes (fy_write fy)" and "(r, d) \<in> set declared"
    and "(rt_method r, rt_path r) \<in> set complete_paths" and "fst (rt_handler r env req w) = Inr reply"
  shows "write_reply fy d reply = reply"
proof -
  have "reply_full d reply" using handlers_full [OF assms(2,3)] assms(4) by (rule returnsD)
  moreover have "reply_ok (\<lambda>_ _. True) d reply" using handlers_conform [OF assms(2)] assms(4) by (rule returnsD)
  ultimately show ?thesis
    by (auto simp: write_reply_def answers_def full_def written_unique [OF assms(1)] split: option.splits)
qed

lemma complete_answers_witness: "write_reply sample_fastify logout_schema logout_reply = logout_reply"
  using complete_answers [OF sample_fastify(2) declared_samples(2) _ logout_reply]
  by (simp add: logout_route_def complete_paths_def)

definition listing_paths :: "(http_method \<times> string) list" where
  "listing_paths = [(GET, ''/projects/:projectId/queues''), (GET, ''/jobs''), (GET, ''/jobs/:id/executions''),
     (GET, ''/jobs/:id/logs'')]"

definition object_paths :: "(http_method \<times> string) list" where
  "object_paths = [(GET, ''/jobs/:id''), (POST, ''/jobs/:id/retry''), (POST, ''/jobs/:id/cancel''),
     (GET, ''/workers/workers/:id'')]"

lemma handlers_listing:
  assumes "(r, d) \<in> set declared" and "(rt_method r, rt_path r) \<in> set listing_paths"
  shows "returns (\<lambda>reply. listing (re_status reply, re_body reply)) (rt_handler r env req)"
    and "rs_response d = [(200, bare_page)]"
proof -
  have sent: "returns listing m \<Longrightarrow> returns (\<lambda>reply. listing (re_status reply, re_body reply)) (sends (\<lambda>_ _. m) env req)"
    for m env req unfolding sends_def by (erule returns_bind_with) (auto intro!: returns_ret)
  have "list_all (\<lambda>(r, d). (rt_method r, rt_path r) \<in> set listing_paths \<longrightarrow>
      returns (\<lambda>reply. listing (re_status reply, re_body reply)) (rt_handler r env req) \<and>
      rs_response d = [(200, bare_page)]) declared"
    using sent [OF listJobs_listing] sent [OF listExecutions_listing] sent [OF listLogs_listing] sent [OF listQueues_listing]
    by (simp add: declared_def api_schemas_def route_tables listing_paths_def sends_def listJobs_schema_def
      listExecutions_schema_def listLogs_schema_def listQueues_schema_def)
  with assms show "returns (\<lambda>reply. listing (re_status reply, re_body reply)) (rt_handler r env req)"
    "rs_response d = [(200, bare_page)]" by (auto simp: list_all_iff)
qed

lemma object_schemas:
  assumes "(r, d) \<in> set declared" and "(rt_method r, rt_path r) \<in> set object_paths"
  shows "rs_response d = [(200, S_any_object)]"
proof -
  have "list_all (\<lambda>(r, d). (rt_method r, rt_path r) \<in> set object_paths \<longrightarrow>
      rs_response d = [(200, S_any_object)]) declared"
    by (simp add: declared_def api_schemas_def route_tables object_paths_def schema_defs)
  with assms show ?thesis by (auto simp: list_all_iff)
qed

lemma written_bare:
  assumes "list_all (\<lambda>v. \<exists>fs. v = JObj fs) items"
  shows "written bare_page (data_page items m) =
    JObj [(''data'', JArr (replicate (length items) (JObj []))), (''meta'', JObj [])]"
proof -
  from assms have "map (written S_any_object) items = replicate (length items) (JObj [])"
    by (induction items) auto
  then show ?thesis by (simp add: bare_page_def data_page_def meta_json_def)
qed

lemma listing_written:
  assumes "serializes (fy_write fy)" and "(r, d) \<in> set declared" and "(rt_method r, rt_path r) \<in> set listing_paths"
    and "fst (rt_handler r env req w) = Inr reply"
  shows "\<exists>items m. re_status reply = 200 \<and> re_body reply = data_page items m \<and> re_body (write_reply fy d reply) =
    JObj [(''data'', JArr (replicate (length items) (JObj []))), (''meta'', JObj [])]"
proof -
  have ok: "reply_ok (\<lambda>_ _. True) d reply" using handlers_conform [OF assms(2)] assms(4) by (rule returnsD)
  from returnsD [OF handlers_listing(1) [OF assms(2,3)] assms(4)]
  obtain items m where "re_status reply = 200" "re_body reply = data_page items m"
      "list_all (\<lambda>v. \<exists>fs. v = JObj fs) items" by (auto simp: listing_def)
  moreover from ok this have "fy_write fy bare_page (data_page items m) = written bare_page (data_page items m)"
    using handlers_listing(2) [OF assms(2,3)]
    by (intro written_unique [OF assms(1), of "\<lambda>_ _. True"]) (simp add: answers_def)
  ultimately show ?thesis
    using handlers_listing(2) [OF assms(2,3)] by (auto simp: write_reply_def written_bare)
qed

text \<open>
  C23. Four listings (queues, jobs, executions, logs) declare items and \<open>meta\<close> of type object without
  properties, and four routes (job and worker detail, retry, cancel) their whole answer: under what the
  serializer documents, a client receives as many empty objects as there are items, without the
  page counts, or an empty object.
\<close>

theorem bare_answers_arrive_empty:
  assumes "serializes (fy_write fy)" and "(r, d) \<in> set declared"
    and "fst (rt_handler r env req w) = Inr reply"
  shows "(if (rt_method r, rt_path r) \<in> set listing_paths then
       \<exists>items m. re_body reply = data_page items m \<and> re_body (write_reply fy d reply) =
         JObj [(''data'', JArr (replicate (length items) (JObj []))), (''meta'', JObj [])]
     else if (rt_method r, rt_path r) \<in> set object_paths then re_body (write_reply fy d reply) = JObj []
     else True)"
proof -
  have ok: "reply_ok (\<lambda>_ _. True) d reply" using handlers_conform [OF assms(2)] assms(3) by (rule returnsD)
  show ?thesis
  proof (cases "(rt_method r, rt_path r) \<in> set listing_paths")
    case True
    with listing_written [OF assms(1,2) True assms(3)] show ?thesis by auto
  next
    case False
    with ok written_unique [OF assms(1), of "\<lambda>_ _. True" S_any_object "re_body reply"] show ?thesis
      using object_schemas [OF assms(2)]
      by (auto simp: answers_def write_reply_def split: if_splits json.splits)
  qed
qed

theorem bare_answers_arrive_empty_witness:
  "re_body (write_reply sample_fastify listJobs_schema jobs_reply) =
     JObj [(''data'', JArr [JObj []]), (''meta'', JObj [])]"
  using bare_answers_arrive_empty [OF sample_fastify(2) declared_samples(1) jobs_reply]
  by (auto simp: jobs_route_def listing_paths_def jobs_reply_def data_page_def)

end
