(* ===== verification/Timers.thy ===== *)
theory Timers
  imports Scheduler
begin

text \<open>
  The timers of a worker process, as Node documents \<open>setTimeout\<close>, \<open>setInterval\<close> and their handles:
  \<open>startHeartbeatWriter\<close> and \<open>startReaper\<close> of \<open>worker/src/heartbeat.ts\<close>, \<open>startScheduler\<close> of
  \<open>worker/src/scheduler.ts\<close>, and what \<open>shutdown\<close> of \<open>worker/src/index.ts\<close> clears. What the tasks do is in
  \<open>Heartbeat\<close> and \<open>Scheduler\<close>; the first heartbeat and the first tick, which run before their
  intervals are set, are part of \<open>boot\<close> in \<open>WorkerMain\<close>.
\<close>

section \<open>Handles\<close>

datatype timer_task = Beat_task | Reap_task | Tick_task

record timer =
  tm_id :: nat
  tm_due :: timestamp
  tm_every :: "int option"  \<comment> \<open>\<open>None\<close>: a timeout, which fires once\<close>
  tm_task :: timer_task

record event_loop =
  el_next :: nat
  el_timers :: "timer list"

definition idle_loop :: event_loop where
  "idle_loop = \<lparr>el_next = 0, el_timers = []\<rparr>"

text \<open>A delay below 1 or above \<open>2 ^ 31 - 1\<close> is 1.\<close>

definition timer_delay :: "int \<Rightarrow> int" where
  "timer_delay ms = (if 1 \<le> ms \<and> ms \<le> 2147483647 then ms else 1)"

definition setTimeout :: "timestamp \<Rightarrow> timer_task \<Rightarrow> int \<Rightarrow> event_loop \<Rightarrow> nat \<times> event_loop" where
  "setTimeout now task ms el = (el_next el, \<lparr>el_next = el_next el + 1, el_timers = el_timers el @
     [\<lparr>tm_id = el_next el, tm_due = now + timer_delay ms, tm_every = None, tm_task = task\<rparr>]\<rparr>)"

definition setInterval :: "timestamp \<Rightarrow> timer_task \<Rightarrow> int \<Rightarrow> event_loop \<Rightarrow> nat \<times> event_loop" where
  "setInterval now task ms el = (el_next el, \<lparr>el_next = el_next el + 1, el_timers = el_timers el @
     [\<lparr>tm_id = el_next el, tm_due = now + timer_delay ms, tm_every = Some (timer_delay ms), tm_task = task\<rparr>]\<rparr>)"

text \<open>\<open>clearTimeout\<close> and \<open>clearInterval\<close>.\<close>

definition clear_timer :: "nat \<Rightarrow> event_loop \<Rightarrow> event_loop" where
  "clear_timer i el = el\<lparr>el_timers := filter (\<lambda>tm. tm_id tm \<noteq> i) (el_timers el)\<rparr>"

section \<open>The services of a worker\<close>

text \<open>\<open>Number(process.env.X) || d\<close>, where \<open>None\<close> stands for \<open>NaN\<close>.\<close>

definition env_number :: "int option \<Rightarrow> int \<Rightarrow> int" where
  "env_number v d = (case v of None \<Rightarrow> d | Some n \<Rightarrow> if n = 0 then d else n)"

record worker_env =
  we_heartbeat_interval_ms :: "int option"  \<comment> \<open>\<open>Number(process.env.WORKER_HEARTBEAT_INTERVAL_MS)\<close>\<close>
  we_heartbeat_ttl_seconds :: "int option"
  we_scheduler_tick_ms :: "int option"

definition HEARTBEAT_INTERVAL_MS :: "worker_env \<Rightarrow> int" where
  "HEARTBEAT_INTERVAL_MS e = env_number (we_heartbeat_interval_ms e) 5000"

definition HEARTBEAT_TTL_SECONDS :: "worker_env \<Rightarrow> int" where
  "HEARTBEAT_TTL_SECONDS e = env_number (we_heartbeat_ttl_seconds e) 30"

definition REAPER_INTERVAL_MS :: int where "REAPER_INTERVAL_MS = 30000"

definition SCHEDULER_TICK_MS :: "worker_env \<Rightarrow> int" where
  "SCHEDULER_TICK_MS e = env_number (we_scheduler_tick_ms e) 5000"

definition startHeartbeatWriter :: "worker_env \<Rightarrow> timestamp \<Rightarrow> event_loop \<Rightarrow> nat \<times> event_loop" where
  "startHeartbeatWriter e now el = setInterval now Beat_task (HEARTBEAT_INTERVAL_MS e) el"

definition startReaper :: "timestamp \<Rightarrow> event_loop \<Rightarrow> nat \<times> event_loop" where
  "startReaper now el =
     (let (initialDelay, el) = setTimeout now Reap_task 10000 el;
          (interval, el) = setInterval now Reap_task REAPER_INTERVAL_MS el;
          el = clear_timer initialDelay el;
          (kick, el) = setTimeout now Reap_task 10000 el
      in setInterval now Reap_task REAPER_INTERVAL_MS el)"

text \<open>The interval of \<open>startScheduler\<close> is set once the first tick is done, at \<open>ticked\<close>.\<close>

definition startScheduler :: "worker_env \<Rightarrow> timestamp \<Rightarrow> event_loop \<Rightarrow> event_loop" where
  "startScheduler e ticked el = snd (setInterval ticked Tick_task (SCHEDULER_TICK_MS e) el)"

text \<open>\<open>main\<close> starts them in this order and keeps the first two handles, which \<open>shutdown\<close> clears.\<close>

definition start_services :: "worker_env \<Rightarrow> timestamp \<Rightarrow> timestamp \<Rightarrow> (nat \<times> nat) \<times> event_loop" where
  "start_services e now ticked =
     (let (heartbeatInterval, el) = startHeartbeatWriter e now idle_loop;
          (reaperInterval, el) = startReaper now el
      in ((heartbeatInterval, reaperInterval), startScheduler e ticked el))"

definition clear_services :: "nat \<times> nat \<Rightarrow> event_loop \<Rightarrow> event_loop" where
  "clear_services handles el = clear_timer (snd handles) (clear_timer (fst handles) el)"

section \<open>Firing\<close>

text \<open>The timer due first, and among equals the one set first.\<close>

definition next_timer :: "event_loop \<Rightarrow> timer option" where
  "next_timer el = (case sort_key tm_due (el_timers el) of [] \<Rightarrow> None | tm # tms \<Rightarrow> Some tm)"

text \<open>A timeout is gone once it fires; an interval is due again one period after it has fired.\<close>

definition fire_timer :: "timestamp \<Rightarrow> timer \<Rightarrow> event_loop \<Rightarrow> event_loop" where
  "fire_timer now tm el = (case tm_every tm of
     None \<Rightarrow> clear_timer (tm_id tm) el
   | Some period \<Rightarrow> el\<lparr>el_timers := update_by tm_id (tm_id tm) (\<lambda>t. t\<lparr>tm_due := now + period\<rparr>) (el_timers el)\<rparr>)"

text \<open>What fires and when, if each firing comes that much later than it is due.\<close>

fun firings :: "nat list \<Rightarrow> event_loop \<Rightarrow> (timestamp \<times> timer_task) list" where
  "firings [] el = []"
| "firings (late # lates) el = (case next_timer el of
     None \<Rightarrow> []
   | Some tm \<Rightarrow> (tm_due tm + int late, tm_task tm) #
       firings lates (fire_timer (tm_due tm + int late) tm el))"

abbreviation punctual :: "nat \<Rightarrow> nat list" where
  "punctual n \<equiv> replicate n 0"

section \<open>Two reapers\<close>

lemmas timer_defs = setTimeout_def setInterval_def clear_timer_def timer_delay_def REAPER_INTERVAL_MS_def
  next_timer_def fire_timer_def update_by_def

definition reap_timer :: "nat \<Rightarrow> timestamp \<Rightarrow> timer" where
  "reap_timer i t = \<lparr>tm_id = i, tm_due = t, tm_every = Some 30000, tm_task = Reap_task\<rparr>"

lemma startReaper_timers:
  "startReaper t0 idle_loop = (3, \<lparr>el_next = 4, el_timers = [reap_timer 1 (t0 + 30000),
     \<lparr>tm_id = 2, tm_due = t0 + 10000, tm_every = None, tm_task = Reap_task\<rparr>, reap_timer 3 (t0 + 30000)]\<rparr>)"
  by (simp add: startReaper_def idle_loop_def timer_defs reap_timer_def)

lemma both_intervals:
  "firings (punctual (2 * n)) \<lparr>el_next = 4, el_timers = [reap_timer 1 t, reap_timer 3 t]\<rparr> =
    concat (map (\<lambda>k. replicate 2 (t + 30000 * int k, Reap_task)) [0..<n])"
proof (induction n arbitrary: t)
  case (Suc n)
  have "concat (map (\<lambda>k. replicate 2 (t + 30000 * int k, Reap_task)) [0..<Suc n]) =
      replicate 2 (t, Reap_task) @ concat (map (\<lambda>k. replicate 2 ((t + 30000) + 30000 * int k, Reap_task)) [0..<n])"
    unfolding upt_conv_Cons [OF zero_less_Suc] map_Suc_upt [symmetric]
    by (simp add: comp_def algebra_simps)
  then show ?case
    using Suc.IH [of "t + 30000"]
    by (simp add: timer_defs reap_timer_def numeral_2_eq_2)
qed simp

lemma upt_one: "[1..<Suc n] = map Suc [0..<n]"
  by (simp only: One_nat_def map_Suc_upt)

text \<open>
  \<open>startReaper\<close> leaves two intervals that fire at the same instants: after the first run, which comes
  after 10 s, every 30 s two runs of the reaper begin at once.
\<close>

lemma reaper_runs_twice:
  "firings (punctual (Suc (2 * n))) (snd (startReaper t0 idle_loop)) =
    (t0 + 10000, Reap_task) # concat (map (\<lambda>k. replicate 2 (t0 + 30000 * int k, Reap_task)) [1..<Suc n])"
proof -
  have "firings (punctual (Suc (2 * n))) (snd (startReaper t0 idle_loop)) =
      (t0 + 10000, Reap_task) #
      firings (punctual (2 * n)) \<lparr>el_next = 4, el_timers = [reap_timer 1 (t0 + 30000), reap_timer 3 (t0 + 30000)]\<rparr>"
    by (simp add: startReaper_timers timer_defs reap_timer_def)
  also have "firings (punctual (2 * n)) \<lparr>el_next = 4, el_timers = [reap_timer 1 (t0 + 30000), reap_timer 3 (t0 + 30000)]\<rparr> =
      concat (map (\<lambda>k. replicate 2 (t0 + 30000 * int k, Reap_task)) [1..<Suc n])"
    unfolding both_intervals upt_one map_map comp_def by (simp add: algebra_simps)
  finally show ?thesis .
qed

lemma one_interval:
  "firings (punctual n) \<lparr>el_next = 4, el_timers = [reap_timer 1 t]\<rparr> =
    map (\<lambda>k. (t + 30000 * int k, Reap_task)) [0..<n]"
proof (induction n arbitrary: t)
  case (Suc n)
  have "map (\<lambda>k. (t + 30000 * int k, Reap_task)) [0..<Suc n] =
      (t, Reap_task) # map (\<lambda>k. ((t + 30000) + 30000 * int k, Reap_task)) [0..<n]"
    unfolding upt_conv_Cons [OF zero_less_Suc] map_Suc_upt [symmetric]
    by (simp add: comp_def algebra_simps)
  then show ?case using Suc.IH [of "t + 30000"] by (simp add: timer_defs reap_timer_def)
qed simp

text \<open>Clearing the handle \<open>startReaper\<close> returns stops one of them; the other goes on.\<close>

lemma cleared_reaper_goes_on:
  "firings (punctual (Suc n)) (clear_timer (fst (startReaper t0 idle_loop)) (snd (startReaper t0 idle_loop))) =
    (t0 + 10000, Reap_task) # map (\<lambda>k. (t0 + 30000 * int k, Reap_task)) [1..<Suc n]"
proof -
  have "firings (punctual (Suc n)) (clear_timer (fst (startReaper t0 idle_loop)) (snd (startReaper t0 idle_loop))) =
      (t0 + 10000, Reap_task) # firings (punctual n) \<lparr>el_next = 4, el_timers = [reap_timer 1 (t0 + 30000)]\<rparr>"
    by (simp add: startReaper_timers timer_defs reap_timer_def)
  also have "firings (punctual (n)) \<lparr>el_next = 4, el_timers = [reap_timer 1 (t0 + 30000)]\<rparr> =
      map (\<lambda>k. (t0 + 30000 * int k, Reap_task)) [1..<Suc n]"
    unfolding one_interval upt_one map_map comp_def by (simp add: algebra_simps)
  finally show ?thesis .
qed

end
