(* ===== verification/Fleet.thy ===== *)
theory Fleet
  imports System
begin

text \<open>
  The services again, with the run of a job in two steps: between \<open>begin_job\<close> and \<open>finish_job\<close>, while
  the handler runs, anything may happen. The state adds what worker processes hold in memory and
  which of them have crashed or exited. A worker's registration, a status it writes to its row, a
  claim and a run of the reaper are one step.
\<close>

section \<open>Steps\<close>

text \<open>
  What a worker process holds in memory: jobs \<open>claimJobs\<close> has returned to it and that are not begun,
  and runs whose handler has not returned. A crash loses both.
\<close>

datatype holding = Held ident ident | Flying ident flight  \<comment> \<open>worker; job, or run in progress\<close>

fun holder :: "holding \<Rightarrow> ident" where
  "holder (Held v i) = v"
| "holder (Flying v f) = v"

fun job_held :: "holding \<Rightarrow> ident" where
  "job_held (Held v i) = i"
| "job_held (Flying v f) = fl_jobId f"

record fleet =
  ft_world :: world
  ft_held :: "holding multiset"
  ft_crashed :: "ident set"

text \<open>The operations that are one step here as well.\<close>

fun plain :: "service_op \<Rightarrow> bool" where
  "plain (Claim env locked q limit) = False"
| "plain (Launch env i v) = False"
| "plain (Reap env ttl) = False"
| "plain x = True"

definition accurate :: "reap_point env \<Rightarrow> int \<Rightarrow> fleet \<Rightarrow> bool" where
  "accurate env ttl s \<longleftrightarrow> (\<forall>p. fails env p = None) \<and>
     set (stale_workers ttl (clock env R_find) (ft_world s)) \<subseteq> ft_crashed s"

text \<open>
  A verdict of the reaper is accurate when the workers it finds stale have crashed and its calls
  succeed. With \<open>exact\<close> only accurate reaps are steps; without, any reap is.
\<close>

inductive fleet_step :: "bool \<Rightarrow> fleet \<Rightarrow> fleet \<Rightarrow> bool" for exact :: bool where
  claims: "v \<notin> ft_crashed s \<Longrightarrow> claimJobs env locked q limit (ft_world s) = (r, w) \<Longrightarrow>
    fleet_step exact s (s\<lparr>ft_world := w,
      ft_held := ft_held s + (case r of Inl e \<Rightarrow> {#} | Inr ids \<Rightarrow> mset (map (Held v) ids))\<rparr>)"
| begins: "Held v i \<in># ft_held s \<Longrightarrow> begin_job env i v (ft_world s) = (r, w) \<Longrightarrow>
    fleet_step exact s (s\<lparr>ft_world := w, ft_held := ft_held s - {#Held v i#} +
      (case r of Inr (Some f) \<Rightarrow> {#Flying v f#} | _ \<Rightarrow> {#})\<rparr>)"
| finishes: "Flying v f \<in># ft_held s \<Longrightarrow>
    fleet_step exact s (s\<lparr>ft_world := snd (finish_job env f (ft_world s)), ft_held := ft_held s - {#Flying v f#}\<rparr>)"
| crashes: "fleet_step exact s (s\<lparr>ft_held := {#h \<in># ft_held s. holder h \<noteq> v#}, ft_crashed := insert v (ft_crashed s)\<rparr>)"
| reaps: "(exact \<Longrightarrow> accurate env ttl s) \<Longrightarrow>
    fleet_step exact s (s\<lparr>ft_world := snd (reap env ttl (ft_world s))\<rparr>)"
| registers: "fleet_step exact s (s\<lparr>ft_world := snd (worker_create v (ft_world s))\<rparr>)"
| marks: "fleet_step exact s (s\<lparr>ft_world := snd (worker_update v (\<lambda>r. r\<lparr>wk_status := st\<rparr>) (ft_world s))\<rparr>)"
| serves: "plain x \<Longrightarrow> fleet_step exact s (s\<lparr>ft_world := fst (serve x (ft_world s, {#}))\<rparr>)"

section \<open>The tables\<close>

context job_tables
begin

lemma fleet_step_R: "fleet_step exact s t \<Longrightarrow> R (ft_world s) (ft_world t)"
proof (induction rule: fleet_step.induct)
  case (claims v s env locked q limit r w)
  then show ?case using guarD' [OF claimJobs_R] by auto
next
  case (begins v i s env r w)
  then show ?case using guarD' [OF flight_R(1)] by auto
next
  case (reaps env ttl s)
  then show ?case by (simp add: guarD [OF reap_R])
next
  case (serves x s)
  then show ?case using serve_R [of "(ft_world s, {#})" x] by simp
qed (simp_all add: guarD [OF flight_R(2)] guarD [OF worker_create_R] guarD [OF worker_update_R] refl_R)

lemma fleet_R: "(fleet_step exact)\<^sup>*\<^sup>* s t \<Longrightarrow> R (ft_world s) (ft_world t)"
  by (induction rule: rtranclp_induct) (auto intro: refl_R trans_R fleet_step_R)

end

text \<open>
  C5. Starting with no jobs, whatever workers, reapers, schedulers and clients do and whatever
  fails, also while handlers run and when workers crash or are declared dead by mistake: every job
  in \<open>dead_letter\<close> has its row in the dead letter queue, no queue holds two jobs with the same
  idempotency key, and job ids are unique.
\<close>

theorem fleet_invariant:
  assumes "(fleet_step False)\<^sup>*\<^sup>* s t" and "jobs (ft_world s) = []"
  shows "dead_letters_recorded (ft_world t) \<and> idempotency_unique (ft_world t) \<and>
    distinct (map j_id (jobs (ft_world t)))"
  using assms(2) dlr.fleet_R [OF assms(1)] unique_keys.fleet_R [OF assms(1)] ids_grow.fleet_R [OF assms(1)]
  by (simp add: dead_letters_recorded_def idempotency_unique_def ids_grow_def)

definition quiet_fleet :: fleet where
  "quiet_fleet = \<lparr>ft_world = demo_world ''echo'' 0\<lparr>jobs := [sample_job ''a'' 0]\<rparr>, ft_held = {#}, ft_crashed = {}\<rparr>"

theorem fleet_invariant_witness:
  "dead_letters_recorded (fst (serve (Submit (demo_api 5) (demo_request [(''queueId'', ''q'')] demo_body)) (empty_world, {#})))"
proof -
  have "fleet_step False (quiet_fleet\<lparr>ft_world := empty_world\<rparr>) (quiet_fleet\<lparr>ft_world :=
      fst (serve (Submit (demo_api 5) (demo_request [(''queueId'', ''q'')] demo_body)) (empty_world, {#}))\<rparr>)"
    using fleet_step.serves [of "Submit (demo_api 5) (demo_request [(''queueId'', ''q'')] demo_body)" False
      "quiet_fleet\<lparr>ft_world := empty_world\<rparr>"] by simp
  from fleet_invariant [OF r_into_rtranclp [of "fleet_step False", OF this]] show ?thesis
    by (simp add: empty_world_def)
qed

section \<open>What the other services leave alone\<close>

definition job_status :: "world \<Rightarrow> ident \<Rightarrow> JobStatus option" where
  "job_status w i = map_option j_status (job_find w i)"

abbreviation stays :: "ident \<Rightarrow> JobStatus \<Rightarrow> world \<Rightarrow> world \<Rightarrow> bool" where
  "stays i st \<equiv> (\<lambda>s t. job_status s i = Some st \<longrightarrow> job_status t i = Some st)"

lemma stays_frame: "(\<And>s. jobs (snd (m s)) = jobs s) \<Longrightarrow> guar (stays i st) m"
  by (rule guarI) (simp add: job_status_def job_find_def)

lemma stays_frames:
  shows "guar (stays i st) (publish c m)" and "guar (stays i st) (worker_update v h)"
    and "guar (stays i st) (sched_update sj u)" and "guar (stays i st) (sched_create d)"
    and "guar (stays i st) (heartbeat_create b)" and "guar (stays i st) (dlq_delete k)"
    and "guar (stays i st) (exec_update x g)" and "guar (stays i st) (exec_create e)"
    and "guar (stays i st) (log_create l)" and "guar (stays i st) (dlq_create dl)"
  by (rule stays_frame, simp add: log_create_def publish_def modifyA_def worker_update_def exec_update_def
      exec_put_def exec_create_def worker_put_def sched_update_def sched_put_def sched_create_def
      heartbeat_create_def dlq_create_def dlq_delete_def split: option.split)+

lemma stays_create: "guar (stays i st) (job_create j)"
  by (rule guarI) (auto simp: job_create_def job_status_def job_find_def find_by_append split: option.split)

lemma stays_update: "keeps_key j_id f \<Longrightarrow> k \<noteq> i \<Longrightarrow> guar (stays i st) (job_update k f)"
  by (rule guarI) (simp add: job_update_def job_status_def job_store.get_put_other split: option.split)

lemmas stays_walk = guar_rules stays_create stays_frames

lemma submit_stays: "guar (stays i st) (createJob env req)" "guar (stays i st) (createBatch env req)"
proof -
  have one: "guar (stays i st) (create_one_shot env queue cj)" for queue cj
    unfolding create_one_shot_def Let_def by (intro stays_walk)
  have cron: "guar (stays i st) (create_cron env queue cj e)" for queue cj e
    unfolding create_cron_def Let_def by (intro stays_walk)
  show "guar (stays i st) (createJob env req)" "guar (stays i st) (createBatch env req)"
    unfolding createJob_def createBatch_def Let_def by (intro stays_walk one cron)+
qed

lemma tick_stays: "guar (stays i st) (tick env cron)"
  by (rule tick_guar [OF keeps.two_state_axioms]) (rule stays_create stays_frames)+

lemma beat_stays: "guar (stays i st) (write_heartbeat env v n cpu)"
  unfolding write_heartbeat_def by (intro stays_walk) (simp add: job_status_def job_find_def)

text \<open>Retry and cancel look at the status first.\<close>

lemma retry_stays:
  assumes "\<not> retryable st" shows "guar (stays i st) (retryJob env req)"
proof (cases "target req = i")
  case True
  let ?Q = "\<lambda>found :: (Job \<times> ident \<times> DeadLetterJob option) option.
    \<exists>j p d. found = Some (j, p, d) \<and> j_status j = st"
  show ?thesis
    unfolding retryJob_def Let_def
  proof (rule keeps_read [where Q = ?Q])
    show "?Q (map_option (\<lambda>j. (j, job_project s j, dlq_find s (or_else (map_of (rq_params req) ''id'') [])))
        (job_find s (or_else (map_of (rq_params req) ''id'') [])))" if "job_status s i = Some st" for s
      using that True by (auto simp: target_def job_status_def)
  qed (use assms in \<open>auto simp: someA_def unlessA_def keeps.throw_guar\<close>)
next
  case False
  then have "guar (stays i st) (job_update (or_else (map_of (rq_params req) ''id'') []) f)"
    if "keeps_key j_id f" for f
    using that by (intro stays_update) (simp_all add: target_def)
  then show ?thesis
    unfolding retryJob_def Let_def case_prod_beta by (intro stays_walk) simp
qed

lemma cancel_stays:
  assumes "\<not> cancellable st" shows "guar (stays i st) (cancelJob env req)"
proof (cases "target req = i")
  case True
  let ?Q = "\<lambda>found :: (Job \<times> ident) option. \<exists>j p. found = Some (j, p) \<and> j_status j = st"
  show ?thesis
    unfolding cancelJob_def Let_def
  proof (rule keeps_read [where Q = ?Q])
    show "?Q (map_option (\<lambda>j. (j, job_project s j)) (job_find s (or_else (map_of (rq_params req) ''id'') [])))"
      if "job_status s i = Some st" for s
      using that True by (auto simp: target_def job_status_def)
  qed (use assms in \<open>auto simp: someA_def unlessA_def cancel_update_def keeps.throw_guar\<close>)
next
  case False
  then have "guar (stays i st) (job_update (or_else (map_of (rq_params req) ''id'') []) f)"
    if "keeps_key j_id f" for f
    using that by (intro stays_update) (simp_all add: target_def)
  then show ?thesis
    unfolding cancelJob_def cancel_update_def Let_def case_prod_beta by (intro stays_walk) simp
qed

lemma serves_stays:
  assumes "plain x" and "\<not> retryable st" and "\<not> cancellable st" and "job_status w i = Some st"
  shows "job_status (fst (serve x (w, {#}))) i = Some st"
  using assms(1,4) guarD [OF submit_stays(1), of w i st] guarD [OF submit_stays(2), of w i st]
    guarD [OF tick_stays, of w i st] guarD [OF beat_stays, of w i st]
    guarD [OF retry_stays [OF assms(2)], of w i] guarD [OF cancel_stays [OF assms(3)], of w i]
  by (cases x) simp_all

text \<open>No service but the executor and the reaper writes executions.\<close>

abbreviation same_execs :: "world \<Rightarrow> world \<Rightarrow> bool" where
  "same_execs \<equiv> (\<lambda>s t. job_executions t = job_executions s)"

lemma exec_frames:
  shows "guar same_execs (publish c m)" and "guar same_execs (worker_update v h)"
    and "guar same_execs (sched_update sj u)" and "guar same_execs (sched_create d)"
    and "guar same_execs (heartbeat_create b)" and "guar same_execs (dlq_delete k)"
    and "guar same_execs (log_create l)" and "guar same_execs (dlq_create dl)"
    and "guar same_execs (job_create j)" and "guar same_execs (job_update i f)"
  by (rule guarI, simp add: log_create_def publish_def modifyA_def worker_update_def job_create_def
      job_update_def job_put_def worker_put_def sched_update_def sched_put_def sched_create_def
      heartbeat_create_def dlq_create_def dlq_delete_def split: option.split)+

lemmas exec_walk = guar_rules exec_frames

lemma serves_execs: "plain x \<Longrightarrow> job_executions (fst (serve x (w, {#}))) = job_executions w"
proof (cases x)
  case (Submit env req)
  have one: "guar same_execs (create_one_shot env queue cj)" for queue cj
    unfolding create_one_shot_def Let_def by (intro exec_walk)
  have cron: "guar same_execs (create_cron env queue cj e)" for queue cj e
    unfolding create_cron_def Let_def by (intro exec_walk)
  have "guar same_execs (createJob env req)"
    unfolding createJob_def Let_def by (intro exec_walk one cron)
  with Submit show ?thesis using guarD by fastforce
next
  case (Submit_batch env req)
  have "guar same_execs (createBatch env req)" unfolding createBatch_def Let_def by (intro exec_walk)
  with Submit_batch show ?thesis using guarD by fastforce
next
  case (Retry env req)
  have "guar same_execs (retryJob env req)" unfolding retryJob_def Let_def case_prod_beta by (intro exec_walk)
  with Retry show ?thesis using guarD by fastforce
next
  case (Cancel env req)
  have "guar same_execs (cancelJob env req)"
    unfolding cancelJob_def cancel_update_def Let_def case_prod_beta by (intro exec_walk)
  with Cancel show ?thesis using guarD by fastforce
next
  case (Tick env cron)
  have "guar same_execs (tick env cron)"
    by (rule tick_guar [OF frame.two_state_axioms]) (rule exec_frames)+
  with Tick show ?thesis using guarD by fastforce
next
  case (Beat env v n cpu)
  have "guar same_execs (write_heartbeat env v n cpu)"
    unfolding write_heartbeat_def by (intro exec_walk) simp
  with Beat show ?thesis using guarD by fastforce
qed simp_all

end
