(* ===== verification/Reapers.thy ===== *)
theory Reapers
  imports Timers Fleet
begin

text \<open>
  Two runs of the reaper at once. Every worker process runs a reaper, and each of them starts two runs
  at the same instants (\<open>Timers.reaper_runs_twice\<close>). A run is not one transaction: \<open>reap_reads\<close> is what
  it does for a stale worker before its first write to a job, and between it and the requeueing the
  other run, and any other service, may work. In \<open>Fleet\<close> a run is one step.
\<close>

definition reap_reads :: "reap_point env \<Rightarrow> ident \<Rightarrow> ident list action" where
  "reap_reads env workerId =
     bindA (callA env (R_dead workerId) (worker_update workerId (\<lambda>v. v\<lparr>wk_status := Dead\<rparr>))) (\<lambda>_.
     bindA (callA env (R_executions workerId) (readA (orphaned_executions workerId))) (\<lambda>execs.
     let orphanedJobIds = js_set execs in
     if orphanedJobIds = [] then retA []
     else bindA (callA env (R_claimed workerId) (readA (claimed_jobs workerId))) (\<lambda>claimed.
          retA (js_set (orphanedJobIds @ claimed)))))"

text \<open>The two halves are the code's run for one worker.\<close>

lemma reap_worker_split:
  "reap_worker env workerId = bindA (reap_reads env workerId) (forA (requeue_orphan env workerId))"
proof -
  have "(if c then retA () else bindA m (\<lambda>claimed. forA h (js_set (ids @ claimed)))) =
      bindA (if c then retA [] else bindA m (\<lambda>claimed. retA (js_set (ids @ claimed)))) (forA h)"
    for c ids h and m :: "ident list action"
    by (simp add: bindA_assoc)
  then show ?thesis
    unfolding reap_worker_def reap_reads_def Let_def bindA_assoc by simp
qed

lemma reap_reads_run:
  assumes "\<And>p. fails env p = None" and "reap_reads env v w = (Inr ids, w')"
  shows "set ids = open_jobs v w" and "distinct ids" and "w' = worker_put v (\<lambda>v. v\<lparr>wk_status := Dead\<rparr>) w"
proof -
  let ?w1 = "worker_put v (\<lambda>v. v\<lparr>wk_status := Dead\<rparr>) w"
  have execs: "job_executions ?w1 = job_executions w" by (simp add: worker_put_def)
  have "worker_find w v \<noteq> None"
    using assms(2) by (auto simp: reap_reads_def bindA_def callA_def assms(1) worker_update_def split: option.splits)
  then have run: "w' = ?w1 \<and> ids = (if orphaned_executions v ?w1 = [] then []
      else js_set (js_set (orphaned_executions v ?w1) @ claimed_jobs v ?w1))"
    using assms(2) by (auto simp: reap_reads_def bindA_def callA_def assms(1) worker_update_def readA_def retA_def Let_def
        split: option.splits if_splits)
  then show "w' = ?w1" "distinct ids" by auto
  have "set (orphaned_executions v ?w1) = open_jobs v w" "set (claimed_jobs v ?w1) \<subseteq> open_jobs v w"
    using orphaned_executions_open [of v ?w1] claimed_jobs_open [of v ?w1] by (simp_all add: open_jobs_exec execs)
  with run show "set ids = open_jobs v w" by (auto split: if_splits)
qed

lemma mark_claimed_progress:
  "job_progress (mark_claimed now ids w) i =
    map_option (\<lambda>(st, n). (if i \<in> set ids then Claimed else st, n)) (job_progress w i)"
  by (cases "job_find w i") (simp_all add: job_progress_def job_find_mark_claimed progress_def)

lemma requeue_all_reaped:
  assumes "\<And>p. fails env p = None" and "distinct ids" and "\<And>k. k \<in> set ids \<Longrightarrow> job_progress w k \<noteq> None"
    and "forA (requeue_orphan env v) ids w = (r, w')"
  shows "reaped (set ids) {} w w'"
  using reaped_requeue_all [OF assms(1) reaped_refl assms(2), of w v] assms(3,4) by auto

text \<open>
  C22. Two reapers that have both read the open jobs of the same worker before either requeues
  them requeue them twice: the job counts two attempts for one crash, and when another worker has
  claimed it in between, it is back in \<open>queued\<close> while that worker has it.
\<close>

theorem racing_reapers_requeue_twice:
  fixes ea eb :: "reap_point env"
  assumes "\<And>p. fails ea p = None" and "\<And>p. fails eb p = None"
    and "\<forall>x\<in>set (job_executions w). job_find w (x_jobId x) \<noteq> None"
    and "reap_reads ea v w = (Inr ids, w1)" and "reap_reads eb v w1 = (Inr ids', w2)"
    and "forA (requeue_orphan ea v) ids w2 = (r, w3)"
    and "claimJobs env locked q limit w3 = (Inr claimed, w4)" and "i \<in> set claimed"
    and "forA (requeue_orphan eb v) ids' w4 = (r', w5)"
    and "i \<in> open_jobs v w" and "job_progress w i = Some (st, n)"
  shows "job_progress w4 i = Some (Claimed, n + 1) \<and> job_progress w5 i = Some (Queued, n + 2)"
proof -
  note A = reap_reads_run [OF assms(1,4)] and B = reap_reads_run [OF assms(2,5)]
  have same: "job_progress w2 = job_progress w" "job_executions w1 = job_executions w"
    by (simp_all add: A(3) B(3) worker_put_def job_find_def job_progress_def fun_eq_iff)
  then have ids': "set ids' = set ids" using A(1) B(1) by (simp add: open_jobs_exec)
  have there: "job_progress w2 k \<noteq> None" if "k \<in> set ids" for k
    using that assms(3) A(1) same(1) by (auto simp: open_jobs_exec job_progress_def)
  from requeue_all_reaped [OF assms(1) A(2) there assms(6)] have w3: "reaped (set ids) {} w2 w3" .
  obtain now where w4: "w4 = mark_claimed now claimed w3"
    using claimJobs_result [of w3 q limit env locked] assms(7) by auto
  have "job_progress w4 k \<noteq> None" if "k \<in> set ids'" for k
    using there that w3 ids' by (auto simp: w4 mark_claimed_progress reaped_def)
  from requeue_all_reaped [OF assms(2) B(2) this assms(9)] have w5: "reaped (set ids') {} w4 w5" .
  have claimed: "job_progress w4 i = Some (Claimed, n + 1)"
    using w3 assms(8,10,11) A(1) same(1) by (simp add: w4 mark_claimed_progress reaped_def)
  then show ?thesis using w5 ids' A(1) assms(10) by (simp add: reaped_def)
qed

theorem racing_reapers_requeue_twice_witness:
  "\<exists>w4 w5. job_progress w4 ''a'' = Some (Claimed, 1) \<and> job_progress w5 ''a'' = Some (Queued, 2) \<and>
    forA (requeue_orphan (calm_env 60002) ''v'') [''a''] w4 = (Inr (), w5)"
proof -
  define w1 where "w1 = worker_put ''v'' (\<lambda>v. v\<lparr>wk_status := Dead\<rparr>) crashed"
  have A: "reap_reads (calm_env 60000) ''v'' crashed = (Inr [''a''], w1)"
    and B: "reap_reads (calm_env 60002) ''v'' w1 = (Inr [''a''], w1)"
    by (simp_all add: reap_reads_def bindA_def worker_update_def readA_def retA_def w1_def worker_find_def worker_put_def
        update_by_def orphaned_executions_def running_of_def claimed_jobs_def js_set_def crashed_defs Let_def)
  have there: "\<forall>x\<in>set (job_executions crashed). job_find crashed (x_jobId x) \<noteq> None"
    by (simp add: crashed_defs job_find_def)
  define w3 where "w3 = snd (forA (requeue_orphan (calm_env 60000) ''v'') [''a''] w1)"
  have requeue: "forA (requeue_orphan (calm_env 60000) ''v'') [''a''] w1 = (Inr (), w3)"
    by (simp add: w3_def requeue_orphan_def catchA_def bindA_def job_update_def modifyA_def publish_def retA_def
        w1_def worker_put_def job_find_def crashed_defs)
  have claim: "claimJobs (calm_env 60001) {} ''q'' 2 w3 = (Inr [''a''], mark_claimed 60001 [''a''] w3)"
    by (simp add: w3_def requeue_orphan_def catchA_def bindA_def job_update_def modifyA_def publish_def retA_def
        w1_def worker_put_def job_find_def crashed_defs job_put_def update_by_def fail_open_executions_def
        claimJobs_run in_flight_def in_flight_status_def count_where_def available_slots_def select_for_update_def claimable_def Let_def)
  have "job_progress w1 ''a'' \<noteq> None" by (simp add: w1_def job_progress_def job_find_def worker_put_def crashed_defs)
  with requeue_all_reaped [OF _ _ _ requeue] have "job_progress w3 ''a'' \<noteq> None" by (auto simp: reaped_def)
  then have "\<exists>w5. forA (requeue_orphan (calm_env 60002) ''v'') [''a''] (mark_claimed 60001 [''a''] w3) = (Inr (), w5)"
    using reaped_requeue_all [OF _ reaped_refl, of "calm_env 60002" "[''a'']" "mark_claimed 60001 [''a''] w3" "''v''"]
    by (auto simp: mark_claimed_progress simp del: forA.simps)
  then obtain w5 where again: "forA (requeue_orphan (calm_env 60002) ''v'') [''a''] (mark_claimed 60001 [''a''] w3) = (Inr (), w5)"
    by blast
  have "''a'' \<in> open_jobs ''v'' crashed" by (simp add: open_jobs_exec crashed_defs)
  moreover have "job_progress crashed ''a'' = Some (Running, 0)"
    by (simp add: job_progress_def job_find_def progress_def crashed_defs)
  ultimately show ?thesis
    using racing_reapers_requeue_twice [OF _ _ there A B requeue claim _ again] again by auto
qed

end
