(* ===== verification/WorkerMain.thy ===== *)
theory WorkerMain
  imports Poller Scheduler
begin

text \<open>
  \<open>worker/src/index.ts\<close>, the life of a worker process: registration, start of the services, and
  the graceful shutdown a signal begins; and \<open>waitForInFlight\<close> of \<open>poller.ts\<close>. The module's
  variables are the record \<open>process\<close>. \<open>shutdown\<close> awaits the jobs in flight between its two updates
  of the worker's row; what happens meanwhile (executions settle, more signals arrive, other
  services work on the database) are the events between them. The timers are in \<open>Timers\<close>.
\<close>

datatype main_point = M_register | M_draining | M_dead

record process =
  wp_workerId :: "ident option"
  wp_shuttingDown :: bool
  wp_heartbeatInterval :: bool  \<comment> \<open>set and not cleared\<close>
  wp_reaperInterval :: bool
  wp_poller :: poller
  wp_waiting :: "ident list option"  \<comment> \<open>the executions \<open>waitForInFlight\<close> still waits for\<close>
  wp_exit :: "int option"

definition initial_process :: process where
  "initial_process = \<lparr>wp_workerId = None, wp_shuttingDown = False, wp_heartbeatInterval = False,
     wp_reaperInterval = False, wp_poller = initial_poller, wp_waiting = None, wp_exit = None\<rparr>"

section \<open>Start\<close>

definition REQUIRED_ENV :: "string list" where
  "REQUIRED_ENV = [''DATABASE_URL'', ''REDIS_URL'']"

definition register_worker :: "main_point env \<Rightarrow> string \<Rightarrow> int \<Rightarrow> process \<times> world \<Rightarrow> process \<times> world" where
  "register_worker env hostname pid s =
     (case callA env M_register (worker_create \<lparr>wk_id = fresh env M_register, wk_hostname = hostname,
        wk_pid = pid, wk_status = Active, wk_startedAt = clock env M_register,
        wk_lastHeartbeatAt = clock env M_register\<rparr>) (snd s) of
        (Inl err, w) \<Rightarrow> ((fst s)\<lparr>wp_exit := Some 1\<rparr>, w)
      | (Inr worker, w) \<Rightarrow> ((fst s)\<lparr>wp_workerId := Some (wk_id worker)\<rparr>, w))"

record main_env =
  me_variable :: "string \<Rightarrow> string option"  \<comment> \<open>\<open>process.env\<close>\<close>
  me_main :: "main_point env"
  me_hostname :: string
  me_pid :: int
  me_beat :: "beat_point env"
  me_cpuLoad :: rat
  me_tick :: "tick_point env"
  me_cron :: cron

text \<open>
  \<open>main\<close> until the poller is entered: the first heartbeat and the first tick run at once. The
  result of a missing variable or a failed registration is a process that has exited with 1.
\<close>

definition boot :: "main_env \<Rightarrow> process \<times> world \<Rightarrow> process \<times> world" where
  "boot me s =
     (if list_ex (\<lambda>key. case me_variable me key of None \<Rightarrow> True | Some v \<Rightarrow> v = []) REQUIRED_ENV
      then ((fst s)\<lparr>wp_exit := Some 1\<rparr>, snd s)
      else case register_worker (me_main me) (me_hostname me) (me_pid me) s of (p, w) \<Rightarrow>
        (case (wp_exit p, wp_workerId p) of
           (None, Some workerId) \<Rightarrow>
             (p\<lparr>wp_heartbeatInterval := True, wp_reaperInterval := True\<rparr>,
              snd (tick (me_tick me) (me_cron me)
                (snd (write_heartbeat (me_beat me) workerId (po_active (wp_poller p)) (me_cpuLoad me) w))))
         | _ \<Rightarrow> (p, w)))"

definition main :: "main_env \<Rightarrow> poll_turn list \<Rightarrow> process \<times> world \<Rightarrow> (process \<times> world) option" where
  "main me turns s = (case boot me s of (p, w) \<Rightarrow>
     if wp_exit p \<noteq> None then Some (p, w)
     else map_option (\<lambda>(po, w'). (p\<lparr>wp_poller := po\<rparr>, w')) (startPoller turns (wp_poller p, w)))"

section \<open>Shutdown\<close>

definition mark_self :: "main_point env \<Rightarrow> main_point \<Rightarrow> WorkerStatus \<Rightarrow> process \<Rightarrow> world \<Rightarrow> world" where
  "mark_self env pt status p w = (case wp_workerId p of
     None \<Rightarrow> w
   | Some workerId \<Rightarrow> snd (catchA
       (callA env pt (worker_update workerId (\<lambda>v. v\<lparr>wk_status := status\<rparr>))) (\<lambda>err. retA ()) w))"

text \<open>\<open>shutdown\<close> up to \<open>await waitForInFlight(30_000)\<close>, and after it.\<close>

definition shutdown_begin :: "main_point env \<Rightarrow> process \<times> world \<Rightarrow> process \<times> world" where
  "shutdown_begin env s =
     (let p = fst s in
      if wp_shuttingDown p then s
      else (p\<lparr>wp_shuttingDown := True, wp_poller := stopPoller (wp_poller p),
              wp_waiting := Some (po_inFlight (wp_poller p))\<rparr>,
            mark_self env M_draining Draining p (snd s)))"

definition shutdown_end :: "main_point env \<Rightarrow> process \<times> world \<Rightarrow> process \<times> world" where
  "shutdown_end env s =
     ((fst s)\<lparr>wp_waiting := None, wp_heartbeatInterval := False, wp_reaperInterval := False,
        wp_exit := Some 0\<rparr>,
      mark_self env M_dead Dead (fst s) (snd s))"

text \<open>
  \<open>waitForInFlight\<close> over the executions still pending: whether its promise has resolved, given
  whether its timer has fired.
\<close>

definition waitForInFlight :: "bool \<Rightarrow> ident list \<Rightarrow> bool" where
  "waitForInFlight timeout pending \<longleftrightarrow> pending = [] \<or> timeout"

text \<open>
  The events of a process: a signal, an execution that settles, the continuation of \<open>shutdown\<close>
  once \<open>waitForInFlight\<close> has resolved (with or without its 30 s timer), and steps of other
  services. These may do anything to the database but take this worker's row away or change its
  status once it is not \<open>active\<close>; the guard of \<open>Others\<close> says so.
\<close>

datatype process_event =
    Signal "main_point env"
  | Settles ident
  | Waited "main_point env" bool
  | Others world

definition status_of :: "world \<Rightarrow> ident option \<Rightarrow> WorkerStatus option" where
  "status_of w workerId = Option.bind workerId (\<lambda>i. map_option wk_status (worker_find w i))"

fun process_step :: "process_event \<Rightarrow> process \<times> world \<Rightarrow> process \<times> world" where
  "process_step (Signal env) s = (if wp_exit (fst s) \<noteq> None then s else shutdown_begin env s)"
| "process_step (Settles i) (p, w) =
     (if wp_exit p \<noteq> None then (p, w)
      else (p\<lparr>wp_poller := callback_step (Settled i) (wp_poller p),
              wp_waiting := map_option (remove1 i) (wp_waiting p)\<rparr>, w))"
| "process_step (Waited env timeout) s =
     (if wp_exit (fst s) \<noteq> None then s
      else case wp_waiting (fst s) of
        None \<Rightarrow> s
      | Some pending \<Rightarrow> if waitForInFlight timeout pending then shutdown_end env s else s)"
| "process_step (Others w') (p, w) =
     (p, if status_of w' (wp_workerId p) = status_of w (wp_workerId p) \<or>
            status_of w (wp_workerId p) = Some Active \<and> status_of w' (wp_workerId p) \<noteq> None then w' else w)"

abbreviation life :: "process_event list \<Rightarrow> process \<times> world \<Rightarrow> process \<times> world" where
  "life evs \<equiv> fold process_step evs"

section \<open>The states of a shutdown\<close>

text \<open>Running, draining, gone: what the worker's row says in each.\<close>

definition in_phase :: "process \<times> world \<Rightarrow> bool" where
  "in_phase s \<longleftrightarrow> (case s of (p, w) \<Rightarrow>
     wp_workerId p \<noteq> None \<and> status_of w (wp_workerId p) \<noteq> None \<and>
     (wp_shuttingDown p \<longleftrightarrow> wp_exit p \<noteq> None \<or> wp_waiting p \<noteq> None) \<and>
     (wp_shuttingDown p \<longrightarrow> po_stopping (wp_poller p) \<and>
        (case wp_exit p of
           None \<Rightarrow> status_of w (wp_workerId p) = Some Draining
         | Some n \<Rightarrow> n = 0 \<and> status_of w (wp_workerId p) = Some Dead \<and>
             \<not> wp_heartbeatInterval p \<and> \<not> wp_reaperInterval p)))"

fun works :: "process_event \<Rightarrow> bool" where
  "works (Signal env) \<longleftrightarrow> fails env M_draining = None"
| "works (Waited env timeout) \<longleftrightarrow> fails env M_dead = None"
| "works _ \<longleftrightarrow> True"

lemma status_mark:
  "fails env pt = None \<Longrightarrow> wp_workerId p = Some i \<Longrightarrow> status_of w (Some i) \<noteq> None \<Longrightarrow>
    status_of (mark_self env pt st p w) (Some i) = Some st"
  by (auto simp: mark_self_def status_of_def catchA_def worker_update_def worker_store.get_put)

lemma stopping_callback: "po_stopping p \<Longrightarrow> po_stopping (callback_step c p)"
  by (cases c) (simp_all add: settle_job_def stopPoller_def)

lemma in_phase_step: "in_phase s \<Longrightarrow> works e \<Longrightarrow> in_phase (process_step e s)"
proof (cases s)
  case (Pair p w)
  assume a: "in_phase s" "works e"
  then obtain i where i: "wp_workerId p = Some i" "status_of w (Some i) \<noteq> None"
    by (auto simp: in_phase_def Pair)
  show ?thesis
  proof (cases e)
    case (Signal env)
    with a i status_mark [of env M_draining p i w Draining] show ?thesis
      by (auto simp: Pair in_phase_def shutdown_begin_def Let_def stopPoller_def split: option.splits)
  next
    case (Settles j)
    with a i stopping_callback [of "wp_poller p" "Settled j"] show ?thesis
      by (auto simp: Pair in_phase_def split: option.splits simp del: callback_step.simps)
  next
    case (Waited env timeout)
    with a i status_mark [of env M_dead p i w Dead] show ?thesis
      by (auto simp: Pair in_phase_def shutdown_end_def split: option.splits)
  next
    case (Others w')
    with a i show ?thesis by (auto simp: Pair in_phase_def split: option.splits)
  qed
qed

lemma in_phase_life: "in_phase s \<Longrightarrow> list_all works evs \<Longrightarrow> in_phase (life evs s)"
proof (induction evs arbitrary: s)
  case (Cons e evs)
  then show ?case using Cons.IH [OF in_phase_step, of s e] by simp
qed simp

lemma workerId_life: "wp_workerId (fst (life evs s)) = wp_workerId (fst s)"
proof (induction evs arbitrary: s)
  case (Cons e evs)
  have "wp_workerId (fst (process_step e s)) = wp_workerId (fst s)"
    by (cases s; cases e) (auto simp: shutdown_begin_def shutdown_end_def Let_def split: option.split)
  with Cons show ?case by simp
qed simp

lemma shutting_life: "wp_shuttingDown (fst s) \<Longrightarrow> wp_shuttingDown (fst (life evs s))"
proof (induction evs arbitrary: s)
  case (Cons e evs)
  have "wp_shuttingDown (fst (process_step e s))"
    using Cons.prems by (cases s; cases e) (auto simp: shutdown_begin_def shutdown_end_def Let_def split: option.split)
  with Cons.IH show ?case by simp
qed simp

lemma exit_life: "wp_exit (fst s) \<noteq> None \<Longrightarrow> wp_exit (fst (life evs s)) = wp_exit (fst s)"
proof (induction evs arbitrary: s)
  case (Cons e evs)
  have "fst (process_step e s) = fst s"
    using Cons.prems by (cases s; cases e) (auto simp: shutdown_begin_def shutdown_end_def Let_def split: option.split)
  with Cons show ?case by simp
qed simp

text \<open>A process that runs: registered, its row there, no shutdown begun.\<close>

definition alive :: "ident \<Rightarrow> process \<times> world \<Rightarrow> bool" where
  "alive v s \<longleftrightarrow> wp_workerId (fst s) = Some v \<and> worker_find (snd s) v \<noteq> None \<and>
     \<not> wp_shuttingDown (fst s) \<and> wp_waiting (fst s) = None \<and> wp_exit (fst s) = None"

lemma alive_in_phase: "alive v s \<Longrightarrow> in_phase s"
  by (cases s) (auto simp: alive_def in_phase_def status_of_def)


text \<open>A worker with one job in flight when the signal arrives; a second signal comes while it waits.\<close>

definition busy_process :: process where
  "busy_process = initial_process\<lparr>wp_workerId := Some ''v'', wp_heartbeatInterval := True,
     wp_reaperInterval := True,
     wp_poller := \<lparr>po_running = True, po_stopping = False, po_inFlight = [''a''], po_active = 1\<rparr>\<rparr>"


section \<open>What a shutdown that times out leaves behind\<close>

text \<open>Job \<open>i\<close> has its row, its open executions are on \<open>v\<close>, and \<open>v\<close> is not \<open>active\<close>.\<close>

definition abandoned :: "ident \<Rightarrow> ident \<Rightarrow> Job option \<Rightarrow> world \<Rightarrow> bool" where
  "abandoned v i row w \<longleftrightarrow> job_find w i = row \<and> (\<forall>u. u \<noteq> v \<longrightarrow> i \<notin> open_jobs u w) \<and>
     list_all (\<lambda>r. wk_id r = v \<longrightarrow> wk_status r \<noteq> Active) (workers w)"

abbreviation abandoned_kept :: "ident \<Rightarrow> ident \<Rightarrow> Job option \<Rightarrow> world \<Rightarrow> world \<Rightarrow> bool" where
  "abandoned_kept v i row \<equiv> (\<lambda>s t. abandoned v i row s \<longrightarrow> abandoned v i row t)"

lemma workers_job_put [simp]: "workers (job_put i f w) = workers w"
  by (simp add: job_put_def)

lemma abandoned_requeue:
  assumes "jid \<noteq> i"
  shows "guar (abandoned_kept v i row) (requeue_orphan env u jid)"
proof -
  have upd: "guar (abandoned_kept v i row) (job_update jid f)" if "keeps_key j_id f" for f
    using that assms by (intro guarI)
      (auto simp: job_update_def abandoned_def open_jobs_exec job_store.get_put split: option.split)
  have fail: "guar (abandoned_kept v i row) (modifyA (fail_open_executions u jid now))" for now
    by (rule guarI) (auto simp: modifyA_def abandoned_def open_jobs_exec fail_open_executions_def
        update_where_def job_find_def)
  have pub: "guar (abandoned_kept v i row) (publish c m)" for c m
    by (rule guarI) (auto simp: publish_def modifyA_def abandoned_def open_jobs_exec job_find_def)
  show ?thesis unfolding requeue_orphan_def by (intro guar_rules upd fail pub) simp
qed

lemma abandoned_reap_worker:
  assumes "u \<noteq> v"
  shows "guar (abandoned_kept v i row) (reap_worker env u)"
proof (rule reap_worker_keeps)
  show "i \<notin> set (orphaned_executions u s) \<and> i \<notin> set (claimed_jobs u s)" if "abandoned v i row s" for s
    using that assms claimed_jobs_open [of u s] by (auto simp: abandoned_def orphaned_executions_open)
  show "guar (abandoned_kept v i row) (worker_update u (\<lambda>r. r\<lparr>wk_status := Dead\<rparr>))"
    by (rule guarI) (auto simp: worker_update_def abandoned_def open_jobs_exec worker_put_def update_by_def
        job_find_def list_all_iff split: option.split)
qed (rule abandoned_requeue)

lemma abandoned_reap: "guar (abandoned_kept v i row) (reap env ttl)"
proof -
  have "guar (abandoned_kept v i row) (if vs = [] then retA () else forA (reap_worker env) vs)"
    if "v \<notin> set vs" for vs
    using that by (intro keeps.if_guar keeps.ret_guar keeps.for_guar abandoned_reap_worker) auto
  then show ?thesis
    unfolding reap_def
    by (intro keeps.catch_guar keeps.ret_guar keeps_read [where Q = "\<lambda>vs. v \<notin> set vs"])
      (auto simp: abandoned_def stale_workers_def stale_worker_def list_all_iff)
qed

definition reaps :: "(reap_point env \<times> int) list \<Rightarrow> world \<Rightarrow> world" where
  "reaps rs w = fold (\<lambda>(env, ttl) w. snd (reap env ttl w)) rs w"

lemma abandoned_reaps: "abandoned v i row w \<Longrightarrow> abandoned v i row (reaps rs w)"
  unfolding reaps_def
proof (induction rs arbitrary: w)
  case (Cons r rs)
  then show ?case using guarD [OF abandoned_reap, of v i row w "fst r" "snd r"] by (cases r) simp
qed simp

text \<open>
  A shutdown gives up on the jobs that are still in flight after 30 s: the worker marks itself
  \<open>dead\<close>, and the reapers of the other workers look for \<open>active\<close> workers only. However many of them
  run, and whatever happens in them, the row of a job whose open executions are all on this worker
  stays as the shutdown left it (a \<open>running\<close> job stays \<open>running\<close>).
\<close>

lemma shutdown_abandons_jobs:
  assumes "alive v s" and "list_all works (Signal e # between @ [Waited e' True])"
    and "life (Signal e # between @ [Waited e' True]) s = (p, w)"
    and "distinct (map wk_id (workers w))" and "\<And>u. i \<in> open_jobs u w \<Longrightarrow> u = v"
  shows "wp_exit p = Some 0 \<and> job_find (reaps rs w) i = job_find w i"
proof -
  let ?s2 = "life (Signal e # between) s"
  have finish: "process_step (Waited e' True) ?s2 = (p, w)" using assms(3) by (simp del: process_step.simps)
  have phase: "in_phase (p, w)"
    using in_phase_life [OF alive_in_phase [OF assms(1)] assms(2)] unfolding assms(3) .
  have id: "wp_workerId p = Some v"
    using workerId_life [of "Signal e # between @ [Waited e' True]" s] assms(1) unfolding assms(3) alive_def by simp
  have shut: "wp_shuttingDown (fst ?s2)"
    using shutting_life [of "process_step (Signal e) s" between] assms(1)
    by (auto simp: alive_def shutdown_begin_def Let_def)
  have "in_phase ?s2"
    using in_phase_life [OF alive_in_phase [OF assms(1)], of "Signal e # between"] assms(2)
    by (simp del: process_step.simps)
  then have gone: "wp_exit p \<noteq> None"
    using finish shut by (cases ?s2) (auto simp: in_phase_def shutdown_end_def waitForInFlight_def split: if_splits)
  then obtain r where r: "worker_find w v = Some r" "wk_status r = Dead" "wp_exit p = Some 0"
    using phase id by (auto simp: in_phase_def status_of_def)
  have "wk_status r' \<noteq> Active" if "r' \<in> set (workers w)" "wk_id r' = v" for r'
    using that find_by_distinct [OF assms(4) that(1)] r(1,2) by (simp add: worker_find_def)
  then have "abandoned v i (job_find w i) w"
    using assms(5) by (auto simp: abandoned_def list_all_iff)
  from abandoned_reaps [OF this, of rs] show ?thesis using r(3) by (simp add: abandoned_def)
qed

lemma shutdown_abandons_jobs_witness:
  "\<exists>w. snd (life [Signal (calm_env 0), Waited (calm_env 0) True] (busy_process, crashed)) = w \<and>
    map_option j_status (job_find (reaps [(calm_env 90000, 30)] w) ''a'') = Some Running"
proof -
  let ?life = "life (Signal (calm_env 0) # [] @ [Waited (calm_env 0) True]) (busy_process, crashed)"
  have after: "snd ?life = crashed\<lparr>workers := [(sample_worker ''v'' 0)\<lparr>wk_status := Dead\<rparr>, sample_worker ''u'' 50000]\<rparr>"
    by (simp add: busy_process_def initial_process_def initial_poller_def shutdown_begin_def shutdown_end_def
        mark_self_def catchA_def worker_update_def worker_put_def update_by_def worker_find_def waitForInFlight_def
        crashed_defs)
  obtain p w where life: "?life = (p, w)" by (cases ?life)
  then have w: "w = crashed\<lparr>workers := [(sample_worker ''v'' 0)\<lparr>wk_status := Dead\<rparr>, sample_worker ''u'' 50000]\<rparr>"
    using after by (simp del: process_step.simps)
  have open_v: "u = ''v''" if "''a'' \<in> open_jobs u w" for u
    using that by (simp add: w open_jobs_exec crashed_defs)
  have "alive ''v'' (busy_process, crashed)"
    by (simp add: alive_def busy_process_def initial_process_def crashed_defs worker_find_def)
  from shutdown_abandons_jobs [where rs = "[(calm_env 90000, 30)]", OF this _ life _ open_v]
  have "job_find (reaps [(calm_env 90000, 30)] w) ''a'' = job_find w ''a''"
    by (simp add: w crashed_defs)
  moreover have "map_option j_status (job_find w ''a'') = Some Running" by (simp add: w job_find_def crashed_defs)
  ultimately show ?thesis using life by (simp del: process_step.simps)
qed

end
