(* ===== verification/SingleRun.thy ===== *)
theory SingleRun
  imports Fleet
begin

text \<open>
  A job has at most one holder: the invariant \<open>one_holder\<close> of the steps with accurate reaps, kept by
  each of them, and what goes wrong when a living worker is declared dead.
\<close>

section \<open>What a run changes\<close>

lemma begin_job_effect:
  assumes "begin_job env i v w = (r, w')"
  shows "(\<forall>k. k \<noteq> i \<longrightarrow> job_status w' k = job_status w k) \<and> map j_id (jobs w') = map j_id (jobs w) \<and>
    ((\<nexists>f. r = Inr (Some f)) \<and> job_executions w' = job_executions w \<or>
     (\<exists>f. r = Inr (Some f) \<and> fl_jobId f = i \<and> job_executions w' = job_executions w @ [fl_execution f] \<and>
        x_jobId (fl_execution f) = i \<and> x_workerId (fl_execution f) = v \<and>
        x_status (fl_execution f) = ''running'' \<and> job_status w' i = Some Running))"
proof (cases "\<exists>job policy. fails env E_find = None \<and> fetch_job i w = Some (job, policy)")
  case False
  then show ?thesis
    using assms by (auto simp: begin_job_def bindA_def readA_def throwA_def retA_def callA_def split: option.splits)
next
  case True
  then obtain job policy where found: "fails env E_find = None" "fetch_job i w = Some (job, policy)" by blast
  show ?thesis
  proof (cases "fails env E_running")
    case (Some e)
    then show ?thesis
      using assms found by (auto simp: begin_job_def mark_running_def bindA_def readA_def throwA_def callA_def)
  next
    case None
    define w1 where "w1 = started env job i w"
    have w1: "\<forall>k. k \<noteq> i \<longrightarrow> job_status w1 k = job_status w k" "map j_id (jobs w1) = map j_id (jobs w)"
      "job_status w1 i = Some Running" "job_executions w1 = job_executions w"
      using fetch_jobD [OF found(2)]
      by (simp_all add: w1_def job_status_def)
       (simp add: started_def emitted_def job_put_def map_key_update_by)
    have "begin_job env i v w = bindA (open_execution env job i v) (\<lambda>execution.
        retA (Some \<lparr>fl_jobId = i, fl_job = job, fl_policy = policy, fl_execution = execution\<rparr>)) w1"
      using found None fetch_jobD [OF found(2)] mark_running_run [of env w i]
      by (auto simp: begin_job_def bindA_def readA_def w1_def started_def)
    then show ?thesis
      using assms w1 by (auto simp: open_execution_def callA_def throwA_def bindA_def retA_def exec_create_def
          job_status_def job_find_def split: option.splits if_splits)
  qed
qed

text \<open>What a finishing run may do: one job changes, one execution is closed, or nothing happens.\<close>

definition closing :: "(JobExecution \<Rightarrow> JobExecution) \<Rightarrow> bool" where
  "closing g \<longleftrightarrow> (\<forall>e. x_id (g e) = x_id e \<and> x_jobId (g e) = x_jobId e \<and> x_workerId (g e) = x_workerId e \<and>
     x_status (g e) \<noteq> ''running'')"

definition finishes_run :: "ident \<Rightarrow> ident \<Rightarrow> world \<Rightarrow> world \<Rightarrow> bool" where
  "finishes_run i x s t \<longleftrightarrow> (\<forall>k. k \<noteq> i \<longrightarrow> job_status t k = job_status s k) \<and>
     map j_id (jobs t) = map j_id (jobs s) \<and>
     (job_status t i = job_status s i \<and> job_executions t = job_executions s \<or>
      (\<exists>g. closing g \<and> job_executions t = update_by x_id x g (job_executions s)))"

interpretation fin: two_state "finishes_run i x" for i x
proof
  have twice: "closing g \<Longrightarrow> closing h \<Longrightarrow> update_by x_id x h (update_by x_id x g es) = update_by x_id x (h \<circ> g) es"
    for g h es by (auto simp: update_by_def closing_def)
  show "finishes_run i x s s" for s by (simp add: finishes_run_def)
  show "finishes_run i x s u" if "finishes_run i x s t" "finishes_run i x t u" for s t u
  proof -
    have "closing g \<Longrightarrow> closing h \<Longrightarrow> closing (h \<circ> g)" for g h by (simp add: closing_def)
    with that twice show ?thesis unfolding finishes_run_def by metis
  qed
qed

abbreviation rows_kept :: "world \<Rightarrow> world \<Rightarrow> bool" where
  "rows_kept \<equiv> (\<lambda>s t. (jobs t, job_executions t) = (jobs s, job_executions s))"

lemma rows_frames: "guar rows_kept (log_create l)" "guar rows_kept (dlq_create d)" "guar rows_kept (publish c m)"
  by (rule guarI, simp add: log_create_def dlq_create_def publish_def modifyA_def split: option.split)+

lemma rows_kept_fin: "guar rows_kept m \<Longrightarrow> guar (finishes_run i x) m"
  by (rule guarI, drule guarD) (auto simp: finishes_run_def job_status_def job_find_def)

lemma closing_finish [simp]: "status \<noteq> ''running'' \<Longrightarrow> closing (finish_execution status now d err)"
  by (simp add: closing_def finish_execution_def)

lemma commit_fin:
  assumes "keeps_key j_id f" and "closing g" and "guar rows_kept rest"
  shows "guar (finishes_run i x)
    (atomicA (bindA (job_update i f) (\<lambda>_. bindA (exec_update x g) (\<lambda>_. rest))))"
proof (rule fin.atomic_commit_guar)
  fix s r t assume run: "bindA (job_update i f) (\<lambda>_. bindA (exec_update x g) (\<lambda>_. rest)) s = (Inr r, t)"
  define s1 where "s1 = exec_put x g (job_put i f s)"
  have "rest s1 = (Inr r, t)"
    using run by (auto simp: bindA_def job_update_def exec_update_def s1_def split: option.splits)
  then have t: "jobs t = jobs s1" "job_executions t = job_executions s1"
    using guarD' [OF assms(3)] by auto
  have "finishes_run i x s s1"
    using assms(1,2) by (auto simp: finishes_run_def s1_def exec_put_def job_put_def job_status_def job_find_def
        find_by_update_by map_key_update_by keeps_key_def)
  then show "finishes_run i x s t" using t by (simp add: finishes_run_def job_status_def job_find_def)
qed

lemma finish_job_effect: "finishes_run (fl_jobId f) (x_id (fl_execution f)) s (snd (finish_job env f s))"
proof -
  note call = call_guar [OF fin.two_state_axioms]
  have logs: "guar rows_kept (forA (\<lambda>e. log_create (h e)) ls)" for h ls
    by (intro guar_rules rows_frames)
  have pub: "guar (finishes_run i x) (publishTransition env j st q)" for i x j st q
    unfolding publishTransition_def by (intro rows_kept_fin guar_rules rows_frames)
  have complete: "guar (finishes_run i x) (complete_transaction env i x d ls)" for i x d ls
    unfolding complete_transaction_def flush_logs_def Let_def
    by (intro call commit_fin guar_rules logs rows_frames) simp_all
  have retry: "guar (finishes_run i x) (retry_transaction env i x n m dl d err ls)" for i x n m dl d err ls
    unfolding retry_transaction_def flush_logs_def Let_def
    by (intro call commit_fin guar_rules logs rows_frames) simp_all
  have dead: "guar (finishes_run i x) (dead_transaction env job i x n d err ls)" for job i x n d err ls
    unfolding dead_transaction_def flush_logs_def Let_def
    by (intro call commit_fin guar_rules logs rows_frames) simp_all
  have "guar (finishes_run (fl_jobId f) (x_id (fl_execution f))) (finish_job env f)"
    unfolding finish_job_def success_path_def failure_path_def Let_def case_prod_unfold
    by (intro fin.catch_guar fin.if_guar fin.bind_guar pub complete retry dead)
      (auto intro!: fin.throw_guar fin.bind_guar pub complete split: sum.split)
  then show ?thesis by (rule guarD)
qed

lemma claimJobs_effect:
  assumes "claimJobs env locked q limit w = (r, w')" and "distinct (map j_id (jobs w))"
  obtains ids where "(case r of Inl e \<Rightarrow> [] | Inr is \<Rightarrow> is) = ids" "distinct ids"
    "\<forall>i\<in>set ids. job_status w i = Some Queued"
    "\<forall>k. job_status w' k = (if k \<in> set ids then Some Claimed else job_status w k)"
    "map j_id (jobs w') = map j_id (jobs w)" "job_executions w' = job_executions w"
proof (cases "fails env C_count")
  case (Some e)
  then have "r = Inl e" "w' = w" using assms(1) by (simp_all add: claimJobs_def bindA_def throwA_def)
  then show ?thesis using that [of "[]"] by simp
next
  case None
  define ids where "ids = (if fails env C_transaction = None
     then select_for_update (clock env C_transaction) locked q (available_slots limit (in_flight q w)) w else [])"
  have run: "r = Inr ids" "w' = mark_claimed (clock env C_transaction) ids w"
    using assms(1) claimJobs_run [OF None, of locked q limit w] by (simp_all add: ids_def Let_def)
  have queued: "\<forall>i\<in>set ids. job_status w i = Some Queued"
    using select_selected find_by_distinct [OF assms(2)]
    by (fastforce simp: ids_def claimable_def job_status_def job_find_def split: if_splits)
  show ?thesis
  proof (rule that [of ids])
    show "distinct ids" using select_distinct [OF assms(2)] by (simp add: ids_def)
    show "\<forall>k. job_status w' k = (if k \<in> set ids then Some Claimed else job_status w k)"
      using queued by (auto simp: run(2) job_status_def job_find_mark_claimed map_option_case split: option.splits)
  qed (use queued in \<open>auto simp: run mark_claimed_def map_key_update_where\<close>)
qed

section \<open>One holder at a time\<close>

fun phase :: "holding \<Rightarrow> JobStatus" where
  "phase (Held v i) = Claimed"
| "phase (Flying v f) = Running"

definition holders :: "ident \<Rightarrow> fleet \<Rightarrow> holding multiset" where
  "holders i s = {#h \<in># ft_held s. job_held h = i#}"

text \<open>An open execution belongs to a job that runs, and if a worker runs it, it is that worker's.\<close>

definition open_row :: "world \<Rightarrow> JobExecution \<Rightarrow> bool" where
  "open_row w e \<longleftrightarrow> e \<in> set (job_executions w) \<and> x_status e = ''running''"

definition owns_rows :: "fleet \<Rightarrow> bool" where
  "owns_rows s \<longleftrightarrow> (\<forall>e. open_row (ft_world s) e \<longrightarrow> job_status (ft_world s) (x_jobId e) = Some Running \<and>
     (\<forall>v f. Flying v f \<in># holders (x_jobId e) s \<longrightarrow> v = x_workerId e \<and> x_id (fl_execution f) = x_id e))"

definition rows_named :: "world \<Rightarrow> bool" where
  "rows_named w \<longleftrightarrow> x_jobId ` set (job_executions w) \<subseteq> j_id ` set (jobs w)"

definition one_holder :: "fleet \<Rightarrow> bool" where
  "one_holder s \<longleftrightarrow> distinct (map j_id (jobs (ft_world s))) \<and> rows_named (ft_world s) \<and>
     (\<forall>h. h \<in># ft_held s \<longrightarrow> job_status (ft_world s) (job_held h) = Some (phase h) \<and>
        holder h \<notin> ft_crashed s) \<and>
     (\<forall>i. size (holders i s) \<le> 1) \<and> owns_rows s"

lemma one_holderI:
  assumes "distinct (map j_id (jobs (ft_world s)))" and "rows_named (ft_world s)"
    and "\<And>h. h \<in># ft_held s \<Longrightarrow> job_status (ft_world s) (job_held h) = Some (phase h)"
    and "\<And>h. h \<in># ft_held s \<Longrightarrow> holder h \<notin> ft_crashed s"
    and "\<And>i. size (holders i s) \<le> 1" and "owns_rows s"
  shows "one_holder s"
  using assms unfolding one_holder_def by blast

lemma one_holderD:
  assumes "one_holder s"
  shows "distinct (map j_id (jobs (ft_world s)))" and "rows_named (ft_world s)"
    and "h \<in># ft_held s \<Longrightarrow> job_status (ft_world s) (job_held h) = Some (phase h)"
    and "h \<in># ft_held s \<Longrightarrow> holder h \<notin> ft_crashed s"
    and "size (holders i s) \<le> 1" and "owns_rows s"
  using assms unfolding one_holder_def by blast+

lemma owns_rowsI:
  assumes "\<And>e. open_row (ft_world s) e \<Longrightarrow> job_status (ft_world s) (x_jobId e) = Some Running"
    and "\<And>e v f. open_row (ft_world s) e \<Longrightarrow> Flying v f \<in># holders (x_jobId e) s \<Longrightarrow>
      v = x_workerId e \<and> x_id (fl_execution f) = x_id e"
  shows "owns_rows s"
  using assms unfolding owns_rows_def by blast

lemma owns_rowsD:
  assumes "owns_rows s" and "open_row (ft_world s) e"
  shows "job_status (ft_world s) (x_jobId e) = Some Running"
    and "Flying v f \<in># ft_held s \<Longrightarrow> fl_jobId f = x_jobId e \<Longrightarrow> v = x_workerId e \<and> x_id (fl_execution f) = x_id e"
  using assms unfolding owns_rows_def holders_def by auto

lemma holders_simps [simp]: "h \<in># holders i s \<longleftrightarrow> h \<in># ft_held s \<and> job_held h = i"
  by (simp add: holders_def)

lemma free_job: "one_holder s \<Longrightarrow> job_status (ft_world s) i \<notin> {Some Claimed, Some Running} \<Longrightarrow> holders i s = {#}"
proof (rule ccontr)
  assume a: "one_holder s" "job_status (ft_world s) i \<notin> {Some Claimed, Some Running}" "holders i s \<noteq> {#}"
  then obtain h where "h \<in># ft_held s" "job_held h = i" by (metis holders_simps multiset_nonemptyE)
  with a show False by (cases h) (auto simp: one_holder_def)
qed

lemma only_holder:
  assumes "one_holder s" and "h \<in># ft_held s"
  shows "holders (job_held h) s = {#h#}"
proof -
  have "h \<in># holders (job_held h) s" "size (holders (job_held h) s) \<le> 1" using assms by (simp_all add: one_holder_def)
  then show ?thesis by (metis One_nat_def Suc_le_mono add_mset_remove_trivial_If bot_nat_0.extremum_uniqueI insert_DiffM size_add_mset size_eq_0_iff_empty)
qed

lemma holders_crash: "size (holders i s) \<le> 1 \<Longrightarrow> size {#h \<in># {#h \<in># ft_held s. P h#}. job_held h = i#} \<le> 1"
proof -
  have "{#h \<in># {#h \<in># ft_held s. P h#}. job_held h = i#} \<subseteq># holders i s"
    by (simp add: holders_def multiset_filter_mono)
  then show "size (holders i s) \<le> 1 \<Longrightarrow> size {#h \<in># {#h \<in># ft_held s. P h#}. job_held h = i#} \<le> 1"
    using size_mset_mono by fastforce
qed

section \<open>Every step keeps it\<close>

lemma named_kept:
  "rows_named w \<Longrightarrow> \<exists>new. map j_id (jobs w') = map j_id (jobs w) @ new \<Longrightarrow>
    x_jobId ` set (job_executions w') \<subseteq> x_jobId ` set (job_executions w) \<Longrightarrow> rows_named w'"
proof -
  assume a: "rows_named w" "\<exists>new. map j_id (jobs w') = map j_id (jobs w) @ new"
    "x_jobId ` set (job_executions w') \<subseteq> x_jobId ` set (job_executions w)"
  then have "j_id ` set (jobs w) \<subseteq> j_id ` set (jobs w')" by (metis Un_upper1 list.set_map set_append)
  with a show ?thesis by (auto simp: rows_named_def)
qed

lemma one_holder_claims:
  assumes "one_holder s" and "v \<notin> ft_crashed s" and "claimJobs env locked q limit (ft_world s) = (r, w)"
  shows "one_holder (s\<lparr>ft_world := w,
    ft_held := ft_held s + (case r of Inl e \<Rightarrow> {#} | Inr ids \<Rightarrow> mset (map (Held v) ids))\<rparr>)"
proof -
  have "distinct (map j_id (jobs (ft_world s)))" using assms(1) by (simp add: one_holder_def)
  with assms(3) obtain ids where ids: "(case r of Inl e \<Rightarrow> [] | Inr is \<Rightarrow> is) = ids" "distinct ids"
    "\<forall>i\<in>set ids. job_status (ft_world s) i = Some Queued"
    "\<forall>k. job_status w k = (if k \<in> set ids then Some Claimed else job_status (ft_world s) k)"
    "map j_id (jobs w) = map j_id (jobs (ft_world s))" "job_executions w = job_executions (ft_world s)"
    by (rule claimJobs_effect)
  have new: "(case r of Inl e \<Rightarrow> {#} | Inr ids \<Rightarrow> mset (map (Held v) ids)) = mset (map (Held v) ids)"
    using ids(1) by (cases r) auto
  define s' where "s' = s\<lparr>ft_world := w, ft_held := ft_held s + mset (map (Held v) ids)\<rparr>"
  have free: "holders i s = {#}" if "i \<in> set ids" for i
    using free_job [OF assms(1)] ids(3) that by auto
  have split: "holders i s' = holders i s + (if i \<in> set ids then {#Held v i#} else {#})" for i
  proof -
    have "filter_mset (\<lambda>h. job_held h = i) (mset (map (Held v) is)) = (if i \<in> set is then {#Held v i#} else {#})"
      if "distinct is" for "is" using that by (induction "is") auto
    then show ?thesis using ids(2) by (simp add: holders_def s'_def)
  qed
  have "size (holders i s') \<le> 1" for i
    using split [of i] free [of i] assms(1) by (auto simp: one_holder_def)
  moreover have "job_status w (job_held h) = Some (phase h) \<and> holder h \<notin> ft_crashed s"
    if "h \<in># ft_held s'" for h
  proof (cases "h \<in># ft_held s")
    case True
    then have "job_status (ft_world s) (job_held h) = Some (phase h)" "holder h \<notin> ft_crashed s"
      using assms(1) by (simp_all add: one_holder_def)
    then show ?thesis using ids(3,4) by (cases h) auto
  next
    case False
    with that have "\<exists>i\<in>set ids. h = Held v i" by (auto simp: s'_def)
    then show ?thesis using ids(4) assms(2) by auto
  qed
  moreover have "owns_rows s'"
    using assms(1) ids(3,4,6) split
    by (auto simp: one_holder_def owns_rows_def open_row_def s'_def split: if_splits)
  moreover have "rows_named w" using assms(1) ids(5,6) by (auto simp: one_holder_def intro: named_kept)
  ultimately have "one_holder s'" using assms(1) ids(5) by (simp add: one_holder_def s'_def)
  then show ?thesis by (simp add: s'_def new)
qed

lemma one_holder_begins:
  assumes "one_holder s" and "Held v i \<in># ft_held s" and "begin_job env i v (ft_world s) = (r, w)"
  shows "one_holder (s\<lparr>ft_world := w, ft_held := ft_held s - {#Held v i#} +
      (case r of Inr (Some f) \<Rightarrow> {#Flying v f#} | _ \<Rightarrow> {#})\<rparr>)"
proof -
  note eff = begin_job_effect [OF assms(3)]
  define new where "new = (case r of Inr (Some f) \<Rightarrow> {#Flying v f#} | _ \<Rightarrow> {#})"
  define s' where "s' = s\<lparr>ft_world := w, ft_held := ft_held s - {#Held v i#} + new\<rparr>"
  have mine: "holders i s = {#Held v i#}" using only_holder [OF assms(1,2)] by simp
  have new_job: "h \<in># new \<Longrightarrow> job_held h = i" for h
    using eff by (auto simp: new_def split: sum.splits option.splits)
  have new_size: "size new \<le> 1" by (auto simp: new_def split: sum.split option.split)
  have other: "holders k s' = holders k s" if "k \<noteq> i" for k
    using that new_job by (auto simp: holders_def s'_def filter_mset_eq_conv intro!: multiset_eqI)
  have at_i: "holders i s' = new"
  proof -
    have "filter_mset (\<lambda>h. job_held h = i) new = new" using new_job by (auto simp: filter_mset_eq_conv)
    then show ?thesis using mine by (simp add: holders_def s'_def filter_diff_mset)
  qed
  have others: "h \<in># ft_held s' \<Longrightarrow> job_held h \<noteq> i \<Longrightarrow> h \<in># ft_held s" for h
    using new_job by (auto simp: s'_def dest: in_diffD)
  have held: "job_status w (job_held h) = Some (phase h) \<and> holder h \<notin> ft_crashed s" if "h \<in># ft_held s'" for h
  proof (cases "job_held h = i")
    case True
    then have "h \<in># new" using that at_i by (metis holders_simps)
    moreover have "v \<notin> ft_crashed s" using assms(1,2) by (force simp: one_holder_def)
    ultimately show ?thesis using eff True by (auto simp: new_def split: sum.splits option.splits)
  next
    case False
    then show ?thesis using eff others [OF that] assms(1) by (auto simp: one_holder_def)
  qed
  have no_row: "\<not> open_row (ft_world s) e" if "x_jobId e = i" for e
    using assms(1,2) that by (force simp: one_holder_def owns_rows_def)
  have "owns_rows s'"
    unfolding owns_rows_def
  proof (intro allI impI)
    fix e assume row: "open_row (ft_world s') e"
    show "job_status (ft_world s') (x_jobId e) = Some Running \<and>
     (\<forall>u f. Flying u f \<in># holders (x_jobId e) s' \<longrightarrow> u = x_workerId e \<and> x_id (fl_execution f) = x_id e)"
    proof (cases "open_row (ft_world s) e")
      case True
      then have "x_jobId e \<noteq> i" using no_row by blast
      then show ?thesis using True assms(1) eff other [of "x_jobId e"] by (auto simp: one_holder_def owns_rows_def s'_def)
    next
      case False
      with row eff obtain f where f: "r = Inr (Some f)" "e = fl_execution f" "x_jobId e = i" "x_workerId e = v"
          "job_status w i = Some Running"
        by (auto simp: open_row_def s'_def)
      then show ?thesis using at_i by (auto simp: new_def s'_def)
    qed
  qed
  moreover have "rows_named w"
  proof -
    have here: "i \<in> j_id ` set (jobs (ft_world s))"
      using one_holderD(3) [OF assms(1,2)] by (auto simp: job_status_def job_find_def dest: find_by_SomeD)
    have "job_executions w = job_executions (ft_world s) \<or>
        (\<exists>e. x_jobId e = i \<and> job_executions w = job_executions (ft_world s) @ [e])" using eff by blast
    then have rows: "x_jobId ` set (job_executions w) \<subseteq> insert i (x_jobId ` set (job_executions (ft_world s)))"
      by auto
    have "j_id ` set (jobs w) = j_id ` set (jobs (ft_world s))" using eff by (metis list.set_map)
    then show ?thesis
      using subset_trans [OF rows] here one_holderD(2) [OF assms(1)] by (simp add: rows_named_def)
  qed
  moreover have "size (holders k s') \<le> 1" for k
    using other [of k] at_i new_size one_holderD(5) [OF assms(1), of k] by (cases "k = i") simp_all
  ultimately have "one_holder s'"
    using held eff one_holderD(1) [OF assms(1)] by (intro one_holderI) (simp_all add: s'_def)
  then show ?thesis by (simp add: s'_def new_def)
qed

lemma one_holder_finishes:
  assumes "one_holder s" and "Flying v f \<in># ft_held s"
  shows "one_holder (s\<lparr>ft_world := snd (finish_job env f (ft_world s)), ft_held := ft_held s - {#Flying v f#}\<rparr>)"
proof -
  define i where "i = fl_jobId f"
  define x where "x = x_id (fl_execution f)"
  define w where "w = snd (finish_job env f (ft_world s))"
  define s' where "s' = s\<lparr>ft_world := w, ft_held := ft_held s - {#Flying v f#}\<rparr>"
  have eff: "finishes_run i x (ft_world s) w" using finish_job_effect by (simp add: i_def x_def w_def)
  have mine: "holders i s = {#Flying v f#}" using only_holder [OF assms] by (simp add: i_def)
  have other: "holders k s' = (if k = i then {#} else holders k s)" for k
    using mine by (auto simp: holders_def s'_def i_def filter_diff_mset)
  have held: "h \<in># ft_held s \<and> job_held h \<noteq> i" if "h \<in># ft_held s'" for h
    using that other [of "job_held h"] by (metis empty_iff holders_simps set_mset_empty)
  have old: "open_row (ft_world s) e \<and> (x_jobId e = i \<longrightarrow> job_status w i = job_status (ft_world s) i)"
    if row: "open_row w e" for e
  proof (cases "job_status w i = job_status (ft_world s) i \<and> job_executions w = job_executions (ft_world s)")
    case True
    then show ?thesis using row by (simp add: open_row_def)
  next
    case False
    then obtain g where g: "closing g" "job_executions w = update_by x_id x g (job_executions (ft_world s))"
      using eff by (auto simp: finishes_run_def)
    then have e: "e \<in> set (job_executions (ft_world s))" "x_id e \<noteq> x"
      using row by (auto simp: open_row_def update_by_def closing_def split: if_splits)
    then have "open_row (ft_world s) e" using row by (simp add: open_row_def)
    moreover have "x_jobId e \<noteq> i"
      using calculation assms mine e(2) by (force simp: one_holder_def owns_rows_def x_def i_def)
    ultimately show ?thesis by blast
  qed
  have "owns_rows s'"
  proof (rule owns_rowsI)
    fix e assume "open_row (ft_world s') e"
    then have row: "open_row w e" by (simp add: s'_def)
    note before = owns_rowsD [OF one_holderD(6) [OF assms(1)], of e]
    show "job_status (ft_world s') (x_jobId e) = Some Running"
      using old [OF row] before(1) eff by (cases "x_jobId e = i") (auto simp: s'_def finishes_run_def)
    show "u = x_workerId e \<and> x_id (fl_execution k) = x_id e" if "Flying u k \<in># holders (x_jobId e) s'" for u k
      using that old [OF row] before(2) [of u k] other [of "x_jobId e"] by (auto split: if_splits)
  qed
  moreover have "rows_named w"
    using eff by (intro named_kept [OF one_holderD(2) [OF assms(1)]]) (auto simp: finishes_run_def update_by_def closing_def)
  moreover have "job_status w (job_held h) = Some (phase h) \<and> holder h \<notin> ft_crashed s" if "h \<in># ft_held s'" for h
    using held [OF that] one_holderD(3,4) [OF assms(1), of h] eff by (simp add: finishes_run_def)
  moreover have "size (holders k s') \<le> 1" for k
    using other [of k] one_holderD(5) [OF assms(1), of k] by simp
  moreover have "distinct (map j_id (jobs w))"
    using eff one_holderD(1) [OF assms(1)] by (simp add: finishes_run_def)
  ultimately have "one_holder s'" by (intro one_holderI) (simp_all add: s'_def)
  then show ?thesis by (simp add: s'_def w_def)
qed

lemma one_holder_crashes:
  assumes "one_holder s"
  shows "one_holder (s\<lparr>ft_held := {#h \<in># ft_held s. holder h \<noteq> v#}, ft_crashed := insert v (ft_crashed s)\<rparr>)"
proof (rule one_holderI)
  show "size (holders i (s\<lparr>ft_held := {#h \<in># ft_held s. holder h \<noteq> v#}, ft_crashed := insert v (ft_crashed s)\<rparr>)) \<le> 1" for i
    using holders_crash [OF one_holderD(5) [OF assms], of i "\<lambda>h. holder h \<noteq> v"] by (simp add: holders_def)
  show "owns_rows (s\<lparr>ft_held := {#h \<in># ft_held s. holder h \<noteq> v#}, ft_crashed := insert v (ft_crashed s)\<rparr>)"
    using owns_rowsD [OF one_holderD(6) [OF assms]] by (intro owns_rowsI) auto
qed (use one_holderD [OF assms] in auto)

lemma one_holder_reaps:
  assumes "one_holder s" and "accurate env ttl s"
  shows "one_holder (s\<lparr>ft_world := snd (reap env ttl (ft_world s))\<rparr>)"
proof -
  define w where "w = ft_world s"
  define S where "S = stale_jobs ttl (clock env R_find) w"
  define D where "D = set (stale_workers ttl (clock env R_find) w)"
  have "\<forall>x\<in>set (job_executions w). job_find w (x_jobId x) \<noteq> None"
    using one_holderD(2) [OF assms(1)] by (auto simp: rows_named_def w_def job_find_def find_by_None_iff)
  then obtain w' where w': "reap env ttl w = (Inr (), w')" "reaped S D w w'"
    using reap_run [of env w ttl] assms(2) by (auto simp: accurate_def S_def D_def)
  have status: "job_status w' k = (if k \<in> S then map_option (\<lambda>_. Queued) (job_status w k) else job_status w k)" for k
  proof -
    have "map_option fst (job_progress v k) = job_status v k" for v
      by (cases "job_find v k") (simp_all add: job_progress_def job_status_def progress_def)
    moreover have "map_option fst (job_progress w' k) =
        (if k \<in> S then map_option (\<lambda>_. Queued) (map_option fst (job_progress w k)) else map_option fst (job_progress w k))"
      using w'(2) by (cases "job_progress w k") (auto simp: reaped_def)
    ultimately show ?thesis by simp
  qed
  have open_back: "\<exists>e0. open_row w e0 \<and> x_id e0 = x_id e \<and> x_jobId e0 = x_jobId e \<and> x_workerId e0 = x_workerId e \<and> x_jobId e \<notin> S"
    if "open_row w' e" for e
  proof -
    have "(x_id e, x_jobId e, x_workerId e, ''running'') \<in> set (exec_states w')"
      using that by (force simp: open_row_def exec_states_def)
    then obtain st where "(x_id e, x_jobId e, x_workerId e, st) \<in> set (exec_states w)"
        "''running'' = (if st = ''running'' \<and> x_jobId e \<in> S then ''failed'' else st)"
      using w'(2) by (fastforce simp: reaped_def)
    then have "(x_id e, x_jobId e, x_workerId e, ''running'') \<in> set (exec_states w)" "x_jobId e \<notin> S"
      by (auto split: if_splits)
    then show ?thesis by (auto simp: exec_states_def open_row_def)
  qed
  have safe: "job_held h \<notin> S" if "h \<in># ft_held s" for h
  proof
    assume "job_held h \<in> S"
    then obtain u x where u: "u \<in> D" "(x, job_held h, u, ''running'') \<in> set (exec_states w)"
      by (auto simp: S_def D_def stale_jobs_def open_jobs_def)
    then obtain e where e: "open_row w e" "x_jobId e = job_held h" "x_workerId e = u"
      by (auto simp: exec_states_def open_row_def)
    have running: "phase h = Running"
      using owns_rowsD(1) [OF one_holderD(6) [OF assms(1)], of e] e one_holderD(3) [OF assms(1) that] by (simp add: w_def)
    then have "holder h = u"
      using owns_rowsD(2) [OF one_holderD(6) [OF assms(1)], of e] e that by (cases h) (auto simp: w_def)
    then show False
      using u(1) one_holderD(4) [OF assms(1) that] assms(2) by (auto simp: accurate_def D_def w_def)
  qed
  have "owns_rows (s\<lparr>ft_world := w'\<rparr>)"
  proof (rule owns_rowsI)
    fix e assume "open_row (ft_world (s\<lparr>ft_world := w'\<rparr>)) e"
    then have "open_row w' e" by simp
    from open_back [OF this] obtain e0 where e0: "open_row (ft_world s) e0" "x_id e0 = x_id e" "x_jobId e0 = x_jobId e"
        "x_workerId e0 = x_workerId e" "x_jobId e \<notin> S" by (auto simp: w_def)
    note before = owns_rowsD [OF one_holderD(6) [OF assms(1)] e0(1)]
    show "job_status (ft_world (s\<lparr>ft_world := w'\<rparr>)) (x_jobId e) = Some Running"
      using before(1) e0 status by (simp add: w_def)
    show "v = x_workerId e \<and> x_id (fl_execution f) = x_id e" if "Flying v f \<in># holders (x_jobId e) (s\<lparr>ft_world := w'\<rparr>)" for v f
      using that before(2) [of v f] e0 by simp
  qed
  moreover have ids: "\<exists>new. map j_id (jobs w') = map j_id (jobs w) @ new"
    and dist: "distinct (map j_id (jobs w'))"
    using guarD' [OF ids_grow.reap_R w'(1)] one_holderD(1) [OF assms(1)] by (auto simp: ids_grow_def w_def)
  moreover have "rows_named w'"
  proof (rule named_kept [OF _ ids])
    have "x_jobId ` set (job_executions v) = (\<lambda>(x, j, u, st). j) ` set (exec_states v)" for v
      by (force simp: exec_states_def)
    moreover have "(\<lambda>(x, j, u, st). j) ` set (exec_states w') = (\<lambda>(x, j, u, st). j) ` set (exec_states w)"
      using w'(2) by (force simp: reaped_def image_iff)
    ultimately show "x_jobId ` set (job_executions w') \<subseteq> x_jobId ` set (job_executions w)" by simp
  qed (use one_holderD(2) [OF assms(1)] in \<open>simp add: w_def\<close>)
  moreover have "job_status w' (job_held h) = Some (phase h)" if "h \<in># ft_held s" for h
    using safe [OF that] one_holderD(3) [OF assms(1) that] status by (simp add: w_def)
  moreover have "size (holders k (s\<lparr>ft_world := w'\<rparr>)) \<le> 1" for k
    using one_holderD(5) [OF assms(1), of k] by (simp add: holders_def)
  ultimately have "one_holder (s\<lparr>ft_world := w'\<rparr>)"
    using one_holderD(4) [OF assms(1)] by (intro one_holderI) simp_all
  then show ?thesis using w'(1) by (simp add: w_def)
qed

lemma one_holder_serves:
  assumes "one_holder s" and "plain x"
  shows "one_holder (s\<lparr>ft_world := fst (serve x (ft_world s, {#}))\<rparr>)"
proof -
  define w where "w = fst (serve x (ft_world s, {#}))"
  have stays: "job_status (ft_world s) i = Some st \<Longrightarrow> st = Claimed \<or> st = Running \<Longrightarrow> job_status w i = Some st" for i st
    using serves_stays [OF assms(2), of st "ft_world s" i]
    by (auto simp: retryable_def cancellable_def w_def)
  have execs: "job_executions w = job_executions (ft_world s)" using serves_execs [OF assms(2)] by (simp add: w_def)
  have grow: "ids_grow (ft_world s) w" using ids_grow.serve_R [of "(ft_world s, {#})" x] by (simp add: w_def)
  have phases: "phase h = Claimed \<or> phase h = Running" for h by (cases h) simp_all
  have "rows_named w"
    using grow execs by (intro named_kept [OF one_holderD(2) [OF assms(1)]]) (auto simp: ids_grow_def)
  moreover have "owns_rows (s\<lparr>ft_world := w\<rparr>)"
    using execs stays owns_rowsD [OF one_holderD(6) [OF assms(1)]] by (intro owns_rowsI) (auto simp: open_row_def)
  moreover have "job_status w (job_held h) = Some (phase h)" if "h \<in># ft_held s" for h
    using one_holderD(3) [OF assms(1) that] stays phases by blast
  moreover have "size (holders k (s\<lparr>ft_world := w\<rparr>)) \<le> 1" for k
    using one_holderD(5) [OF assms(1), of k] by (simp add: holders_def)
  ultimately have "one_holder (s\<lparr>ft_world := w\<rparr>)"
    using one_holderD(1,4) [OF assms(1)] grow by (intro one_holderI) (simp_all add: ids_grow_def)
  then show ?thesis by (simp add: w_def)
qed

text \<open>Steps that write to rows of workers only.\<close>

lemma one_holder_workers:
  assumes "one_holder s" and "jobs w = jobs (ft_world s)" and "job_executions w = job_executions (ft_world s)"
  shows "one_holder (s\<lparr>ft_world := w\<rparr>)"
proof -
  have "job_status w = job_status (ft_world s)" by (simp add: assms(2) job_status_def job_find_def fun_eq_iff)
  with assms show ?thesis
    by (auto simp: one_holder_def rows_named_def owns_rows_def open_row_def holders_def)
qed

lemma one_holder_registers: "one_holder s \<Longrightarrow> one_holder (s\<lparr>ft_world := snd (worker_create v (ft_world s))\<rparr>)"
  by (rule one_holder_workers) (simp_all add: worker_create_def)

lemma one_holder_marks: "one_holder s \<Longrightarrow> one_holder (s\<lparr>ft_world := snd (worker_update v h (ft_world s))\<rparr>)"
  by (rule one_holder_workers) (simp_all add: worker_update_def worker_put_def split: option.split)

lemma one_holder_step: "fleet_step True s t \<Longrightarrow> one_holder s \<Longrightarrow> one_holder t"
proof (induction rule: fleet_step.induct)
  case (begins v i s env r w)
  then show ?case by (intro one_holder_begins)
qed (simp_all add: one_holder_claims one_holder_finishes one_holder_crashes one_holder_reaps one_holder_registers
    one_holder_marks one_holder_serves)

section \<open>Nobody runs a job twice at once\<close>

text \<open>No worker holds anything and no execution is open.\<close>

definition fresh_fleet :: "fleet \<Rightarrow> bool" where
  "fresh_fleet s \<longleftrightarrow> ft_held s = {#} \<and> distinct (map j_id (jobs (ft_world s))) \<and> rows_named (ft_world s) \<and>
     list_all (\<lambda>e. x_status e \<noteq> ''running'') (job_executions (ft_world s))"

lemma fresh_one_holder: "fresh_fleet s \<Longrightarrow> one_holder s"
  by (intro one_holderI owns_rowsI) (auto simp: fresh_fleet_def holders_def open_row_def list_all_iff)

lemma exact_run_one_holder: "(fleet_step True)\<^sup>*\<^sup>* s t \<Longrightarrow> fresh_fleet s \<Longrightarrow> one_holder t"
  by (induction rule: rtranclp_induct) (auto intro: one_holder_step fresh_one_holder)


definition claimed_fleet :: fleet where
  "claimed_fleet = quiet_fleet\<lparr>ft_world := demo_world ''echo'' 0\<lparr>jobs := [(sample_job ''a'' 0)\<lparr>j_status := Claimed, j_updatedAt := 5\<rparr>]\<rparr>,
     ft_held := {#Held ''v'' ''a''#}\<rparr>"

lemma claimed_fleet: "fleet_step exact quiet_fleet claimed_fleet"
proof -
  have "claimJobs (calm_env 5) {} ''q'' 2 (ft_world quiet_fleet) =
      (Inr [''a''], demo_world ''echo'' 0\<lparr>jobs := [(sample_job ''a'' 0)\<lparr>j_status := Claimed, j_updatedAt := 5\<rparr>]\<rparr>)"
    by (simp add: claimJobs_run quiet_fleet_def in_flight_def count_where_def available_slots_def select_for_update_def
       claimable_def mark_claimed_def update_where_def demo_world_def sample_defs Let_def)
  then show ?thesis
    using fleet_step.claims [of "''v''" quiet_fleet "calm_env 5" "{}" "''q''" 2 _ _ exact]
    by (simp add: claimed_fleet_def quiet_fleet_def)
qed


section \<open>A wrong verdict\<close>

lemma finish_job_completes:
  assumes "run_handler (ex_handlers env) (j_type (fl_job f)) (j_payload (fl_job f)) = (logs, Inr ())"
    and "fails env E_completed = None" and "job_find w (fl_jobId f) \<noteq> None"
    and "exec_find w (x_id (fl_execution f)) \<noteq> None"
  shows "job_status (snd (finish_job env f w)) (fl_jobId f) = Some Completed"
  using assms
  by (auto simp: finish_job_def catchA_def success_path_def bindA_def complete_transaction_run job_status_def)

text \<open>A run in progress, as \<open>begin_job\<close> leaves it.\<close>

definition airborne :: "fleet \<Rightarrow> ident \<Rightarrow> flight \<Rightarrow> bool" where
  "airborne s v f \<longleftrightarrow> Flying v f \<in># ft_held s \<and> fl_execution f \<in> set (job_executions (ft_world s)) \<and>
     x_status (fl_execution f) = ''running'' \<and> x_jobId (fl_execution f) = fl_jobId f \<and>
     x_workerId (fl_execution f) = v"

text \<open>
  The accuracy matters. A worker that misses its heartbeats but lives (a blocked event loop, a
  partition) goes on with its handler: after a reaper has declared it dead and another worker
  has claimed the job again, the first one completes it, and the second one holds a job that is
  \<open>completed\<close> and will run it again. \<open>executeJob\<close> writes by id and never looks at the status.
\<close>

lemma wrong_verdict_doubles:
  fixes env :: exec_env
  assumes "airborne s v f" and "rows_named (ft_world s)" and "distinct (map j_id (jobs (ft_world s)))"
    and "\<And>p. fails renv p = None" and "v \<in> set (stale_workers ttl (clock renv R_find) (ft_world s))"
    and "claimJobs cenv locked q limit (snd (reap renv ttl (ft_world s))) = (Inr ids, w2)"
    and "fl_jobId f \<in> set ids" and "u \<notin> ft_crashed s"
    and "run_handler (ex_handlers env) (j_type (fl_job f)) (j_payload (fl_job f)) = (logs, Inr ())"
    and "fails env E_completed = None"
  shows "\<exists>t. (fleet_step False)\<^sup>*\<^sup>* s t \<and> job_status (ft_world t) (fl_jobId f) = Some Completed \<and>
    Held u (fl_jobId f) \<in># ft_held t"
proof -
  define w where "w = ft_world s"
  have named: "\<forall>x\<in>set (job_executions w). job_find w (x_jobId x) \<noteq> None"
    using assms(2) by (auto simp: rows_named_def w_def job_find_def find_by_None_iff)
  with assms(4) obtain w1 where w1: "reap renv ttl w = (Inr (), w1)"
      "reaped (stale_jobs ttl (clock renv R_find) w) (set (stale_workers ttl (clock renv R_find) w)) w w1"
    using reap_run [of renv w ttl] by blast
  define s1 where "s1 = s\<lparr>ft_world := w1\<rparr>"
  define s2 where "s2 = s1\<lparr>ft_world := w2, ft_held := ft_held s + mset (map (Held u) ids)\<rparr>"
  define t where "t = s2\<lparr>ft_world := snd (finish_job env f w2), ft_held := ft_held s2 - {#Flying v f#}\<rparr>"
  have "fleet_step False s s1" using fleet_step.reaps [of False renv ttl s] w1(1) by (simp add: s1_def w_def)
  moreover have "fleet_step False s1 s2"
    using fleet_step.claims [of u s1 cenv locked q limit "Inr ids" w2 False] assms(6,8) w1(1)
    by (simp add: s1_def s2_def w_def)
  moreover have "fleet_step False s2 t"
    using fleet_step.finishes [of v f s2 False env] assms(1) by (simp add: s2_def t_def airborne_def)
  ultimately have "(fleet_step False)\<^sup>*\<^sup>* s t" by (meson converse_rtranclp_into_rtranclp rtranclp.rtrancl_refl)
  moreover have "Held u (fl_jobId f) \<in># ft_held t" using assms(7) by (auto simp: t_def s2_def in_diff_count)
  moreover have "job_status w2 (fl_jobId f) \<noteq> None"
  proof -
    have "distinct (map j_id (jobs w1))"
      using guarD' [OF ids_grow.reap_R w1(1)] assms(3) by (simp add: ids_grow_def w_def)
    with assms(6) w1(1) obtain "is" where "is = ids" "\<forall>k. job_status w2 k = (if k \<in> set is then Some Claimed else job_status w1 k)"
      by (auto simp: w_def elim: claimJobs_effect)
    then show ?thesis using assms(7) by auto
  qed
  moreover have "exec_find w2 (x_id (fl_execution f)) \<noteq> None"
  proof -
    have "distinct (map j_id (jobs w1))"
      using guarD' [OF ids_grow.reap_R w1(1)] assms(3) by (simp add: ids_grow_def w_def)
    then have "job_executions w2 = job_executions w1"
      using assms(6) w1(1) by (auto simp: w_def elim: claimJobs_effect)
    moreover have "map x_id (job_executions v) = map (\<lambda>(x, j, u, st). x) (exec_states v)" for v
      by (simp add: exec_states_def)
    then have "map x_id (job_executions w1) = map x_id (job_executions w)"
      using w1(2) by (simp add: reaped_def comp_def case_prod_beta)
    ultimately show ?thesis
      using assms(1) by (metis airborne_def exec_find_def find_by_None_iff imageI list.set_map w_def)
  qed
  ultimately show ?thesis
    using finish_job_completes [OF assms(9,10), of w2] by (auto simp: t_def job_status_def)
qed

definition slow_flight :: flight where
  "slow_flight = \<lparr>fl_jobId = ''a'', fl_job = sample_job ''a'' 0, fl_policy = DEFAULT_RETRY,
     fl_execution = sample_execution ''x'' ''a'' ''v''\<rparr>"

definition slow_fleet :: fleet where
  "slow_fleet = \<lparr>ft_world = crashed, ft_held = {#Flying ''v'' slow_flight#}, ft_crashed = {}\<rparr>"

lemma wrong_verdict_doubles_witness:
  "\<exists>t. (fleet_step False)\<^sup>*\<^sup>* slow_fleet t \<and> job_status (ft_world t) ''a'' = Some Completed \<and>
    Held ''u'' ''a'' \<in># ft_held t"
proof -
  obtain w2 where "claimJobs (calm_env 60000) {} ''q'' 5 (snd (reap (calm_env 60000) 30 crashed)) = (Inr [''a''], w2)"
    by (simp add: reap_def crashed_defs stale_workers_def stale_worker_def reap_worker_def requeue_orphan_def run_rules
      catchA_def worker_update_def worker_find_def worker_put_def orphaned_executions_def running_of_def js_set_def
      claimed_jobs_def job_update_def job_find_def job_put_def update_by_def modifyA_def fail_open_executions_def update_where_def publish_def
      claimJobs_run in_flight_def count_where_def available_slots_def select_for_update_def claimable_def Let_def)
  moreover obtain logs where "run_handler demo_handlers ''echo'' (JObj []) = (logs, Inr ())" using demo_run(1) by blast
  ultimately show ?thesis
    using wrong_verdict_doubles [of slow_fleet "''v''" slow_flight "calm_env 60000" 30 "calm_env 60000" "{}" "''q''" 5
       "[''a'']" w2 "''u''" "demo_env 7 ''y''" logs]
    by (simp add: slow_fleet_def slow_flight_def airborne_def crashed_defs rows_named_def stale_workers_def stale_worker_def
      demo_env_def)
qed

end
