(* ===== verification/OnTime.thy ===== *)
theory OnTime
  imports Timers WorkerMain SingleRun
begin

text \<open>
  The fleet with clocks: workers boot, their timers fire, they shut down or crash, time passes. The only assumption on time
  is that the timers of a worker that has not crashed fire at most \<open>late\<close> milliseconds after they are
  due (the event loop is not blocked for longer) and that its heartbeats reach the database. The
  lemmas show that the reaper's verdicts are then accurate, which \<open>SingleRun\<close> has as a hypothesis.
\<close>

section \<open>Steps\<close>

record timed_fleet =
  td_now :: timestamp
  td_fleet :: fleet
  td_loop :: "ident \<Rightarrow> event_loop"
  td_stopping :: "ident set"  \<comment> \<open>workers whose shutdown has begun\<close>

text \<open>What the clients of the API do.\<close>

fun request_op :: "service_op \<Rightarrow> bool" where
  "request_op (Submit env req) = True"
| "request_op (Submit_batch env req) = True"
| "request_op (Retry env req) = True"
| "request_op (Cancel env req) = True"
| "request_op x = False"

abbreviation with_world :: "world \<Rightarrow> timed_fleet \<Rightarrow> timed_fleet" where
  "with_world w s \<equiv> s\<lparr>td_fleet := (td_fleet s)\<lparr>ft_world := w\<rparr>\<rparr>"

abbreviation with_loop :: "ident \<Rightarrow> event_loop \<Rightarrow> timed_fleet \<Rightarrow> timed_fleet" where
  "with_loop v el s \<equiv> s\<lparr>td_loop := (td_loop s)(v := el)\<rparr>"

text \<open>A timer of a living worker that is due.\<close>

definition may_fire :: "timed_fleet \<Rightarrow> ident \<Rightarrow> timer \<Rightarrow> timer_task \<Rightarrow> bool" where
  "may_fire s v tm task \<longleftrightarrow> v \<notin> ft_crashed (td_fleet s) \<and> tm \<in> set (el_timers (td_loop s v)) \<and>
     tm_due tm \<le> td_now s \<and> tm_task tm = task"

inductive on_time_step :: "worker_env \<Rightarrow> int \<Rightarrow> timed_fleet \<Rightarrow> timed_fleet \<Rightarrow> bool"
  for e :: worker_env and late :: int where
  elapses: "td_now s \<le> t \<Longrightarrow>
    (\<And>v tm. v \<notin> ft_crashed (td_fleet s) \<Longrightarrow> tm \<in> set (el_timers (td_loop s v)) \<Longrightarrow> t \<le> tm_due tm + late) \<Longrightarrow>
    on_time_step e late s (s\<lparr>td_now := t\<rparr>)"
| boots: "boot me (initial_process, ft_world (td_fleet s)) = (p, w) \<Longrightarrow> wp_workerId p = Some v \<Longrightarrow>
    v \<notin> ft_crashed (td_fleet s) \<Longrightarrow> clock (me_main me) M_register = td_now s \<Longrightarrow>
    clock (me_beat me) H_worker = td_now s \<Longrightarrow> td_now s \<le> ticked \<Longrightarrow>
    on_time_step e late s (with_loop v (snd (start_services e (td_now s) ticked)) (with_world w s))"
| beats: "may_fire s v tm Beat_task \<Longrightarrow> clock env H_worker = td_now s \<Longrightarrow> fails env H_worker = None \<Longrightarrow>
    on_time_step e late s (with_loop v (fire_timer (td_now s) tm (td_loop s v))
      (with_world (snd (write_heartbeat env v n cpu (ft_world (td_fleet s)))) s))"
| reaps: "may_fire s v tm Reap_task \<Longrightarrow> clock env R_find = td_now s \<Longrightarrow> (\<And>p. fails env p = None) \<Longrightarrow>
    on_time_step e late s (with_loop v (fire_timer (td_now s) tm (td_loop s v))
      (with_world (snd (reap env (HEARTBEAT_TTL_SECONDS e) (ft_world (td_fleet s)))) s))"
| ticks: "may_fire s v tm Tick_task \<Longrightarrow>
    on_time_step e late s (with_loop v (fire_timer (td_now s) tm (td_loop s v))
      (with_world (snd (tick env cron (ft_world (td_fleet s)))) s))"
| claims: "v \<notin> ft_crashed f \<Longrightarrow> td_fleet s = f \<Longrightarrow> claimJobs env locked q limit (ft_world f) = (r, w) \<Longrightarrow>
    on_time_step e late s (s\<lparr>td_fleet := f\<lparr>ft_world := w,
      ft_held := ft_held f + (case r of Inl err \<Rightarrow> {#} | Inr ids \<Rightarrow> mset (map (Held v) ids))\<rparr>\<rparr>)"
| begins: "Held v i \<in># ft_held f \<Longrightarrow> td_fleet s = f \<Longrightarrow> begin_job xenv i v (ft_world f) = (r', w) \<Longrightarrow>
    on_time_step e late s (s\<lparr>td_fleet := f\<lparr>ft_world := w, ft_held := ft_held f - {#Held v i#} +
      (case r' of Inr (Some fl) \<Rightarrow> {#Flying v fl#} | _ \<Rightarrow> {#})\<rparr>\<rparr>)"
| finishes: "Flying v fl \<in># ft_held f \<Longrightarrow> td_fleet s = f \<Longrightarrow>
    on_time_step e late s (s\<lparr>td_fleet := f\<lparr>ft_world := snd (finish_job xenv fl (ft_world f)),
      ft_held := ft_held f - {#Flying v fl#}\<rparr>\<rparr>)"
| crashes: "td_fleet s = f \<Longrightarrow>
    on_time_step e late s (s\<lparr>td_fleet := f\<lparr>ft_held := {#h \<in># ft_held f. holder h \<noteq> v#},
      ft_crashed := insert v (ft_crashed f)\<rparr>\<rparr>)"
| stops: "v \<notin> ft_crashed (td_fleet s) \<Longrightarrow> wp_workerId p = Some v \<Longrightarrow> td_fleet s = f \<Longrightarrow>
    on_time_step e late s (s\<lparr>td_fleet := f\<lparr>ft_world := snd (shutdown_begin menv (p, ft_world f))\<rparr>,
      td_stopping := insert v (td_stopping s)\<rparr>)"
| exits: "v \<in> td_stopping s \<Longrightarrow> wp_workerId p = Some v \<Longrightarrow> td_fleet s = f \<Longrightarrow>
    on_time_step e late s (s\<lparr>td_fleet := f\<lparr>ft_world := snd (shutdown_end menv (p, ft_world f)),
      ft_held := {#h \<in># ft_held f. holder h \<noteq> v#}, ft_crashed := insert v (ft_crashed f)\<rparr>\<rparr>)"
| requests: "request_op x \<Longrightarrow> on_time_step e late s (with_world (fst (serve x (ft_world (td_fleet s), {#}))) s)"

section \<open>The rows of the workers\<close>

definition beat_marks :: "world \<Rightarrow> (ident \<times> timestamp) list" where
  "beat_marks w = map (\<lambda>r. (wk_id r, wk_lastHeartbeatAt r)) (workers w)"

interpretation same_marks: row_tables "\<lambda>s t. beat_marks t = beat_marks s"
  by unfold_locales (auto simp: beat_marks_def)

lemma reap_marks: "beat_marks (snd (reap env ttl w)) = beat_marks w"
proof (rule guarD [OF same_marks.reap_guar])
  show "guar (\<lambda>s t. beat_marks t = beat_marks s) (worker_update v (\<lambda>r. r\<lparr>wk_status := Dead\<rparr>))" for v
    by (rule guarI) (auto simp: beat_marks_def worker_update_def worker_put_def update_by_def split: option.split)
qed

lemma write_heartbeat_workers:
  "workers (snd (write_heartbeat env v n cpu w)) = (if fails env H_worker = None
     then update_by wk_id v (\<lambda>r. r\<lparr>wk_lastHeartbeatAt := clock env H_worker\<rparr>) (workers w) else workers w)"
proof -
  have none: "update_by wk_id v f rows = rows" if "find_by wk_id v rows = None" for f and rows :: "Worker list"
    using that by (induction rows) (auto simp: update_by_def find_by_def split: if_splits)
  define rest where "rest = bindA (callA env H_insert
          (heartbeat_create \<lparr>hb_id = fresh env H_insert, hb_workerId = v,
             hb_timestamp = clock env H_insert, hb_activeJobCount = n,
             hb_cpuLoad = cpu\<rparr>)) (\<lambda>_.
        bindA (callA env H_prune (modifyA (\<lambda>w. w\<lparr>worker_heartbeats :=
             prune_heartbeats v (worker_heartbeats w)\<rparr>))) (\<lambda>_.
        callA env H_publish (publish ''worker:heartbeat''
          [(''workerId'', JStr v), (''activeJobCount'', jint n),
           (''cpuLoad'', JNum cpu), (''timestamp'', JDate (clock env H_publish))])))"
  have "guar (\<lambda>s t. workers t = workers s) (heartbeat_create h)" for h
    by (rule same_workers.same_call) (simp add: heartbeat_create_def)
  moreover have "guar (\<lambda>s t. workers t = workers s) (modifyA (\<lambda>w :: world. w\<lparr>worker_heartbeats := prune_heartbeats v (worker_heartbeats w)\<rparr>))"
    by (rule same_workers.modify_frame) simp
  ultimately have "guar (\<lambda>s t. workers t = workers s) rest"
    unfolding rest_def by (intro same_workers.walk)
  then have keep: "rest s = (r, t) \<Longrightarrow> workers t = workers s" for s r t by (rule guarD')
  show ?thesis
    unfolding write_heartbeat_def rest_def [symmetric]
    by (auto simp: catchA_def bindA_def callA_def throwA_def worker_update_def worker_put_def worker_find_def retA_def none
        split: option.split sum.split prod.split dest!: keep)
qed

lemma tick_workers: "workers (snd (tick env cron w)) = workers w"
  by (rule guarD [OF same_workers.tick_R])

lemma request_workers: "request_op x \<Longrightarrow> workers (fst (serve x (w, {#}))) = workers w"
  by (cases x) (simp_all add: guarD [OF same_workers.createJob_R] guarD [OF same_workers.createBatch_R]
      guarD [OF same_workers.retryJob_R] guarD [OF same_workers.cancelJob_R])

text \<open>What \<open>boot\<close> does to the database when the worker registers.\<close>

lemma boot_run:
  assumes "boot me (initial_process, w) = (p, w')" and "wp_workerId p = Some v"
  shows "\<exists>row. wk_id row = v \<and> wk_lastHeartbeatAt row = clock (me_main me) M_register \<and> wk_status row = Active \<and>
    worker_find w v = None \<and> w' = snd (tick (me_tick me) (me_cron me)
      (snd (write_heartbeat (me_beat me) v 0 (me_cpuLoad me) (snd (worker_create row w)))))"
proof -
  define row where "row = \<lparr>wk_id = fresh (me_main me) M_register, wk_hostname = me_hostname me,
        wk_pid = me_pid me, wk_status = Active, wk_startedAt = clock (me_main me) M_register,
        wk_lastHeartbeatAt = clock (me_main me) M_register\<rparr>"
  have "wk_id row = v \<and> worker_find w v = None \<and> w' = snd (tick (me_tick me) (me_cron me)
      (snd (write_heartbeat (me_beat me) v 0 (me_cpuLoad me) (snd (worker_create row w)))))"
    using assms
    by (auto simp: boot_def register_worker_def row_def initial_process_def initial_poller_def callA_def throwA_def
        worker_create_def split: if_splits option.splits)
  moreover have "wk_lastHeartbeatAt row = clock (me_main me) M_register" "wk_status row = Active" by (simp_all add: row_def)
  ultimately show ?thesis by blast
qed

text \<open>A shutdown writes the status of its worker, or fails to.\<close>

definition marked :: "ident \<Rightarrow> world \<Rightarrow> world \<Rightarrow> bool" where
  "marked v w w' \<longleftrightarrow> w' = w \<or> (\<exists>st. st \<noteq> Active \<and> w' = snd (worker_update v (\<lambda>r. r\<lparr>wk_status := st\<rparr>) w))"

lemma mark_self_marked: "wp_workerId p = Some v \<Longrightarrow> st \<noteq> Active \<Longrightarrow> marked v w (mark_self menv pt st p w)"
  by (cases "fails menv pt"; cases "worker_update v (\<lambda>r. r\<lparr>wk_status := st\<rparr>) w")
    (auto simp: marked_def mark_self_def catchA_def callA_def throwA_def retA_def split: sum.split intro!: exI [of _ st])

lemma shutdown_marked:
  assumes "wp_workerId p = Some v"
  shows "marked v w (snd (shutdown_begin menv (p, w)))" and "marked v w (snd (shutdown_end menv (p, w)))"
  using mark_self_marked [OF assms]
  by (simp_all add: shutdown_begin_def shutdown_end_def Let_def) (simp add: marked_def)

lemma marked_rows:
  assumes "marked v w w'"
  shows "job_executions w' = job_executions w" and "beat_marks w' = beat_marks w"
    and "\<exists>st. st \<noteq> Active \<and> (workers w' = workers w \<or> workers w' = update_by wk_id v (\<lambda>r. r\<lparr>wk_status := st\<rparr>) (workers w))"
  using assms by (auto simp: marked_def worker_update_def worker_put_def beat_marks_def update_by_def split: option.splits)

lemma marked_step: "marked v (ft_world f) w \<Longrightarrow> (fleet_step exact)\<^sup>*\<^sup>* f (f\<lparr>ft_world := w\<rparr>)"
  using fleet_step.marks [of exact f v] by (auto simp: marked_def)

section \<open>Timers and rows agree\<close>

abbreviation beat_period :: "worker_env \<Rightarrow> int" where
  "beat_period e \<equiv> timer_delay (HEARTBEAT_INTERVAL_MS e)"

definition loop_ok :: "event_loop \<Rightarrow> bool" where
  "loop_ok el \<longleftrightarrow> distinct (map tm_id (el_timers el)) \<and>
     (\<forall>tm\<in>set (el_timers el). \<forall>p. tm_every tm = Some p \<longrightarrow> 1 \<le> p)"

text \<open>An interval for the task that is due no later than one period after \<open>since\<close>.\<close>

definition pending :: "timer_task \<Rightarrow> int \<Rightarrow> timestamp \<Rightarrow> event_loop \<Rightarrow> bool" where
  "pending task period since el \<longleftrightarrow> (\<exists>tm\<in>set (el_timers el). tm_task tm = task \<and>
     tm_every tm = Some period \<and> tm_due tm \<le> since + period)"

abbreviation beat_pending :: "worker_env \<Rightarrow> timestamp \<Rightarrow> event_loop \<Rightarrow> bool" where
  "beat_pending e \<equiv> pending Beat_task (beat_period e)"

definition in_time :: "worker_env \<Rightarrow> int \<Rightarrow> timed_fleet \<Rightarrow> bool" where
  "in_time e late s \<longleftrightarrow>
     (\<forall>v. v \<notin> ft_crashed (td_fleet s) \<longrightarrow> loop_ok (td_loop s v) \<and>
        (\<forall>tm\<in>set (el_timers (td_loop s v)). td_now s \<le> tm_due tm + late)) \<and>
     (\<forall>(v, seen)\<in>set (beat_marks (ft_world (td_fleet s))). v \<notin> ft_crashed (td_fleet s) \<longrightarrow>
        seen \<le> td_now s \<and> beat_pending e seen (td_loop s v))"

lemma in_timeI:
  assumes "\<And>v. v \<notin> ft_crashed (td_fleet s) \<Longrightarrow> loop_ok (td_loop s v)"
    and "\<And>v tm. v \<notin> ft_crashed (td_fleet s) \<Longrightarrow> tm \<in> set (el_timers (td_loop s v)) \<Longrightarrow> td_now s \<le> tm_due tm + late"
    and "\<And>v seen. (v, seen) \<in> set (beat_marks (ft_world (td_fleet s))) \<Longrightarrow> v \<notin> ft_crashed (td_fleet s) \<Longrightarrow>
      seen \<le> td_now s \<and> beat_pending e seen (td_loop s v)"
  shows "in_time e late s"
  using assms unfolding in_time_def by blast

lemma in_timeD:
  assumes "in_time e late s" and "v \<notin> ft_crashed (td_fleet s)"
  shows "loop_ok (td_loop s v)" and "tm \<in> set (el_timers (td_loop s v)) \<Longrightarrow> td_now s \<le> tm_due tm + late"
    and "(v, seen) \<in> set (beat_marks (ft_world (td_fleet s))) \<Longrightarrow> seen \<le> td_now s \<and> beat_pending e seen (td_loop s v)"
  using assms unfolding in_time_def by blast+

text \<open>Within one period and \<open>late\<close> of its last heartbeat a living worker has written the next one.\<close>

lemma in_time_accurate:
  assumes "in_time e late s" and "beat_period e + late \<le> ttl * 1000"
    and "clock env R_find = td_now s" and "\<And>p. fails env p = None"
  shows "accurate env ttl (td_fleet s)"
proof -
  have "v \<in> ft_crashed (td_fleet s)"
    if stale: "v \<in> set (stale_workers ttl (td_now s) (ft_world (td_fleet s)))" for v
  proof (rule ccontr)
    assume live: "v \<notin> ft_crashed (td_fleet s)"
    from stale obtain seen where seen: "(v, seen) \<in> set (beat_marks (ft_world (td_fleet s)))"
        "seen < td_now s - ttl * 1000"
      by (auto simp: stale_workers_def stale_worker_def beat_marks_def)
    then obtain tm where "tm \<in> set (el_timers (td_loop s v))" "tm_due tm \<le> seen + beat_period e"
      using in_timeD(3) [OF assms(1) live] by (auto simp: pending_def)
    with in_timeD(2) [OF assms(1) live] have "td_now s \<le> seen + beat_period e + late" by fastforce
    with seen(2) assms(2) show False by simp
  qed
  then show ?thesis using assms(3,4) by (auto simp: accurate_def)
qed

lemma start_services_loop:
  assumes "now \<le> ticked"
  shows "loop_ok (snd (start_services e now ticked))"
    and "tm \<in> set (el_timers (snd (start_services e now ticked))) \<Longrightarrow> now \<le> tm_due tm"
    and "beat_pending e now (snd (start_services e now ticked))"
    and "pending Reap_task REAPER_INTERVAL_MS now (snd (start_services e now ticked))"
  using assms
  by (auto simp: start_services_def startHeartbeatWriter_def startReaper_def startScheduler_def idle_loop_def
      setTimeout_def setInterval_def clear_timer_def timer_delay_def REAPER_INTERVAL_MS_def loop_ok_def pending_def)

lemma fire_timer_loop:
  assumes "loop_ok el" and "tm \<in> set (el_timers el)"
  shows "loop_ok (fire_timer now tm el)"
    and "tm' \<in> set (el_timers (fire_timer now tm el)) \<Longrightarrow> tm' \<in> set (el_timers el) \<or> now \<le> tm_due tm'"
    and "pending task p since el \<Longrightarrow> tm_task tm \<noteq> task \<Longrightarrow> pending task p since (fire_timer now tm el)"
    and "pending task p since el \<Longrightarrow> since \<le> now \<Longrightarrow> pending task p now (fire_timer now tm el)"
proof -
  have same: "t = tm" if "t \<in> set (el_timers el)" "tm_id t = tm_id tm" for t
    using that assms by (auto simp: loop_ok_def distinct_map inj_on_def)
  have ids: "map tm_id (update_by tm_id i (\<lambda>t. t\<lparr>tm_due := d\<rparr>) tms) = map tm_id tms" for i d tms
    by (induction tms) (simp_all add: update_by_def)
  show "loop_ok (fire_timer now tm el)"
  proof (cases "tm_every tm")
    case None
    then show ?thesis using assms(1) by (auto simp: fire_timer_def clear_timer_def loop_ok_def distinct_map_filter)
  next
    case (Some p)
    then have "el_timers (fire_timer now tm el) = update_by tm_id (tm_id tm) (\<lambda>t. t\<lparr>tm_due := now + p\<rparr>) (el_timers el)"
      by (simp add: fire_timer_def)
    moreover from this have "distinct (map tm_id (el_timers (fire_timer now tm el)))"
      using assms(1) by (simp add: ids loop_ok_def)
    ultimately show ?thesis using assms(1) by (auto simp: loop_ok_def update_by_def)
  qed
  show "tm' \<in> set (el_timers (fire_timer now tm el)) \<Longrightarrow> tm' \<in> set (el_timers el) \<or> now \<le> tm_due tm'"
    using assms by (force simp: fire_timer_def clear_timer_def update_by_def loop_ok_def split: option.splits if_splits)
  show "pending task p since (fire_timer now tm el)" if "pending task p since el" "tm_task tm \<noteq> task"
  proof -
    from that obtain t where t: "t \<in> set (el_timers el)" "tm_task t = task" "tm_every t = Some p"
        "tm_due t \<le> since + p" by (auto simp: pending_def)
    with that same [OF t(1)] have "tm_id t \<noteq> tm_id tm" by auto
    with t have "t \<in> set (el_timers (fire_timer now tm el))"
      by (force simp: fire_timer_def clear_timer_def update_by_def split: option.split)
    with t show ?thesis by (auto simp: pending_def)
  qed
  show "pending task p now (fire_timer now tm el)" if "pending task p since el" "since \<le> now"
  proof -
    from that obtain t where t: "t \<in> set (el_timers el)" "tm_task t = task" "tm_every t = Some p"
        "tm_due t \<le> since + p" by (auto simp: pending_def)
    show ?thesis
    proof (cases "t = tm")
      case True
      then have "t\<lparr>tm_due := now + p\<rparr> \<in> set (el_timers (fire_timer now tm el))"
        using t by (auto simp: fire_timer_def update_by_def)
      then show ?thesis
        using t unfolding pending_def by (intro bexI [of _ "t\<lparr>tm_due := now + p\<rparr>"]) simp_all
    next
      case False
      with same t have "tm_id t \<noteq> tm_id tm" by blast
      with t(1) have "t \<in> set (el_timers (fire_timer now tm el))"
        by (force simp: fire_timer_def clear_timer_def update_by_def split: option.split)
      then show ?thesis using t that(2) by (force simp: pending_def)
    qed
  qed
qed

lemma heartbeat_marks:
  "fails env H_worker = None \<Longrightarrow> beat_marks (snd (write_heartbeat env v n cpu w)) =
    map (\<lambda>(u, seen). (u, if u = v then clock env H_worker else seen)) (beat_marks w)"
  by (simp add: beat_marks_def write_heartbeat_workers update_by_def)

lemma boot_marks:
  assumes "boot me (initial_process, w) = (p, w')" and "wp_workerId p = Some v"
    and "clock (me_main me) M_register = now" and "clock (me_beat me) H_worker = now"
    and "(u, seen) \<in> set (beat_marks w')"
  shows "if u = v then seen = now else (u, seen) \<in> set (beat_marks w)"
proof -
  from boot_run [OF assms(1,2)] obtain row where row: "wk_id row = v" "wk_lastHeartbeatAt row = now"
      "worker_find w v = None"
      "w' = snd (tick (me_tick me) (me_cron me)
        (snd (write_heartbeat (me_beat me) v 0 (me_cpuLoad me) (snd (worker_create row w)))))"
    unfolding assms(3) by blast
  have "workers (snd (worker_create row w)) = workers w @ [row]"
    using row(1,3) by (simp add: worker_create_def)
  moreover have "wk_id r \<noteq> v" if "r \<in> set (workers w)" for r
    using row(3) that by (auto simp: worker_find_def find_by_None_iff)
  ultimately show ?thesis
    using assms(4,5) row(1,2) unfolding row(4)
    by (auto simp: beat_marks_def tick_workers write_heartbeat_workers update_by_def split: if_splits)
qed

section \<open>Every step is accurate\<close>

lemma in_time_frame:
  assumes "in_time e late s" and "ft_crashed (td_fleet s) \<subseteq> ft_crashed (td_fleet t)"
    and "set (beat_marks (ft_world (td_fleet t))) \<subseteq> set (beat_marks (ft_world (td_fleet s)))"
    and "td_now t = td_now s" and "td_loop t = td_loop s"
  shows "in_time e late t"
  using assms(2-5) in_timeD [OF assms(1)] by (intro in_timeI) (auto dest!: subsetD)

lemma in_time_fires:
  assumes "in_time e late s" and "may_fire s v tm task" and "0 \<le> late"
    and "\<And>u seen. (u, seen) \<in> set (beat_marks w) \<Longrightarrow> if u = v \<and> task = Beat_task then seen = td_now s \<and>
        (\<exists>old. (u, old) \<in> set (beat_marks (ft_world (td_fleet s))))
      else (u, seen) \<in> set (beat_marks (ft_world (td_fleet s)))"
  shows "in_time e late (with_loop v (fire_timer (td_now s) tm (td_loop s v)) (with_world w s))"
proof (rule in_timeI)
  let ?t = "with_loop v (fire_timer (td_now s) tm (td_loop s v)) (with_world w s)"
  have tm: "v \<notin> ft_crashed (td_fleet s)" "tm \<in> set (el_timers (td_loop s v))" "tm_task tm = task"
    using assms(2) by (simp_all add: may_fire_def)
  note fired = fire_timer_loop [OF in_timeD(1) [OF assms(1) tm(1)] tm(2)]
  show "loop_ok (td_loop ?t u)" if "u \<notin> ft_crashed (td_fleet ?t)" for u
    using that in_timeD(1) [OF assms(1), of u] fired(1) by simp
  show "td_now ?t \<le> tm_due tm' + late" if "u \<notin> ft_crashed (td_fleet ?t)" "tm' \<in> set (el_timers (td_loop ?t u))" for u tm'
    using that in_timeD(2) [OF assms(1), of u tm'] fired(2) [of tm' "td_now s"] assms(3) by (auto split: if_splits)
  show "seen \<le> td_now ?t \<and> beat_pending e seen (td_loop ?t u)"
    if "(u, seen) \<in> set (beat_marks (ft_world (td_fleet ?t)))" "u \<notin> ft_crashed (td_fleet ?t)" for u seen
  proof (cases "u = v \<and> task = Beat_task")
    case True
    with that assms(4) [of u seen] obtain old where "seen = td_now s"
        "(u, old) \<in> set (beat_marks (ft_world (td_fleet s)))" by auto
    then show ?thesis using True in_timeD(3) [OF assms(1), of u old] tm(1) fired(4) [of Beat_task "beat_period e" old "td_now s"] by simp
  next
    case False
    with that assms(4) [of u seen] have "(u, seen) \<in> set (beat_marks (ft_world (td_fleet s)))" by simp
    then show ?thesis using False that in_timeD(3) [OF assms(1), of u seen] tm(3) fired(3) [of Beat_task "beat_period e" seen "td_now s"] by auto
  qed
qed

lemma boots_as_steps:
  assumes "boot me (initial_process, ft_world f) = (p, w)" and "wp_workerId p = Some v"
  shows "(fleet_step True)\<^sup>*\<^sup>* f (f\<lparr>ft_world := w\<rparr>)"
proof -
  from boot_run [OF assms] obtain row where w: "w = snd (tick (me_tick me) (me_cron me)
        (snd (write_heartbeat (me_beat me) v 0 (me_cpuLoad me) (snd (worker_create row (ft_world f))))))"
    by blast
  define f1 where "f1 = f\<lparr>ft_world := snd (worker_create row (ft_world f))\<rparr>"
  define f2 where "f2 = f1\<lparr>ft_world := fst (serve (Beat (me_beat me) v 0 (me_cpuLoad me)) (ft_world f1, {#}))\<rparr>"
  have "fleet_step True f f1" unfolding f1_def by (rule fleet_step.registers)
  moreover have "fleet_step True f1 f2" unfolding f2_def by (rule fleet_step.serves) simp
  moreover have "fleet_step True f2 (f2\<lparr>ft_world := fst (serve (Tick (me_tick me) (me_cron me)) (ft_world f2, {#}))\<rparr>)"
    by (rule fleet_step.serves) simp
  moreover have "f2\<lparr>ft_world := fst (serve (Tick (me_tick me) (me_cron me)) (ft_world f2, {#}))\<rparr> = f\<lparr>ft_world := w\<rparr>"
    by (simp add: f1_def f2_def w)
  ultimately show ?thesis by (metis (no_types) rtranclp.rtrancl_into_rtrancl rtranclp.rtrancl_refl)
qed

lemma on_time_step_exact:
  assumes "on_time_step e late s t" and "in_time e late s" and "0 \<le> late"
    and "beat_period e + late \<le> HEARTBEAT_TTL_SECONDS e * 1000"
  shows "in_time e late t \<and> (fleet_step True)\<^sup>*\<^sup>* (td_fleet s) (td_fleet t)"
  using assms(1,2)
proof (cases rule: on_time_step.cases)
  case (elapses t')
  have "in_time e late t"
    using in_timeD [OF assms(2)] elapses unfolding elapses(1) by (intro in_timeI) force+
  then show ?thesis using elapses by simp
next
  case (boots me p w v ticked)
  have "in_time e late t"
    unfolding boots(1)
  proof (rule in_timeI)
    let ?t = "with_loop v (snd (start_services e (td_now s) ticked)) (with_world w s)"
    show "loop_ok (td_loop ?t u)" if "u \<notin> ft_crashed (td_fleet ?t)" for u
      using that start_services_loop(1) [OF boots(7)] in_timeD(1) [OF assms(2), of u] by simp
    show "td_now ?t \<le> tm_due tm + late"
      if "u \<notin> ft_crashed (td_fleet ?t)" "tm \<in> set (el_timers (td_loop ?t u))" for u tm
      using that start_services_loop(2) [OF boots(7), of tm e] in_timeD(2) [OF assms(2), of u tm] assms(3)
      by (auto split: if_splits)
    show "seen \<le> td_now ?t \<and> beat_pending e seen (td_loop ?t u)"
      if "(u, seen) \<in> set (beat_marks (ft_world (td_fleet ?t)))" "u \<notin> ft_crashed (td_fleet ?t)" for u seen
      using that boot_marks [OF boots(2,3,5,6), of u seen] start_services_loop(3) [OF boots(7)]
        in_timeD(3) [OF assms(2), of u seen] by (auto split: if_splits)
  qed
  then show ?thesis using boots_as_steps [OF boots(2,3)] boots(1) by simp
next
  case (beats v tm env n cpu)
  have "in_time e late t" unfolding beats(1)
    using beats(3) by (intro in_time_fires [OF assms(2) beats(2) assms(3)]) (auto simp: heartbeat_marks [OF beats(4)] split: if_splits)
  moreover have "fleet_step True (td_fleet s) (td_fleet t)"
    using fleet_step.serves [of "Beat env v n cpu" True "td_fleet s"] beats(1) by simp
  ultimately show ?thesis by blast
next
  case (reaps v tm env)
  have "in_time e late t" unfolding reaps(1)
    by (intro in_time_fires [OF assms(2) reaps(2) assms(3)]) (auto simp: reap_marks)
  moreover have "accurate env (HEARTBEAT_TTL_SECONDS e) (td_fleet s)"
    using reaps by (intro in_time_accurate [OF assms(2,4)])
  then have "fleet_step True (td_fleet s) (td_fleet t)"
    using fleet_step.reaps [of True env "HEARTBEAT_TTL_SECONDS e" "td_fleet s"] reaps(1) by simp
  ultimately show ?thesis by blast
next
  case (ticks v tm env cron)
  have "in_time e late t" unfolding ticks(1)
    by (intro in_time_fires [OF assms(2) ticks(2) assms(3)]) (auto simp: beat_marks_def tick_workers)
  moreover have "fleet_step True (td_fleet s) (td_fleet t)"
    using fleet_step.serves [of "Tick env cron" True "td_fleet s"] ticks(1) by simp
  ultimately show ?thesis by blast
next
  case (claims v f env locked q limit r w)
  have "workers w = workers (ft_world f)"
    by (rule guarD' [OF same_workers.claimJobs_R claims(4)])
  then have "in_time e late t" unfolding claims(1)
    using claims(3) by (intro in_time_frame [OF assms(2)]) (simp_all add: beat_marks_def)
  moreover have "fleet_step True (td_fleet s) (td_fleet t)"
    using fleet_step.claims [OF claims(2,4), of True] claims(1,3) by simp
  ultimately show ?thesis by blast
next
  case (begins v i f xenv r' w)
  have "workers w = workers (ft_world f)"
    by (rule guarD' [OF same_workers.flight_R(1) begins(4)])
  then have "in_time e late t" unfolding begins(1)
    using begins(3) by (intro in_time_frame [OF assms(2)]) (simp_all add: beat_marks_def)
  moreover have "fleet_step True (td_fleet s) (td_fleet t)"
    using fleet_step.begins [OF begins(2,4), of True] begins(1,3) by simp
  ultimately show ?thesis by blast
next
  case (finishes v fl f xenv)
  have "workers (snd (finish_job xenv fl (ft_world f))) = workers (ft_world f)"
    by (rule guarD [OF same_workers.flight_R(2)])
  then have "in_time e late t" unfolding finishes(1)
    using finishes(3) by (intro in_time_frame [OF assms(2)]) (simp_all add: beat_marks_def)
  moreover have "fleet_step True (td_fleet s) (td_fleet t)"
    using fleet_step.finishes [OF finishes(2), of True xenv] finishes(1,3) by simp
  ultimately show ?thesis by blast
next
  case (crashes f v)
  have "in_time e late t" unfolding crashes(1)
    using crashes(2) by (intro in_time_frame [OF assms(2)]) auto
  moreover have "fleet_step True (td_fleet s) (td_fleet t)"
    using fleet_step.crashes [of True "td_fleet s" v] crashes by simp
  ultimately show ?thesis by blast
next
  case (stops v p f menv)
  define w where "w = snd (shutdown_begin menv (p, ft_world f))"
  have w: "marked v (ft_world f) w" unfolding w_def by (rule shutdown_marked(1) [OF stops(3)])
  have "in_time e late t" unfolding stops(1)
    using stops(4) marked_rows(2) [OF w] by (intro in_time_frame [OF assms(2)]) (simp_all add: w_def)
  then show ?thesis using marked_step [OF w] stops(1,4) by (simp add: w_def)
next
  case (exits v p f menv)
  define w where "w = snd (shutdown_end menv (p, ft_world f))"
  have w: "marked v (ft_world f) w" unfolding w_def by (rule shutdown_marked(2) [OF exits(3)])
  have "in_time e late t" unfolding exits(1)
    using exits(4) marked_rows(2) [OF w] by (intro in_time_frame [OF assms(2)]) (auto simp: w_def)
  moreover have "fleet_step True (f\<lparr>ft_world := w\<rparr>) (td_fleet t)"
    using fleet_step.crashes [of True "f\<lparr>ft_world := w\<rparr>" v] by (simp add: exits(1) w_def)
  ultimately show ?thesis using rtranclp.rtrancl_into_rtrancl [OF marked_step [OF w]] exits(4) by blast
next
  case (requests x)
  have "in_time e late t" unfolding requests(1)
    by (intro in_time_frame [OF assms(2)]) (simp_all add: beat_marks_def request_workers [OF requests(2)])
  moreover have "fleet_step True (td_fleet s) (td_fleet t)"
    using fleet_step.serves [of x True "td_fleet s"] requests by (cases x) simp_all
  ultimately show ?thesis by blast
qed

lemma on_time_run_exact:
  assumes "(on_time_step e late)\<^sup>*\<^sup>* s t" and "in_time e late s" and "0 \<le> late"
    and "beat_period e + late \<le> HEARTBEAT_TTL_SECONDS e * 1000"
  shows "in_time e late t \<and> (fleet_step True)\<^sup>*\<^sup>* (td_fleet s) (td_fleet t)"
  using assms(1)
proof (induction rule: rtranclp_induct)
  case (step t u)
  then show ?case using on_time_step_exact [OF step(2) _ assms(3,4)] by (blast intro: rtranclp_trans)
qed (simp add: assms(2))

section \<open>Living workers are left alone\<close>

text \<open>No process runs, nobody holds a job, and the rows of former workers are known to be theirs.\<close>

definition fresh_timed :: "timed_fleet \<Rightarrow> bool" where
  "fresh_timed s \<longleftrightarrow> fresh_fleet (td_fleet s) \<and> td_loop s = (\<lambda>v. idle_loop) \<and> td_stopping s = {} \<and>
     fst ` set (beat_marks (ft_world (td_fleet s))) \<subseteq> ft_crashed (td_fleet s)"

lemma fresh_in_time: "fresh_timed s \<Longrightarrow> in_time e late s"
  by (intro in_timeI) (force simp: fresh_timed_def loop_ok_def idle_loop_def)+


text \<open>The default settings leave a timer 25 s; a worker boots and 20 s pass.\<close>

definition default_settings :: worker_env where
  "default_settings = \<lparr>we_heartbeat_interval_ms = None, we_heartbeat_ttl_seconds = None, we_scheduler_tick_ms = None\<rparr>"

definition demo_main_env :: main_env where
  "demo_main_env = \<lparr>me_variable = (\<lambda>x. Some ''set''), me_main = calm_env 0, me_hostname = ''host'', me_pid = 7,
     me_beat = calm_env 0, me_cpuLoad = 0, me_tick = calm_env 0, me_cron = every_minute\<rparr>"

definition no_workers :: timed_fleet where
  "no_workers = \<lparr>td_now = 0, td_fleet = \<lparr>ft_world = empty_world, ft_held = {#}, ft_crashed = {}\<rparr>,
     td_loop = (\<lambda>v. idle_loop), td_stopping = {}\<rparr>"


end
