(* ===== verification/Recovery.thy ===== *)
theory Recovery
  imports OnTime
begin

text \<open>
  How long a crash can go unnoticed: the timers of the living workers, the heartbeats and the reaper
  bound the time until the executions of a crashed worker are closed and their jobs are back in
  their queues. The steps and the assumption on time are those of \<open>OnTime\<close>.
\<close>

section \<open>The table of workers\<close>

text \<open>
  Living workers that are not shutting down are \<open>active\<close>, and an open execution belongs to an active
  worker or one that has begun its shutdown: the reaper closes the executions of those it declares
  dead.
\<close>

definition roster :: "timed_fleet \<Rightarrow> bool" where
  "roster s \<longleftrightarrow> distinct (map fst (worker_states (ft_world (td_fleet s)))) \<and>
     (\<forall>(v, st)\<in>set (worker_states (ft_world (td_fleet s))). v \<notin> ft_crashed (td_fleet s) \<longrightarrow> v \<notin> td_stopping s \<longrightarrow> st = Active) \<and>
     (\<forall>v. v \<notin> td_stopping s \<longrightarrow> open_jobs v (ft_world (td_fleet s)) \<noteq> {} \<longrightarrow>
       (v, Active) \<in> set (worker_states (ft_world (td_fleet s))))"

lemma rosterD:
  assumes "roster s"
  shows "distinct (map fst (worker_states (ft_world (td_fleet s))))"
    and "(v, st) \<in> set (worker_states (ft_world (td_fleet s))) \<Longrightarrow> v \<notin> ft_crashed (td_fleet s) \<Longrightarrow> v \<notin> td_stopping s \<Longrightarrow> st = Active"
    and "v \<notin> td_stopping s \<Longrightarrow> open_jobs v (ft_world (td_fleet s)) \<noteq> {} \<Longrightarrow> (v, Active) \<in> set (worker_states (ft_world (td_fleet s)))"
  using assms unfolding roster_def by blast+

lemma rosterI:
  assumes "distinct (map fst (worker_states (ft_world (td_fleet s))))"
    and "\<And>v st. (v, st) \<in> set (worker_states (ft_world (td_fleet s))) \<Longrightarrow> v \<notin> ft_crashed (td_fleet s) \<Longrightarrow> v \<notin> td_stopping s \<Longrightarrow> st = Active"
    and "\<And>v. v \<notin> td_stopping s \<Longrightarrow> open_jobs v (ft_world (td_fleet s)) \<noteq> {} \<Longrightarrow> (v, Active) \<in> set (worker_states (ft_world (td_fleet s)))"
  shows "roster s"
  using assms unfolding roster_def by blast

lemma roster_frame:
  assumes "roster s" and "worker_states (ft_world (td_fleet t)) = worker_states (ft_world (td_fleet s))"
    and "ft_crashed (td_fleet s) \<subseteq> ft_crashed (td_fleet t)" and "td_stopping s \<subseteq> td_stopping t"
    and "\<And>v. open_jobs v (ft_world (td_fleet t)) \<subseteq> open_jobs v (ft_world (td_fleet s))"
  shows "roster t"
proof (rule rosterI)
  note before = rosterD [OF assms(1)]
  show "distinct (map fst (worker_states (ft_world (td_fleet t))))" using before(1) assms(2) by simp
  show "st = Active" if "(v, st) \<in> set (worker_states (ft_world (td_fleet t)))" "v \<notin> ft_crashed (td_fleet t)"
      "v \<notin> td_stopping t" for v st
    using before(2) that assms(2-4) by auto
  show "(v, Active) \<in> set (worker_states (ft_world (td_fleet t)))"
    if "v \<notin> td_stopping t" "open_jobs v (ft_world (td_fleet t)) \<noteq> {}" for v
    using before(3) [of v] that assms(2,4) assms(5) [of v] by auto
qed

lemma roster_marked:
  assumes "roster s" and "marked v (ft_world (td_fleet s)) (ft_world (td_fleet t))"
    and "ft_crashed (td_fleet s) \<subseteq> ft_crashed (td_fleet t)" and "td_stopping t = insert v (td_stopping s)"
  shows "roster t"
proof -
  note before = rosterD [OF assms(1)]
  have ids: "map fst (worker_states (ft_world (td_fleet t))) = map fst (worker_states (ft_world (td_fleet s)))"
    using marked_rows(3) [OF assms(2)] by (auto simp: worker_states_def update_by_def)
  have other: "(u, st) \<in> set (worker_states (ft_world (td_fleet t))) \<longleftrightarrow> (u, st) \<in> set (worker_states (ft_world (td_fleet s)))"
    if "u \<noteq> v" for u st
    using marked_rows(3) [OF assms(2)] that by (force simp: worker_states_def update_by_def)
  have opened: "open_jobs u (ft_world (td_fleet t)) = open_jobs u (ft_world (td_fleet s))" for u
    using marked_rows(1) [OF assms(2)] by (simp add: open_jobs_exec)
  show ?thesis
  proof (rule rosterI)
    show "distinct (map fst (worker_states (ft_world (td_fleet t))))" using before(1) ids by simp
    show "st = Active" if "(u, st) \<in> set (worker_states (ft_world (td_fleet t)))" "u \<notin> ft_crashed (td_fleet t)"
        "u \<notin> td_stopping t" for u st
      using before(2) [of u st] other [of u st] that assms(3,4) by auto
    show "(u, Active) \<in> set (worker_states (ft_world (td_fleet t)))"
      if "u \<notin> td_stopping t" "open_jobs u (ft_world (td_fleet t)) \<noteq> {}" for u
      using before(3) [of u] other [of u] that assms(4) opened by simp
  qed
qed

lemma states_of_workers: "workers t = workers s \<Longrightarrow> worker_states t = worker_states s"
  by (simp add: worker_states_def)

lemma open_jobs_same: "job_executions t = job_executions s \<Longrightarrow> open_jobs v t = open_jobs v s"
  by (simp add: open_jobs_exec)

lemma worker_find_states: "worker_find w v \<noteq> None \<longleftrightarrow> v \<in> fst ` set (worker_states w)"
  by (force simp: worker_find_def find_by_None_iff worker_states_def)

lemma beat_states: "worker_states (snd (write_heartbeat env v n cpu w)) = worker_states w"
  by (simp add: worker_states_def write_heartbeat_workers update_by_def)

text \<open>The reaper only declares workers dead.\<close>

definition only_dead :: "world \<Rightarrow> world \<Rightarrow> bool" where
  "only_dead s t \<longleftrightarrow> list_all2 (\<lambda>r r'. wk_id r' = wk_id r \<and> wk_lastHeartbeatAt r' = wk_lastHeartbeatAt r \<and>
     (wk_status r' = wk_status r \<or> wk_status r' = Dead)) (workers s) (workers t)"

interpretation only_dead: row_tables only_dead
proof unfold_locales
  have same: "workers t = workers s \<Longrightarrow> only_dead s t" for s t
    by (simp add: only_dead_def list_all2_same)
  show "only_dead s u" if "only_dead s t" "only_dead t u" for s t u
    using that unfolding only_dead_def by (rule list_all2_trans [rotated]) auto
qed (simp_all add: only_dead_def list_all2_same)

lemma reap_only_dead: "only_dead w (snd (reap env ttl w))"
proof (rule guarD [OF only_dead.reap_guar])
  show "guar only_dead (worker_update v (\<lambda>r. r\<lparr>wk_status := Dead\<rparr>))" for v
    by (rule guarI) (auto simp: only_dead_def worker_update_def worker_put_def update_by_def list_all2_map2 list_all2_same
        split: option.split)
qed

lemma begin_job_worker:
  assumes "begin_job env i v w = (Inr (Some f), w')"
  shows "worker_find w v \<noteq> None"
proof -
  from assms obtain job policy where found: "fails env E_find = None" "fetch_job i w = Some (job, policy)"
    by (auto simp: begin_job_def bindA_def readA_def throwA_def retA_def callA_def split: option.splits)
  have running: "fails env E_running = None"
    using assms found by (auto simp: begin_job_def mark_running_def bindA_def readA_def throwA_def callA_def split: option.splits)
  have "begin_job env i v w = bindA (open_execution env job i v) (\<lambda>execution.
      retA (Some \<lparr>fl_jobId = i, fl_job = job, fl_policy = policy, fl_execution = execution\<rparr>)) (started env job i w)"
    using found running fetch_jobD [OF found(2)] mark_running_run [of env w i]
    by (auto simp: begin_job_def bindA_def readA_def started_def)
  then have "worker_find (started env job i w) v \<noteq> None"
    using assms by (auto simp: open_execution_def callA_def throwA_def bindA_def exec_create_def split: option.splits if_splits)
  then show ?thesis by (simp add: started_def emitted_def worker_find_def job_put_def split: if_splits)
qed

lemma boot_states:
  assumes "boot me (initial_process, w) = (p, w')" and "wp_workerId p = Some v"
  shows "worker_find w v = None" and "worker_states w' = worker_states w @ [(v, Active)]"
    and "job_executions w' = job_executions w"
proof -
  from boot_run [OF assms] obtain row where row: "wk_id row = v" "wk_status row = Active" "worker_find w v = None"
      "w' = snd (tick (me_tick me) (me_cron me)
        (snd (write_heartbeat (me_beat me) v 0 (me_cpuLoad me) (snd (worker_create row w)))))"
    by blast
  have created: "workers (snd (worker_create row w)) = workers w @ [row]"
      "job_executions (snd (worker_create row w)) = job_executions w"
    using row(1,3) by (simp_all add: worker_create_def)
  show "worker_find w v = None" by (rule row(3))
  show "worker_states w' = worker_states w @ [(v, Active)]"
    unfolding row(4) states_of_workers [OF tick_workers] beat_states using row(1,2) by (simp add: worker_states_def created)
  show "job_executions w' = job_executions w"
    using serves_execs [of "Tick (me_tick me) (me_cron me)"] serves_execs [of "Beat (me_beat me) v 0 (me_cpuLoad me)"]
    by (simp add: row(4) created)
qed

section \<open>Every step keeps the roster\<close>

lemma on_time_roster:
  assumes "on_time_step e late s t" and "roster s" and "in_time e late s" and "one_holder (td_fleet s)"
    and "beat_period e + late \<le> HEARTBEAT_TTL_SECONDS e * 1000"
  shows "roster t"
  using assms(1)
proof (cases rule: on_time_step.cases)
  case (elapses t')
  then show ?thesis using assms(2) by (simp add: roster_def)
next
  case (boots me p w v ticked)
  note booted = boot_states [OF boots(2,3)]
  note before = rosterD [OF assms(2)]
  have new: "v \<notin> fst ` set (worker_states (ft_world (td_fleet s)))"
    using booted(1) worker_find_states by blast
  have same: "open_jobs u w = open_jobs u (ft_world (td_fleet s))" for u by (rule open_jobs_same [OF booted(3)])
  show ?thesis
  proof (rule rosterI)
    show "distinct (map fst (worker_states (ft_world (td_fleet t))))"
      using before(1) new by (simp add: boots(1) booted(2))
  next
    fix x st
    assume "(x, st) \<in> set (worker_states (ft_world (td_fleet t)))" "x \<notin> ft_crashed (td_fleet t)" "x \<notin> td_stopping t"
    then show "st = Active" using before(2) by (auto simp: boots(1) booted(2))
  next
    fix u assume "u \<notin> td_stopping t" "open_jobs u (ft_world (td_fleet t)) \<noteq> {}"
    then show "(u, Active) \<in> set (worker_states (ft_world (td_fleet t)))"
      using before(3) [of u] same [of u] by (simp add: boots(1) booted(2))
  qed
next
  case (beats v tm env n cpu)
  have "open_jobs u (snd (write_heartbeat env v n cpu w)) = open_jobs u w" for u w
    using serves_execs [of "Beat env v n cpu" w] by (intro open_jobs_same) simp
  then show ?thesis unfolding beats(1) by (intro roster_frame [OF assms(2)]) (simp_all add: beat_states)
next
  case (reaps v tm env)
  define w where "w = ft_world (td_fleet s)"
  define D where "D = set (stale_workers (HEARTBEAT_TTL_SECONDS e) (td_now s) w)"
  have rows: "\<forall>x\<in>set (job_executions w). job_find w (x_jobId x) \<noteq> None"
    using one_holderD(2) [OF assms(4)] by (auto simp: rows_named_def w_def job_find_def find_by_None_iff)
  from reap_run [OF reaps(4) rows] obtain w' where w': "snd (reap env (HEARTBEAT_TTL_SECONDS e) w) = w'"
      "reaped (stale_jobs (HEARTBEAT_TTL_SECONDS e) (td_now s) w) D w w'"
    unfolding reaps(3) D_def by (metis snd_conv)
  have crashed: "D \<subseteq> ft_crashed (td_fleet s)"
    using in_time_accurate [OF assms(3,5) reaps(3,4)] by (simp add: accurate_def D_def w_def reaps(3))
  have states: "worker_states w' = map (\<lambda>(v, st). (v, if v \<in> D then Dead else st)) (worker_states w)"
    using w'(2) by (simp add: reaped_def)
  have "open_jobs u w' = open_jobs u w - stale_jobs (HEARTBEAT_TTL_SECONDS e) (td_now s) w" for u
    by (rule open_jobs_reaped [OF w'(2)])
  then have opened: "u \<notin> D \<and> open_jobs u w \<noteq> {}" if "open_jobs u w' \<noteq> {}" for u
    using that by (auto simp: stale_jobs_def D_def)
  have t: "td_fleet t = (td_fleet s)\<lparr>ft_world := w'\<rparr>" "td_stopping t = td_stopping s"
    by (simp_all add: reaps(1) w'(1) [unfolded w_def])
  show ?thesis
  proof (rule rosterI)
    show "distinct (map fst (worker_states (ft_world (td_fleet t))))"
      using rosterD(1) [OF assms(2)] by (simp add: t states comp_def case_prod_beta w_def)
  next
    fix x st
    assume "(x, st) \<in> set (worker_states (ft_world (td_fleet t)))" "x \<notin> ft_crashed (td_fleet t)" "x \<notin> td_stopping t"
    then show "st = Active" using rosterD(2) [OF assms(2)] crashed by (auto simp: t states w_def)
  next
    fix u assume "u \<notin> td_stopping t" "open_jobs u (ft_world (td_fleet t)) \<noteq> {}"
    with opened [of u] rosterD(3) [OF assms(2), of u] show "(u, Active) \<in> set (worker_states (ft_world (td_fleet t)))"
      by (force simp: t states w_def)
  qed
next
  case (ticks v tm env cron)
  have "open_jobs u (snd (tick env cron w)) = open_jobs u w" for u w
    using serves_execs [of "Tick env cron" w] by (intro open_jobs_same) simp
  then show ?thesis
    unfolding ticks(1) by (intro roster_frame [OF assms(2)]) (simp_all add: states_of_workers [OF tick_workers])
next
  case (claims v f env locked q limit r w)
  have "distinct (map j_id (jobs (ft_world f)))" using one_holderD(1) [OF assms(4)] claims(3) by simp
  with claims(4) have "job_executions w = job_executions (ft_world f)" by (rule claimJobs_effect)
  then have "open_jobs u w = open_jobs u (ft_world f)" for u by (rule open_jobs_same)
  moreover have "worker_states w = worker_states (ft_world f)"
    by (rule states_of_workers [OF guarD' [OF same_workers.claimJobs_R claims(4)]])
  ultimately show ?thesis unfolding claims(1) using claims(3) by (intro roster_frame [OF assms(2)]) simp_all
next
  case (begins v i f xenv r' w)
  have ws: "worker_states w = worker_states (ft_world f)"
    by (rule states_of_workers [OF guarD' [OF same_workers.flight_R(1) begins(4)]])
  note before = rosterD [OF assms(2), unfolded begins(3)]
  have live: "v \<notin> ft_crashed f" using one_holderD(4) [OF assms(4), unfolded begins(3), OF begins(2)] by simp
  have "(u, Active) \<in> set (worker_states w)" if stays: "u \<notin> td_stopping s" and opened: "open_jobs u w \<noteq> {}" for u
  proof (cases "open_jobs u (ft_world f) = {}")
    case False
    then show ?thesis using before(3) stays ws by simp
  next
    case True
    with opened have "job_executions w \<noteq> job_executions (ft_world f)" using open_jobs_same by metis
    then obtain fl where fl: "r' = Inr (Some fl)" "job_executions w = job_executions (ft_world f) @ [fl_execution fl]"
        "x_workerId (fl_execution fl) = v"
      using begin_job_effect [OF begins(4)] by blast
    have "u = v" using opened True fl by (auto simp: open_jobs_exec)
    moreover have "v \<in> fst ` set (worker_states (ft_world f))"
      using begin_job_worker begins(4) fl(1) worker_find_states by blast
    ultimately show ?thesis using before(2) live stays ws by fastforce
  qed
  then show ?thesis
    using before(1,2) unfolding begins(1) by (intro rosterI) (simp_all add: ws)
next
  case (finishes v fl f xenv)
  have ws: "worker_states (snd (finish_job xenv fl w)) = worker_states w" for w
    by (rule states_of_workers [OF guarD [OF same_workers.flight_R(2)]])
  have "open_jobs u (snd (finish_job xenv fl w)) \<subseteq> open_jobs u w" for u w
    using finish_job_effect [of fl w xenv] unfolding finishes_run_def
    by (auto simp: open_jobs_exec closing_def update_by_def split: if_splits)
  then show ?thesis
    unfolding finishes(1) using finishes(3) by (intro roster_frame [OF assms(2)]) (simp_all add: ws)
next
  case (crashes f v)
  then show ?thesis unfolding crashes(1) by (intro roster_frame [OF assms(2)]) auto
next
  case (stops v p f menv)
  then show ?thesis using shutdown_marked(1) [OF stops(3)] by (intro roster_marked [OF assms(2), of v]) simp_all
next
  case (exits v p f menv)
  then show ?thesis
    using shutdown_marked(2) [OF exits(3)] by (intro roster_marked [OF assms(2), of v]) (auto simp: insert_absorb)
next
  case (requests x)
  have "plain x" using requests(2) by (cases x) simp_all
  then have "open_jobs u (fst (serve x (w, {#}))) = open_jobs u w" for u w by (intro open_jobs_same serves_execs)
  then show ?thesis
    unfolding requests(1)
    by (intro roster_frame [OF assms(2)]) (simp_all add: states_of_workers [OF request_workers [OF requests(2)]])
qed

section \<open>After a reap\<close>

text \<open>No active worker was stale at \<open>since\<close>.\<close>

definition cleaned :: "int \<Rightarrow> timestamp \<Rightarrow> world \<Rightarrow> bool" where
  "cleaned ttl since w \<longleftrightarrow> (\<forall>r\<in>set (workers w). wk_status r = Active \<longrightarrow> since - ttl * 1000 \<le> wk_lastHeartbeatAt r)"

lemma cleaned_reap:
  assumes "\<And>p. fails env p = None" and "\<forall>x\<in>set (job_executions w). job_find w (x_jobId x) \<noteq> None"
  shows "cleaned ttl (clock env R_find) (snd (reap env ttl w))"
    and "cleaned ttl since w \<Longrightarrow> cleaned ttl since (snd (reap env ttl w))"
proof -
  define w' where "w' = snd (reap env ttl w)"
  have origin: "\<exists>r\<in>set (workers w). wk_id r' = wk_id r \<and> wk_lastHeartbeatAt r' = wk_lastHeartbeatAt r \<and> wk_status r = Active"
    if "r' \<in> set (workers w')" "wk_status r' = Active" for r'
    using reap_only_dead [of w env ttl] that
    by (fastforce simp: only_dead_def list_all2_conv_all_nth in_set_conv_nth w'_def [symmetric])
  show "cleaned ttl since (snd (reap env ttl w))" if "cleaned ttl since w"
    using that origin unfolding cleaned_def w'_def [symmetric] by fastforce
  from reap_run [OF assms, of ttl] have states: "worker_states w' =
      map (\<lambda>(v, st). (v, if v \<in> set (stale_workers ttl (clock env R_find) w) then Dead else st)) (worker_states w)"
    by (auto simp: w'_def reaped_def)
  have "\<not> stale_worker ttl (clock env R_find) r"
    if r: "r \<in> set (workers w)" "wk_id r' = wk_id r" "r' \<in> set (workers w')" "wk_status r' = Active" for r r'
  proof
    assume "stale_worker ttl (clock env R_find) r"
    then have "wk_id r' \<in> set (stale_workers ttl (clock env R_find) w)" using r(1,2) by (auto simp: stale_workers_def)
    moreover have "(wk_id r', Active) \<in> set (worker_states w')" using r(3,4) by (force simp: worker_states_def)
    ultimately show False by (auto simp: states split: if_splits)
  qed
  then show "cleaned ttl (clock env R_find) (snd (reap env ttl w))"
    using origin unfolding cleaned_def w'_def [symmetric] stale_worker_def by fastforce
qed

text \<open>What worker \<open>u\<close> watches over: it has reaped since \<open>b\<close>, or will within the period of its interval.\<close>

definition watching :: "worker_env \<Rightarrow> timestamp \<Rightarrow> ident \<Rightarrow> timed_fleet \<Rightarrow> bool" where
  "watching e b u s \<longleftrightarrow> worker_find (ft_world (td_fleet s)) u \<noteq> None \<and> (u \<notin> ft_crashed (td_fleet s) \<longrightarrow>
     (\<exists>since\<le>td_now s. pending Reap_task REAPER_INTERVAL_MS since (td_loop s u) \<and>
       (since = b \<or> cleaned (HEARTBEAT_TTL_SECONDS e) since (ft_world (td_fleet s)))))"

lemma watchingI:
  assumes "worker_find (ft_world (td_fleet s)) u \<noteq> None"
    and "u \<notin> ft_crashed (td_fleet s) \<Longrightarrow> since \<le> td_now s \<and>
      pending Reap_task REAPER_INTERVAL_MS since (td_loop s u) \<and>
      (since = b \<or> cleaned (HEARTBEAT_TTL_SECONDS e) since (ft_world (td_fleet s)))"
  shows "watching e b u s"
  using assms unfolding watching_def by blast

text \<open>Steps that leave the loops alone, and steps that write the rows of workers only upwards.\<close>

definition rows_rise :: "timestamp \<Rightarrow> world \<Rightarrow> world \<Rightarrow> bool" where
  "rows_rise now s t \<longleftrightarrow> fst ` set (beat_marks s) \<subseteq> fst ` set (beat_marks t) \<and>
     (\<forall>r'\<in>set (workers t). wk_status r' = Active \<longrightarrow> wk_lastHeartbeatAt r' = now \<or> r' \<in> set (workers s))"

lemma find_marks: "worker_find w v \<noteq> None \<longleftrightarrow> v \<in> fst ` set (beat_marks w)"
  by (force simp: worker_find_def find_by_None_iff beat_marks_def)

lemma rows_riseI:
  assumes "set (map wk_id (workers s)) \<subseteq> set (map wk_id (workers t))"
    and "\<And>r'. r' \<in> set (workers t) \<Longrightarrow> wk_lastHeartbeatAt r' = now \<or> r' \<in> set (workers s)"
  shows "rows_rise now s t"
proof -
  have "fst ` set (beat_marks w) = set (map wk_id (workers w))" for w by (force simp: beat_marks_def)
  then show ?thesis using assms by (simp add: rows_rise_def)
qed

lemma beat_ids: "map wk_id (workers (snd (write_heartbeat env v n cpu w))) = map wk_id (workers w)"
  by (simp add: write_heartbeat_workers update_by_def)

lemma cleaned_rise:
  "cleaned ttl since s \<Longrightarrow> rows_rise now s t \<Longrightarrow> since \<le> now \<Longrightarrow> 0 \<le> ttl \<Longrightarrow> cleaned ttl since t"
  unfolding cleaned_def rows_rise_def by fastforce

lemma rise_same: "workers t = workers s \<Longrightarrow> rows_rise now s t"
  by (simp add: rows_rise_def beat_marks_def)

lemma rise_marked: "marked v s t \<Longrightarrow> rows_rise now s t"
  using marked_rows(2,3) [of v s t] by (auto simp: rows_rise_def update_by_def)

lemma watching_frame:
  assumes "watching e b u s" and "rows_rise (td_now s) (ft_world (td_fleet s)) (ft_world (td_fleet t))"
    and "ft_crashed (td_fleet s) \<subseteq> ft_crashed (td_fleet t)" and "td_now s \<le> td_now t" and "0 \<le> HEARTBEAT_TTL_SECONDS e"
    and "\<And>since. u \<notin> ft_crashed (td_fleet t) \<Longrightarrow> pending Reap_task REAPER_INTERVAL_MS since (td_loop s u) \<Longrightarrow>
      pending Reap_task REAPER_INTERVAL_MS since (td_loop t u)"
  shows "watching e b u t"
proof (cases "u \<in> ft_crashed (td_fleet t)")
  case True
  then show ?thesis using assms(1,2) unfolding watching_def find_marks rows_rise_def by blast
next
  case False
  then obtain since where "since \<le> td_now s" "pending Reap_task REAPER_INTERVAL_MS since (td_loop s u)"
      "since = b \<or> cleaned (HEARTBEAT_TTL_SECONDS e) since (ft_world (td_fleet s))"
    using assms(1,3) by (auto simp: watching_def)
  moreover have "worker_find (ft_world (td_fleet t)) u \<noteq> None"
    using assms(1,2) unfolding watching_def find_marks rows_rise_def by blast
  ultimately show ?thesis
    using assms(4) cleaned_rise [OF _ assms(2) _ assms(5)] assms(6) [OF False] by (intro watchingI [where since = since]) auto
qed

lemma may_fire_pending:
  assumes "in_time e late s" and "may_fire s v tm task" and "task \<noteq> Reap_task" and "u \<notin> ft_crashed (td_fleet s)"
    and "pending Reap_task p since (td_loop s u)"
  shows "pending Reap_task p since (((td_loop s)(v := fire_timer (td_now s) tm (td_loop s v))) u)"
  using assms fire_timer_loop(3) [OF in_timeD(1) [OF assms(1), of v], of tm Reap_task p since]
  by (auto simp: may_fire_def)

lemma on_time_watching:
  assumes "on_time_step e late s t" and "watching e b u s" and "in_time e late s" and "one_holder (td_fleet s)"
    and ttl: "0 \<le> HEARTBEAT_TTL_SECONDS e"
  shows "watching e b u t"
  using assms(1)
proof (cases rule: on_time_step.cases)
  case (elapses t')
  then show ?thesis by (intro watching_frame [OF assms(2)]) (simp_all add: rise_same ttl)
next
  case (boots me p w v ticked)
  from boot_run [OF boots(2,3)] obtain row where row: "wk_id row = v" "wk_lastHeartbeatAt row = td_now s"
      "worker_find (ft_world (td_fleet s)) v = None"
      "w = snd (tick (me_tick me) (me_cron me)
        (snd (write_heartbeat (me_beat me) v 0 (me_cpuLoad me) (snd (worker_create row (ft_world (td_fleet s)))))))"
    unfolding boots(5) by blast
  have "workers (snd (worker_create row (ft_world (td_fleet s)))) = workers (ft_world (td_fleet s)) @ [row]"
    using row(1,3) by (simp add: worker_create_def)
  then have "rows_rise (td_now s) (ft_world (td_fleet s)) w"
    using row(2) unfolding row(4)
    by (intro rows_riseI) (simp_all only: tick_workers beat_ids, auto simp: write_heartbeat_workers update_by_def boots(6) split: if_splits)
  moreover have "u \<noteq> v" using assms(2) row(3) by (auto simp: watching_def)
  ultimately show ?thesis unfolding boots(1) by (intro watching_frame [OF assms(2)]) (simp_all add: ttl)
next
  case (beats v tm env n cpu)
  have "rows_rise (td_now s) (ft_world (td_fleet s)) (snd (write_heartbeat env v n cpu (ft_world (td_fleet s))))"
    using beats(3,4) by (intro rows_riseI) (simp_all only: beat_ids, auto simp: write_heartbeat_workers update_by_def split: if_splits)
  then show ?thesis
    unfolding beats(1) using may_fire_pending [OF assms(3) beats(2)]
    by (intro watching_frame [OF assms(2)]) (simp_all add: ttl)
next
  case (reaps v tm env)
  define w where "w = ft_world (td_fleet s)"
  have rows: "\<forall>x\<in>set (job_executions w). job_find w (x_jobId x) \<noteq> None"
    using one_holderD(2) [OF assms(4)] by (auto simp: rows_named_def w_def job_find_def find_by_None_iff)
  note clean = cleaned_reap [OF reaps(4) rows, unfolded reaps(3)]
  have here: "worker_find (snd (reap env ttl w)) u \<noteq> None" for ttl
    using assms(2) unfolding watching_def find_marks by (simp add: reap_marks w_def)
  show ?thesis
  proof (cases "u \<in> ft_crashed (td_fleet s)")
    case True
    then show ?thesis unfolding reaps(1) using here by (intro watchingI) (simp_all add: w_def)
  next
    case False
    then obtain since where since: "since \<le> td_now s" "pending Reap_task REAPER_INTERVAL_MS since (td_loop s u)"
        "since = b \<or> cleaned (HEARTBEAT_TTL_SECONDS e) since w"
      using assms(2) by (auto simp: watching_def w_def)
    show ?thesis
    proof (cases "u = v")
      case True
      have "pending Reap_task REAPER_INTERVAL_MS (td_now s) (fire_timer (td_now s) tm (td_loop s v))"
        using fire_timer_loop(4) [OF in_timeD(1) [OF assms(3)] _ since(2) since(1)] False True reaps(2) by (simp add: may_fire_def)
      then show ?thesis
        unfolding reaps(1) using here clean(1) True by (intro watchingI [where since = "td_now s"]) (simp_all add: w_def)
    next
      case other: False
      then show ?thesis
        unfolding reaps(1) using here since clean(2) by (intro watchingI [where since = since]) (auto simp: w_def)
    qed
  qed
next
  case (ticks v tm env cron)
  then show ?thesis
    unfolding ticks(1) using may_fire_pending [OF assms(3) ticks(2)]
    by (intro watching_frame [OF assms(2)]) (simp_all add: ttl rise_same tick_workers)
next
  case (claims v f env locked q limit r w)
  have "workers w = workers (ft_world f)" by (rule guarD' [OF same_workers.claimJobs_R claims(4)])
  then show ?thesis unfolding claims(1) using claims(3) by (intro watching_frame [OF assms(2)]) (simp_all add: ttl rise_same)
next
  case (begins v i f xenv r' w)
  have "workers w = workers (ft_world f)" by (rule guarD' [OF same_workers.flight_R(1) begins(4)])
  then show ?thesis unfolding begins(1) using begins(3) by (intro watching_frame [OF assms(2)]) (simp_all add: ttl rise_same)
next
  case (finishes v fl f xenv)
  have "workers (snd (finish_job xenv fl (ft_world f))) = workers (ft_world f)" by (rule guarD [OF same_workers.flight_R(2)])
  then show ?thesis unfolding finishes(1) using finishes(3) by (intro watching_frame [OF assms(2)]) (simp_all add: ttl rise_same)
next
  case (crashes f v)
  then show ?thesis unfolding crashes(1) by (intro watching_frame [OF assms(2)]) (auto simp: ttl rise_same)
next
  case (stops v p f menv)
  then show ?thesis
    unfolding stops(1) using rise_marked [OF shutdown_marked(1) [OF stops(3)]]
    by (intro watching_frame [OF assms(2)]) (simp_all add: ttl)
next
  case (exits v p f menv)
  then show ?thesis
    unfolding exits(1) using rise_marked [OF shutdown_marked(2) [OF exits(3)]]
    by (intro watching_frame [OF assms(2)]) (auto simp: ttl)
next
  case (requests x)
  then show ?thesis unfolding requests(1)
    by (intro watching_frame [OF assms(2)]) (simp_all add: ttl rise_same request_workers)
qed

section \<open>A crash is repaired in time\<close>

lemma on_time_run_roster:
  assumes "(on_time_step e late)\<^sup>*\<^sup>* s t" and "roster s" and "in_time e late s" and "one_holder (td_fleet s)"
    and "0 \<le> late" and "beat_period e + late \<le> HEARTBEAT_TTL_SECONDS e * 1000"
  shows "roster t \<and> in_time e late t \<and> one_holder (td_fleet t) \<and> (watching e b u s \<longrightarrow> watching e b u t)"
  using assms(1)
proof (induction rule: rtranclp_induct)
  case (step t t')
  have "1 \<le> beat_period e" by (simp add: timer_delay_def)
  then have ttl: "0 \<le> HEARTBEAT_TTL_SECONDS e" using assms(5,6) by simp
  have "one_holder g" if "(fleet_step True)\<^sup>*\<^sup>* f g" "one_holder f" for f g
    using that by (induction rule: rtranclp_induct) (auto intro: one_holder_step)
  then show ?case
    using step(3) on_time_step_exact [OF step(2) _ assms(5,6)] on_time_roster [OF step(2) _ _ _ assms(6)]
      on_time_watching [OF step(2) _ _ _ ttl] by blast
qed (use assms in simp)

lemma fresh_roster:
  assumes "fresh_timed s" and "distinct (map wk_id (workers (ft_world (td_fleet s))))"
  shows "roster s"
proof -
  have "open_jobs v (ft_world (td_fleet s)) = {}" for v
    using assms(1) by (auto simp: fresh_timed_def fresh_fleet_def open_jobs_exec list_all_iff)
  moreover have "wk_id r \<in> ft_crashed (td_fleet s)" if "r \<in> set (workers (ft_world (td_fleet s)))" for r
    using assms(1) that by (force simp: fresh_timed_def beat_marks_def)
  ultimately show ?thesis using assms(2) by (auto simp: roster_def worker_states_def comp_def)
qed


text \<open>
  A run: a worker crashed long ago, another one boots, and its three timers of the reaper fire at
  30 s, the earliest of them late.
\<close>

definition slow_settings :: worker_env where
  "slow_settings = \<lparr>we_heartbeat_interval_ms = Some 100000, we_heartbeat_ttl_seconds = Some 200,
     we_scheduler_tick_ms = Some 100000\<rparr>"

definition old_worker :: Worker where
  "old_worker = \<lparr>wk_id = ''old'', wk_hostname = ''host'', wk_pid = 3, wk_status = Active, wk_startedAt = - 2000000,
     wk_lastHeartbeatAt = - 1000000\<rparr>"

definition one_crashed :: timed_fleet where
  "one_crashed = \<lparr>td_now = 0, td_fleet = \<lparr>ft_world = empty_world\<lparr>workers := [old_worker]\<rparr>, ft_held = {#},
     ft_crashed = {''old''}\<rparr>, td_loop = (\<lambda>v. idle_loop), td_stopping = {}\<rparr>"

abbreviation reaped_at :: "ident \<Rightarrow> timer \<Rightarrow> timed_fleet \<Rightarrow> timed_fleet" where
  "reaped_at u tm s \<equiv> with_loop u (fire_timer (td_now s) tm (td_loop s u))
     (with_world (snd (reap (calm_env (td_now s)) (HEARTBEAT_TTL_SECONDS slow_settings) (ft_world (td_fleet s)))) s)"

lemma reaped_step:
  "may_fire s u tm Reap_task \<Longrightarrow> on_time_step slow_settings late s (reaped_at u tm s)"
  by (rule on_time_step.reaps) simp_all

definition slow_loop :: "timer list \<Rightarrow> event_loop" where
  "slow_loop tms = \<lparr>el_next = 6, el_timers = \<lparr>tm_id = 0, tm_due = 100000, tm_every = Some 100000, tm_task = Beat_task\<rparr> #
     tms @ [\<lparr>tm_id = 5, tm_due = 100000, tm_every = Some 100000, tm_task = Tick_task\<rparr>]\<rparr>"

definition kick :: timer where
  "kick = \<lparr>tm_id = 3, tm_due = 10000, tm_every = None, tm_task = Reap_task\<rparr>"

lemmas slow_defs = slow_settings_def slow_loop_def kick_def reap_timer_def

lemma slow_start:
  "snd (start_services slow_settings 0 0) = slow_loop [reap_timer 2 30000, kick, reap_timer 4 30000]"
  by (simp add: start_services_def startHeartbeatWriter_def startReaper_def startScheduler_def idle_loop_def env_number_def
      HEARTBEAT_INTERVAL_MS_def SCHEDULER_TICK_MS_def timer_defs slow_defs)

lemma slow_fires:
  "fire_timer 30000 kick (slow_loop [reap_timer 2 30000, kick, reap_timer 4 30000]) =
     slow_loop [reap_timer 2 30000, reap_timer 4 30000]"
  "fire_timer 30000 (reap_timer 2 30000) (slow_loop [reap_timer 2 30000, reap_timer 4 30000]) =
     slow_loop [reap_timer 2 60000, reap_timer 4 30000]"
  "fire_timer 30000 (reap_timer 4 30000) (slow_loop [reap_timer 2 60000, reap_timer 4 30000]) =
     slow_loop [reap_timer 2 60000, reap_timer 4 60000]"
  by (simp_all add: timer_defs slow_defs)

lemma one_crashed_fresh: "fresh_timed one_crashed" "distinct (map wk_id (workers (ft_world (td_fleet one_crashed))))"
  by (simp_all add: fresh_timed_def one_crashed_def old_worker_def fresh_fleet_def rows_named_def empty_world_def beat_marks_def)


end
