(* ===== verification/WebClient.thy ===== *)
theory WebClient
  imports Routes
begin

text \<open>
  \<open>web/lib/api.ts\<close>: the wrapper of \<open>fetch\<close> the pages use. It keeps the access token in
  \<open>localStorage\<close>, sends it with each call, and on a 401 exchanges the refresh cookie for a new token
  and repeats the call once. The browser and the server behind \<open>fetch\<close> are an argument, a
  function on a state of its own (\<open>we_fetch\<close>): it answers, or rejects (\<open>None\<close>). A response whose body is not
  JSON has \<open>fr_json = None\<close>.
\<close>

record fetch_request =
  ft_url :: string
  ft_method :: string
  ft_headers :: "(string \<times> string) list"
  ft_body :: "string option"

record fetch_response =
  fr_status :: int
  fr_statusText :: string
  fr_json :: "json option"

definition fr_ok :: "fetch_response \<Rightarrow> bool" where
  "fr_ok res \<longleftrightarrow> 200 \<le> fr_status res \<and> fr_status res \<le> 299"

record 's web_env =
  we_fetch :: "fetch_request \<Rightarrow> 's \<Rightarrow> fetch_response option \<times> 's"
  we_base :: string
  we_text :: "json \<Rightarrow> string"  \<comment> \<open>\<open>String(v)\<close> of a value that is not a string\<close>
  we_stringify :: "json \<Rightarrow> string"  \<comment> \<open>\<open>JSON.stringify\<close>\<close>
  we_parse :: "string \<Rightarrow> json option"  \<comment> \<open>\<open>JSON.parse\<close>, \<open>None\<close> for a \<open>SyntaxError\<close>\<close>

record browser =
  br_token :: "string option"  \<comment> \<open>\<open>localStorage\<close>, \<open>chronos_access_token\<close>\<close>
  br_user :: "string option"  \<comment> \<open>\<open>chronos_user\<close>\<close>
  br_location :: string

type_synonym ('s, 'a) page_action = "(browser \<times> 's, js_error, 'a) act"

definition getToken :: "browser \<Rightarrow> string option" where
  "getToken b = br_token b"

definition setToken :: "string \<Rightarrow> browser \<Rightarrow> browser" where
  "setToken t b = b\<lparr>br_token := Some t\<rparr>"

definition clearToken :: "browser \<Rightarrow> browser" where
  "clearToken b = b\<lparr>br_token := None, br_user := None\<rparr>"

definition do_fetch :: "'s web_env \<Rightarrow> fetch_request \<Rightarrow> ('s, fetch_response) page_action" where
  "do_fetch env r s = (case we_fetch env r (snd s) of
     (None, t) \<Rightarrow> (Inl (PlainError ''Failed to fetch''), (fst s, t))
   | (Some res, t) \<Rightarrow> (Inr res, (fst s, t)))"

text \<open>
  A value of JavaScript is \<open>None\<close> when it is \<open>undefined\<close>. Reading a property of \<open>undefined\<close> or of
  \<open>null\<close> throws; arrays and strings have a length and a first element.
\<close>

type_synonym js = "json option"

fun get_prop :: "json \<Rightarrow> string \<Rightarrow> js" where
  "get_prop (JArr vs) k = (if k = ''length'' then Some (jint (int (length vs)))
     else if k = ''0'' \<and> vs \<noteq> [] then Some (hd vs) else None)"
| "get_prop (JStr t) k = (if k = ''length'' then Some (jint (int (length t)))
     else if k = ''0'' \<and> t \<noteq> [] then Some (JStr [hd t]) else None)"
| "get_prop v k = jget v k"

definition cannot_read :: "string \<Rightarrow> string \<Rightarrow> js_error" where
  "cannot_read what k = PlainError
     (''Cannot read properties of '' @ what @ '' (reading '' @ [CHR 0x27] @ k @ [CHR 0x27] @ '')'')"

definition read_prop :: "js \<Rightarrow> string \<Rightarrow> ('s, js_error, js) act" where
  "read_prop v k = (case v of
     None \<Rightarrow> throwA (cannot_read ''undefined'' k)
   | Some x \<Rightarrow> if x = JNull then throwA (cannot_read ''null'' k) else retA (get_prop x k))"

definition the_json :: "fetch_response \<Rightarrow> ('s, json) page_action" where
  "the_json res = someA (PlainError ''Unexpected end of JSON input'') (fr_json res)"

definition on_browser :: "(browser \<Rightarrow> browser) \<Rightarrow> ('s, unit) page_action" where
  "on_browser f = modifyA (\<lambda>(b, t). (f b, t))"

section \<open>Refreshing the token\<close>

definition refresh_request :: "string \<Rightarrow> fetch_request" where
  "refresh_request base = \<lparr>ft_url = base @ ''/api/auth/refresh'', ft_method = ''POST'', ft_headers = [], ft_body = None\<rparr>"

definition as_text :: "'s web_env \<Rightarrow> json \<Rightarrow> string" where
  "as_text env v = (case v of JStr t \<Rightarrow> t | _ \<Rightarrow> we_text env v)"

definition refreshToken :: "'s web_env \<Rightarrow> ('s, bool) page_action" where
  "refreshToken env =
     bindA (do_fetch env (refresh_request (we_base env))) (\<lambda>res.
     if \<not> fr_ok res then retA False
     else bindA (the_json res) (\<lambda>data.
       bindA (read_prop (Some data) ''accessToken'') (\<lambda>token.
       case token of
         None \<Rightarrow> retA False
       | Some v \<Rightarrow> if truthy v then bindA (on_browser (setToken (as_text env v))) (\<lambda>_. retA True)
           else retA False)))"

section \<open>The signed-in user\<close>

text \<open>A template literal, and what \<open>localStorage\<close> keeps of a value: \<open>undefined\<close> is written out.\<close>

definition shown :: "'s web_env \<Rightarrow> js \<Rightarrow> string" where
  "shown env v = (case v of None \<Rightarrow> ''undefined'' | Some x \<Rightarrow> as_text env x)"

definition storeUser :: "'s web_env \<Rightarrow> js \<Rightarrow> js \<Rightarrow> browser \<Rightarrow> browser" where
  "storeUser env user token b = (setToken (shown env token) b)\<lparr>br_user :=
     Some (case user of None \<Rightarrow> ''undefined'' | Some v \<Rightarrow> we_stringify env v)\<rparr>"

definition getUser :: "'s web_env \<Rightarrow> ('s, json) page_action" where
  "getUser env =
     bindA (readA (\<lambda>(b, t). br_user b)) (\<lambda>raw.
     case truthy_str raw of
       None \<Rightarrow> retA JNull
     | Some t \<Rightarrow> someA (PlainError ''Unexpected token in JSON'') (we_parse env t))"

section \<open>apiFetch\<close>

record options =
  op_method :: string
  op_headers :: "(string \<times> string) list"
  op_body :: "string option"

text \<open>Setting a field of an object literal: a later one replaces an earlier one of the same name.\<close>

definition api_request :: "string \<Rightarrow> string \<Rightarrow> options \<Rightarrow> string option \<Rightarrow> fetch_request" where
  "api_request base path opts token =
     (let headers = foldl (\<lambda>hs (k, v). AList.update k v hs) [(''Content-Type'', ''application/json'')] (op_headers opts)
      in \<lparr>ft_url = base @ ''/api'' @ path, ft_method = op_method opts,
          ft_headers = (case truthy_str token of
             None \<Rightarrow> headers | Some t \<Rightarrow> AList.update ''Authorization'' (''Bearer '' @ t) headers),
          ft_body = op_body opts\<rparr>)"

definition error_text :: "'s web_env \<Rightarrow> fetch_response \<Rightarrow> string" where
  \<comment> \<open>\<open>err?.error?.message ?? 'Request failed'\<close>, with \<open>statusText\<close> for a body that is not JSON\<close>
  "error_text env res = (case fr_json res of
     None \<Rightarrow> fr_statusText res
   | Some err \<Rightarrow> (case Option.bind (jget err ''error'') (\<lambda>e. jget e ''message'') of
       None \<Rightarrow> ''Request failed''
     | Some m \<Rightarrow> if m = JNull then ''Request failed'' else as_text env m))"

definition conclude :: "'s web_env \<Rightarrow> fetch_response \<Rightarrow> ('s, js) page_action" where
  "conclude env res =
     (if \<not> fr_ok res then throwA (PlainError (error_text env res))
      else if fr_status res = 204 then retA None
      else bindA (the_json res) (\<lambda>v. retA (Some v)))"

function apiFetch :: "'s web_env \<Rightarrow> string \<Rightarrow> options \<Rightarrow> bool \<Rightarrow> ('s, js) page_action" where
  "apiFetch env path opts again =
     bindA (readA (\<lambda>(b, t). getToken b)) (\<lambda>token.
     bindA (do_fetch env (api_request (we_base env) path opts token)) (\<lambda>res.
     if fr_status res = 401 \<and> again then
       bindA (refreshToken env) (\<lambda>ok.
       if ok then apiFetch env path opts False
       else bindA (on_browser clearToken) (\<lambda>_.
         bindA (on_browser (\<lambda>b. b\<lparr>br_location := ''/login''\<rparr>)) (\<lambda>_.
         throwA (PlainError ''Unauthorized''))))
     else conclude env res))"
  by pat_completeness auto

termination
  by (relation "measure (\<lambda>(env, path, opts, again). if again then 1 else 0)") auto

declare apiFetch.simps [simp del]

section \<open>How many calls one apiFetch makes\<close>

text \<open>The same server, recording the requests it gets.\<close>

definition logging :: "'s web_env \<Rightarrow> (fetch_request list \<times> 's) web_env" where
  "logging env = \<lparr>we_fetch = (\<lambda>r (calls, t). case we_fetch env r t of (res, t') \<Rightarrow> (res, (calls @ [r], t'))),
     we_base = we_base env, we_text = we_text env, we_stringify = we_stringify env, we_parse = we_parse env\<rparr>"

definition logged :: "browser \<times> (fetch_request list \<times> 's) \<Rightarrow> fetch_request list" where
  "logged s = fst (snd s)"

lemma do_fetch_logging:
  "do_fetch (logging env) r (b, (calls, t)) =
    (case we_fetch env r t of (None, t') \<Rightarrow> (Inl (PlainError ''Failed to fetch''), (b, (calls @ [r], t')))
     | (Some res, t') \<Rightarrow> (Inr res, (b, (calls @ [r], t'))))"
  by (simp add: do_fetch_def logging_def split: prod.split option.split)

text \<open>The parts of a call that do not fetch.\<close>

lemma logged_pure [simp]:
  "logged (snd (the_json res s)) = logged s" "logged (snd (conclude env res s)) = logged s"
  "logged (snd (on_browser f s)) = logged s"
  by (cases s; simp add: the_json_def conclude_def on_browser_def logged_def act_defs split: option.split)+

lemma we_base_logging [simp]: "we_base (logging env) = we_base env"
  by (simp add: logging_def)

lemma refresh_calls: "logged (snd (refreshToken (logging env) s)) = logged s @ [refresh_request (we_base env)]"
proof -
  obtain b calls t where s: "s = (b, (calls, t))" by (cases s) auto
  show ?thesis
    by (cases "we_fetch env (refresh_request (we_base env)) t")
      (auto simp: s refreshToken_def do_fetch_logging bindA_def retA_def the_json_def someA_def throwA_def
        on_browser_def modifyA_def logged_def read_prop_def split: option.split prod.split)
qed

definition api_url :: "'s web_env \<Rightarrow> string \<Rightarrow> string" where
  "api_url env path = we_base env @ ''/api'' @ path"

lemma ft_url_api_request [simp]: "ft_url (api_request base path opts token) = base @ ''/api'' @ path"
  by (simp add: api_request_def Let_def)

lemma single_call:
  "\<exists>r. logged (snd (apiFetch (logging env) path opts False s)) = logged s @ [r] \<and> ft_url r = api_url env path"
proof -
  obtain b calls t where s: "s = (b, (calls, t))" by (cases s) auto
  let ?r = "api_request (we_base env) path opts (br_token b)"
  have "logged (snd (apiFetch (logging env) path opts False s)) = calls @ [?r]"
  proof (cases "we_fetch env ?r t")
    case (Pair res t')
    then show ?thesis
      using logged_pure(2) [of "logging env" "the res" "(b, (calls @ [?r], t'))"]
      by (cases res) (auto simp: s apiFetch.simps [of _ path] bindA_def readA_def getToken_def do_fetch_logging logged_def)
  qed
  then show ?thesis by (simp add: s logged_def api_url_def)
qed

text \<open>
  C40. A call of \<open>apiFetch\<close> ends after at most three requests, whatever the server answers: the call
  alone, the call and the refresh, or the call, the refresh and the call again. A server that
  answers 401 for ever does not make it loop.
\<close>

theorem apiFetch_ends:
  "\<exists>new. logged (snd (apiFetch (logging env) path opts True s)) = logged s @ new \<and>
    map ft_url new \<in> {[api_url env path], [api_url env path, we_base env @ ''/api/auth/refresh''],
      [api_url env path, we_base env @ ''/api/auth/refresh'', api_url env path]}"
proof -
  obtain b calls t where s: "s = (b, (calls, t))" by (cases s) auto
  let ?r = "api_request (we_base env) path opts (br_token b)"
  let ?rest = "\<lambda>res. if fr_status res = 401 \<and> True then
       bindA (refreshToken (logging env)) (\<lambda>ok.
       if ok then apiFetch (logging env) path opts False
       else bindA (on_browser clearToken) (\<lambda>_.
         bindA (on_browser (\<lambda>b. b\<lparr>br_location := ''/login''\<rparr>)) (\<lambda>_.
         throwA (PlainError ''Unauthorized''))))
     else conclude (logging env) res"
  obtain res t' where f: "we_fetch env ?r t = (res, t')" by (cases "we_fetch env ?r t")
  show ?thesis
  proof (cases res)
    case None
    then have "logged (snd (apiFetch (logging env) path opts True s)) = calls @ [?r]"
      using f by (simp add: s apiFetch.simps [of _ path] bindA_def readA_def getToken_def do_fetch_logging logged_def)
    then show ?thesis by (intro exI [of _ "[?r]"]) (simp add: s logged_def api_url_def)
  next
    case (Some x)
    let ?s1 = "(b, (calls @ [?r], t'))"
    have run: "apiFetch (logging env) path opts True s = ?rest x ?s1"
      using f Some by (simp add: s apiFetch.simps [of _ path] bindA_def readA_def getToken_def do_fetch_logging)
    have log1: "logged ?s1 = logged s @ [?r]" by (simp add: s logged_def)
    show ?thesis
    proof (cases "fr_status x = 401")
      case False
      then have "logged (snd (apiFetch (logging env) path opts True s)) = logged s @ [?r]"
        using log1 by (simp add: run)
      then show ?thesis by (intro exI [of _ "[?r]"]) (simp add: api_url_def)
    next
      case True
      obtain ok s2 where r: "refreshToken (logging env) ?s1 = (ok, s2)"
        by (cases "refreshToken (logging env) ?s1")
      have log2: "logged s2 = logged s @ [?r, refresh_request (we_base env)]"
        using refresh_calls [of env ?s1] r log1 by simp
      have urls: "map ft_url [?r, refresh_request (we_base env)] =
          [api_url env path, we_base env @ ''/api/auth/refresh'']"
        by (simp add: refresh_request_def api_url_def)
      show ?thesis
      proof (cases "ok = Inr True")
        case True
        obtain r3 where "logged (snd (apiFetch (logging env) path opts False s2)) = logged s2 @ [r3]"
            "ft_url r3 = api_url env path" using single_call by blast
        then have "logged (snd (apiFetch (logging env) path opts True s)) =
            logged s @ [?r, refresh_request (we_base env), r3]"
          using \<open>fr_status x = 401\<close> True r log2 by (simp add: run bindA_def)
        then show ?thesis using urls \<open>ft_url r3 = api_url env path\<close>
          by (intro exI [of _ "[?r, refresh_request (we_base env), r3]"]) simp
      next
        case False
        then have "logged (snd (apiFetch (logging env) path opts True s)) = logged s2"
          using \<open>fr_status x = 401\<close> r
          by (cases ok) (auto simp: run bindA_def on_browser_def modifyA_def throwA_def logged_def split: prod.split)
        then show ?thesis using log2 urls
          by (intro exI [of _ "[?r, refresh_request (we_base env)]"]) simp
      qed
    qed
  qed
qed

section \<open>An expired token is replaced unnoticed\<close>

text \<open>
  When a call is answered 401 and the refresh succeeds with a new token, the call is repeated
  with that token and the caller sees only the second answer; the token is kept for later calls, the
  user stays signed in, and the page does not change.
\<close>

lemma session_renewed:
  assumes "we_fetch env (api_request (we_base env) path opts (br_token b)) t0 = (Some r1, t1)" and "fr_status r1 = 401"
    and "we_fetch env (refresh_request (we_base env)) t1 = (Some r2, t2)" and "fr_ok r2"
    and "fr_json r2 = Some (JObj body)" and "map_of body ''accessToken'' = Some (JStr token)" and "token \<noteq> []"
    and "we_fetch env (api_request (we_base env) path opts (Some token)) t2 = (Some r3, t3)"
  shows "apiFetch env path opts True (b, t0) = conclude env r3 (b\<lparr>br_token := Some token\<rparr>, t3) \<and>
    map_of (ft_headers (api_request (we_base env) path opts (Some token))) ''Authorization'' = Some (''Bearer '' @ token)"
proof
  have "refreshToken env (b, t1) = (Inr True, (b\<lparr>br_token := Some token\<rparr>, t2))"
    using assms(3-7)
    by (simp add: refreshToken_def do_fetch_def bindA_def the_json_def someA_def retA_def on_browser_def modifyA_def
        setToken_def as_text_def read_prop_def)
  then have first: "apiFetch env path opts True (b, t0) = apiFetch env path opts False (b\<lparr>br_token := Some token\<rparr>, t2)"
    using assms(1,2)
    by (simp add: apiFetch.simps [of _ path _ True] bindA_def readA_def getToken_def do_fetch_def)
  show "apiFetch env path opts True (b, t0) = conclude env r3 (b\<lparr>br_token := Some token\<rparr>, t3)"
    unfolding first using assms(8)
    by (simp add: apiFetch.simps [of _ path _ False] bindA_def readA_def getToken_def do_fetch_def)
  show "map_of (ft_headers (api_request (we_base env) path opts (Some token))) ''Authorization'' = Some (''Bearer '' @ token)"
    using assms(7) by (simp add: api_request_def Let_def update_conv')
qed

text \<open>A server whose session has a new token to give, and then accepts it.\<close>

definition answer :: "int \<Rightarrow> json \<Rightarrow> fetch_response" where
  "answer status body = \<lparr>fr_status = status, fr_statusText = [], fr_json = Some body\<rparr>"

definition demo_web :: "unit web_env" where
  "demo_web = \<lparr>we_fetch = (\<lambda>r t. (Some
       (if ft_url r = ''/api/auth/refresh'' then answer 200 (JObj [(''accessToken'', JStr ''new'')])
        else if map_of (ft_headers r) ''Authorization'' = Some ''Bearer new'' then answer 200 (JArr [])
        else answer 401 (JObj [])), t)),
     we_base = [], we_text = (\<lambda>_. []), we_stringify = (\<lambda>_. []), we_parse = (\<lambda>_. None)\<rparr>"

definition plain_get :: options where
  "plain_get = \<lparr>op_method = ''GET'', op_headers = [], op_body = None\<rparr>"

lemma session_renewed_witness:
  "apiFetch demo_web ''/jobs'' plain_get True (\<lparr>br_token = Some ''old'', br_user = None, br_location = ''/''\<rparr>, ()) =
    (Inr (Some (JArr [])), (\<lparr>br_token = Some ''new'', br_user = None, br_location = ''/''\<rparr>, ()))"
  using session_renewed [of demo_web "''/jobs''" plain_get "\<lparr>br_token = Some ''old'', br_user = None, br_location = ''/''\<rparr>"
      "()" "answer 401 (JObj [])" "()" "answer 200 (JObj [(''accessToken'', JStr ''new'')])" "()"
      "[(''accessToken'', JStr ''new'')]" "''new''" "answer 200 (JArr [])" "()"]
  by (simp add: demo_web_def plain_get_def answer_def api_request_def refresh_request_def Let_def fr_ok_def
      conclude_def the_json_def run_rules)

text \<open>
  A wrong password is answered 401 too; what the user gets to see is not the server's message but
  \<open>Unauthorized\<close>, after a refresh that is refused, and the page is left.
\<close>

lemma failed_login_hidden:
  assumes "we_fetch env (api_request (we_base env) ''/auth/login'' opts (br_token b)) t0 = (Some r1, t1)"
    and "fr_status r1 = 401"
    and "we_fetch env (refresh_request (we_base env)) t1 = (Some r2, t2)" and "\<not> fr_ok r2"
  shows "apiFetch env ''/auth/login'' opts True (b, t0) = (Inl (PlainError ''Unauthorized''),
    (b\<lparr>br_token := None, br_user := None, br_location := ''/login''\<rparr>, t2))"
  using assms
  by (simp add: apiFetch.simps [of _ "''/auth/login''" _ True] bindA_def readA_def getToken_def do_fetch_def
      refreshToken_def retA_def on_browser_def modifyA_def clearToken_def throwA_def)

end
