(* ===== verification/Pages.thy ===== *)
theory Pages
  imports WebClient Executor
begin

text \<open>
  The pages of \<open>web/app\<close>: what they share, the forms \<open>login/page.tsx\<close> and \<open>register/page.tsx\<close>, and
  the frame \<open>components/AppShell.tsx\<close>. The state of a page is the record of its \<open>useState\<close> values;
  a handler is an action on that record, the browser and the server behind \<open>fetch\<close>. A handler sees
  the values of the render it was made in, which it gets as an argument, and sets the current ones.
  Handlers run one after the other here; what an overtaking answer does is stated apart. What is
  caught is always an \<open>Error\<close>, so the fallback texts of the \<open>catch\<close> blocks are not reached.
\<close>

section \<open>Handlers\<close>

type_synonym ('v, 's, 'a) page_act = "('v \<times> browser \<times> 's, js_error, 'a) act"

definition in_browser :: "('s, 'a) page_action \<Rightarrow> ('v, 's, 'a) page_act" where
  "in_browser m s = (case m (snd s) of (r, t) \<Rightarrow> (r, (fst s, t)))"

definition fetching :: "'s web_env \<Rightarrow> string \<Rightarrow> options \<Rightarrow> ('v, 's, js) page_act" where
  "fetching env path opts = in_browser (apiFetch env path opts True)"

definition set_view :: "('v \<Rightarrow> 'v) \<Rightarrow> ('v, 's, unit) page_act" where
  "set_view f = modifyA (\<lambda>(v, t). (f v, t))"

definition the_view :: "('v, 's, 'v) page_act" where
  "the_view = readA fst"

text \<open>\<open>router.push\<close> and \<open>router.replace\<close>.\<close>

definition go :: "string \<Rightarrow> ('v, 's, unit) page_act" where
  "go href = in_browser (on_browser (\<lambda>b. b\<lparr>br_location := href\<rparr>))"

text \<open>\<open>try .. finally\<close>.\<close>

definition finallyA :: "('s, 'e, 'a) act \<Rightarrow> ('s, 'e, unit) act \<Rightarrow> ('s, 'e, 'a) act" where
  "finallyA m n s = (case m s of (r, t) \<Rightarrow>
     (case n t of (Inl e, u) \<Rightarrow> (Inl e, u) | (Inr _, u) \<Rightarrow> (r, u)))"

definition send :: "string \<Rightarrow> string option \<Rightarrow> options" where
  "send verb body = \<lparr>op_method = verb, op_headers = [], op_body = body\<rparr>"

section \<open>Values\<close>

text \<open>
  The parts of the standard library that are arguments: dates (milliseconds, \<open>None\<close> for an invalid
  one), \<open>Number(v)\<close> of texts and objects, \<open>Math.random()\<close>.
\<close>

record js_lib =
  lib_iso :: "string \<Rightarrow> string option"  \<comment> \<open>\<open>new Date(s).toISOString()\<close>, \<open>None\<close> for a \<open>RangeError\<close>\<close>
  lib_time :: "js \<Rightarrow> timestamp option"  \<comment> \<open>\<open>new Date(v).getTime()\<close>\<close>
  lib_number :: "json \<Rightarrow> rat option"
  lib_clock :: "timestamp \<Rightarrow> string"  \<comment> \<open>\<open>toLocaleTimeString\<close>\<close>
  lib_random :: string

definition number_of :: "js_lib \<Rightarrow> js \<Rightarrow> rat option" where
  "number_of lib v = (case v of
     None \<Rightarrow> None
   | Some (JNum q) \<Rightarrow> Some q
   | Some JNull \<Rightarrow> Some 0
   | Some (JBool b) \<Rightarrow> Some (if b then 1 else 0)
   | Some x \<Rightarrow> lib_number lib x)"

definition is_truthy :: "js \<Rightarrow> bool" where
  "is_truthy v = (case v of None \<Rightarrow> False | Some x \<Rightarrow> truthy x)"

text \<open>\<open>v ?? d\<close> and \<open>v?.k\<close>.\<close>

definition nullish_or :: "js \<Rightarrow> js \<Rightarrow> js" where
  "nullish_or v d = (case v of None \<Rightarrow> d | Some x \<Rightarrow> if x = JNull then d else v)"

definition opt_prop :: "js \<Rightarrow> string \<Rightarrow> js" where
  "opt_prop v k = Option.bind v (\<lambda>x. get_prop x k)"

text \<open>\<open>for .. of\<close> and the spread of an argument list: arrays and strings can be iterated.\<close>

definition elements :: "js \<Rightarrow> ('s, js_error, json list) act" where
  "elements v = (case v of
     Some (JArr vs) \<Rightarrow> retA vs
   | Some (JStr t) \<Rightarrow> retA (map (\<lambda>c. JStr [c]) t)
   | _ \<Rightarrow> throwA (PlainError ''object is not iterable''))"

definition slice :: "nat \<Rightarrow> js \<Rightarrow> ('s, js_error, json) act" where
  "slice n v = (case v of
     Some (JStr t) \<Rightarrow> retA (JStr (take n t))
   | Some (JArr vs) \<Rightarrow> retA (JArr (take n vs))
   | None \<Rightarrow> throwA (cannot_read ''undefined'' ''slice'')
   | Some x \<Rightarrow> throwA (if x = JNull then cannot_read ''null'' ''slice''
       else PlainError ''slice is not a function''))"

text \<open>\<open>parseInt(s)\<close> without a radix reads a prefix \<open>0x\<close> as hexadecimal.\<close>

definition hex_digit :: "char \<Rightarrow> int option" where
  "hex_digit c = (let n = of_char c :: nat in
     if 48 \<le> n \<and> n \<le> 57 then Some (int n - 48)
     else if 65 \<le> n \<and> n \<le> 70 then Some (int n - 55)
     else if 97 \<le> n \<and> n \<le> 102 then Some (int n - 87) else None)"

definition parse_hex :: "string \<Rightarrow> int option" where
  "parse_hex s = (let ds = takeWhile (\<lambda>c. hex_digit c \<noteq> None) s in
     if ds = [] then None else Some (foldl (\<lambda>acc c. acc * 16 + the (hex_digit c)) 0 ds))"

definition parseInt_auto :: "string \<Rightarrow> int option" where
  "parseInt_auto s = (case dropWhile is_ws s of
     [] \<Rightarrow> None
   | c # cs \<Rightarrow>
       let t = (if c = CHR ''-'' \<or> c = CHR ''+'' then cs else c # cs) in
       if take 2 t = ''0x'' \<or> take 2 t = ''0X''
       then map_option (\<lambda>i. if c = CHR ''-'' then - i else i) (parse_hex (drop 2 t))
       else parseInt s)"

section \<open>Query strings\<close>

text \<open>\<open>URLSearchParams\<close> writes letters, digits and \<open>*-._\<close> as they are and the rest as UTF-8 bytes.\<close>

definition utf8 :: "char \<Rightarrow> nat list" where
  "utf8 c = (let n = of_char c in if n < 128 then [n] else [192 + n div 64, 128 + n mod 64])"

definition upper_hex :: "nat \<Rightarrow> char" where
  "upper_hex n = char_of (if n < 10 then n + 48 else n + 55)"

definition form_byte :: "nat \<Rightarrow> string" where
  "form_byte n =
     (if 48 \<le> n \<and> n \<le> 57 \<or> 65 \<le> n \<and> n \<le> 90 \<or> 97 \<le> n \<and> n \<le> 122 \<or> n \<in> {42, 45, 46, 95} then [char_of n]
      else if n = 32 then ''+'' else [CHR ''%'', upper_hex (n div 16), upper_hex (n mod 16)])"

definition form_encode :: "string \<Rightarrow> string" where
  "form_encode s = concat (map form_byte (concat (map utf8 s)))"

fun form_text :: "(string \<times> string) list \<Rightarrow> string" where
  "form_text [] = []"
| "form_text [(k, v)] = form_encode k @ ''='' @ form_encode v"
| "form_text ((k, v) # kvs) = form_encode k @ ''='' @ form_encode v @ ''&'' @ form_text kvs"

text \<open>\<open>if (v) params.set(k, v)\<close>.\<close>

definition set_param :: "string \<Rightarrow> string \<Rightarrow> (string \<times> string) list \<Rightarrow> (string \<times> string) list" where
  "set_param k v kvs = (if v = [] then kvs else AList.update k v kvs)"

section \<open>Reasoning about handlers\<close>

context two_state begin

lemma finally_guar:
  assumes "guar R m" and "guar R n" shows "guar R (finallyA m n)"
proof (rule guarI)
  fix s
  obtain r t where m: "m s = (r, t)" by (cases "m s")
  obtain r' u where n: "n t = (r', u)" by (cases "n t")
  from assms m n have "R s t" "R t u" by (auto dest: guarD')
  then show "R s (snd (finallyA m n s))"
    using m n by (auto simp: finallyA_def intro: trans_R split: sum.split)
qed

end

text \<open>
  \<open>keeping I m\<close>: the handler keeps \<open>I\<close> of the state of the keeps. \<open>ends P m\<close>: however it ends, \<open>P\<close>
  holds of the page then. \<open>quiet m\<close>: it throws nothing.
\<close>

abbreviation keeping :: "('v \<Rightarrow> bool) \<Rightarrow> ('v, 's, 'a) page_act \<Rightarrow> bool" where
  "keeping I m \<equiv> guar (\<lambda>s t. I (fst s) \<longrightarrow> I (fst t)) m"

definition ends :: "('v \<Rightarrow> bool) \<Rightarrow> ('v, 's, 'a) page_act \<Rightarrow> bool" where
  "ends P m \<longleftrightarrow> (\<forall>s. P (fst (snd (m s))))"

definition quiet :: "('s, 'e, 'a) act \<Rightarrow> bool" where
  "quiet m \<longleftrightarrow> (\<forall>s. \<exists>x. fst (m s) = Inr x)"

lemma view_in_browser [simp]: "fst (snd (in_browser m s)) = fst s"
  by (simp add: in_browser_def split: prod.split)

lemma browser_in_browser: "in_browser m (v, t) = (fst (m t), (v, snd (m t)))"
  by (simp add: in_browser_def split: prod.split)

lemma keeping_in_browser: "keeping I (in_browser m)"
  by (simp add: guar_def)

lemma keeping_fetching: "keeping I (fetching env path opts)"
  by (simp add: fetching_def keeping_in_browser)

lemma keeping_go: "keeping I (go href)"
  by (simp add: go_def keeping_in_browser)

lemma keeping_set_view: "(\<And>v. I v \<Longrightarrow> I (f v)) \<Longrightarrow> keeping I (set_view f)"
  by (simp add: guar_def set_view_def modifyA_def case_prod_beta)

lemma keeping_the_view: "keeping I the_view"
  by (simp add: the_view_def keeps.read_guar)

lemma keeping_values: "keeping I (read_prop v k)" "keeping I (elements v)" "keeping I (slice n v)"
  by (simp_all add: read_prop_def elements_def slice_def keeps.guar_combinators split: option.split json.split)

lemmas keeping_rules = keeps.guar_combinators keeps.finally_guar keeping_in_browser keeping_fetching keeping_go
  keeping_set_view keeping_the_view keeping_values

lemma quiet_ret [simp]: "quiet (retA x)"
  by (simp add: quiet_def retA_def)

lemma quiet_set_view [simp]: "quiet (set_view f)"
  by (simp add: quiet_def set_view_def modifyA_def)

lemma quiet_the_view [simp]: "quiet the_view"
  by (simp add: quiet_def the_view_def readA_def)

lemma quiet_go [simp]: "quiet (go href)"
  by (simp add: quiet_def go_def in_browser_def on_browser_def modifyA_def case_prod_beta)

lemma quiet_catch: "(\<And>e. quiet (h e)) \<Longrightarrow> quiet (catchA m h)"
  by (auto simp: quiet_def catchA_def split: prod.split sum.split)

lemma quiet_finally: "quiet m \<Longrightarrow> quiet (finallyA m (set_view f))"
  by (simp add: quiet_def finallyA_def set_view_def modifyA_def case_prod_beta)

lemma quiet_bind: "quiet m \<Longrightarrow> (\<And>x. quiet (f x)) \<Longrightarrow> quiet (bindA m f)"
  by (auto simp: quiet_def bindA_def split: prod.split sum.split) (metis Inl_Inr_False fst_conv)

lemma quiet_then: "quiet m \<Longrightarrow> quiet n \<Longrightarrow> quiet (thenA m n)"
  by (simp add: thenA_def quiet_bind)

lemmas quiet_rules = quiet_ret quiet_set_view quiet_the_view quiet_go quiet_catch quiet_finally quiet_bind quiet_then

lemma ends_finally: "(\<And>v. P (f v)) \<Longrightarrow> ends P (finallyA m (set_view f))"
  by (simp add: ends_def finallyA_def set_view_def modifyA_def case_prod_beta)

lemma ends_bind: "quiet m \<Longrightarrow> (\<And>x. ends P (f x)) \<Longrightarrow> ends P (bindA m f)"
  unfolding quiet_def ends_def bindA_def by (metis (no_types, lifting) case_prod_beta old.sum.simps(6))

lemma ends_then: "quiet m \<Longrightarrow> ends P n \<Longrightarrow> ends P (thenA m n)"
  by (simp add: thenA_def ends_bind)

lemma ends_set_view: "(\<And>v. P (f v)) \<Longrightarrow> ends P (set_view f)"
  by (simp add: ends_def set_view_def modifyA_def case_prod_beta)

text \<open>Running the first call of a handler.\<close>

lemma page_run [run_rules]:
  "bindA the_view f s = f (fst s) s"
  "bindA (set_view g) h (v, t) = h () (g v, t)"
  "thenA (set_view g) n (v, t) = n (g v, t)"
  "set_view g (v, t) = (Inr (), (g v, t))"
  by (simp_all add: thenA_def bindA_def the_view_def readA_def set_view_def modifyA_def)

lemma fetching_run: "fetching env path opts (v, t) =
    (fst (apiFetch env path opts True t), (v, snd (apiFetch env path opts True t)))"
  by (simp add: fetching_def browser_in_browser)

lemma keeping_conj: "keeping P m \<Longrightarrow> keeping Q m \<Longrightarrow> keeping (\<lambda>v. P v \<and> Q v) m"
  by (simp add: guar_def)

lemma ends_keeping: "ends P m \<Longrightarrow> keeping P m"
  by (simp add: guar_def ends_def)

section \<open>Effects that run again\<close>

text \<open>
  An effect runs again when a value it depends on has changed, also when it changed it itself. The
  fuel bounds the rounds; an effect that leaves good values alone needs two.
\<close>

fun settle :: "nat \<Rightarrow> ('v \<Rightarrow> 'd) \<Rightarrow> ('v \<Rightarrow> ('v, 's, unit) page_act) \<Rightarrow> 'v \<Rightarrow> ('v, 's, unit) page_act" where
  "settle 0 dep effect v = retA ()"
| "settle (Suc n) dep effect v =
     bindA (effect v) (\<lambda>_. bindA the_view (\<lambda>v'.
     if dep v' = dep v then retA () else settle n dep effect v'))"

locale settling =
  fixes dep :: "'v \<Rightarrow> 'd"
    and effect :: "'v \<Rightarrow> ('v, 's, unit) page_act"
    and good :: "'d \<Rightarrow> bool"
  assumes good_stays: "good (dep v) \<Longrightarrow> dep (fst (snd (effect v s))) = dep (fst s)"
begin

text \<open>The value an effect finds good is still the same after it, so one round is enough then.\<close>

lemma one_round:
  assumes "dep (fst (snd (effect v s))) = dep v"
  shows "settle (Suc n) dep effect v s = settle 1 dep effect v s"
  using assms by (auto simp: bindA_def the_view_def readA_def split: prod.split sum.split)

lemma two_rounds:
  assumes "dep (fst (snd (effect v s))) = dep v \<or> good (dep (fst (snd (effect v s))))"
  shows "settle (Suc (Suc n)) dep effect v s = settle 2 dep effect v s"
proof -
  obtain r u where e: "effect v s = (r, u)" by (cases "effect v s")
  show ?thesis
  proof (cases "dep (fst u) = dep v")
    case True
    then show ?thesis using e one_round [of v s "Suc n"] one_round [of v s 1] by (simp add: numeral_2_eq_2)
  next
    case False
    then have "good (dep (fst u))" using assms e by simp
    then have "dep (fst (snd (effect (fst u) u))) = dep (fst u)" by (rule good_stays)
    from one_round [OF this, of n] show ?thesis
      using e False by (cases r) (simp_all add: bindA_def the_view_def readA_def numeral_2_eq_2)
  qed
qed

end

section \<open>\<open>login/page.tsx\<close> and \<open>register/page.tsx\<close>\<close>

record login_view =
  lg_email :: string
  lg_password :: string
  lg_error :: string
  lg_loading :: bool

record register_view = login_view +
  rv_orgName :: string

text \<open>What both forms do with the answer.\<close>

definition sign_in :: "'s web_env \<Rightarrow> string \<Rightarrow> json \<Rightarrow> ('z login_view_scheme, 's, unit) page_act" where
  "sign_in env path body =
     thenA (set_view (\<lambda>p. p\<lparr>lg_error := [], lg_loading := True\<rparr>))
     (finallyA
       (catchA
         (bindA (fetching env path (send ''POST'' (Some (we_stringify env body)))) (\<lambda>data.
          bindA (read_prop data ''user'') (\<lambda>user.
          bindA (read_prop data ''accessToken'') (\<lambda>token.
          bindA (in_browser (on_browser (storeUser env user token))) (\<lambda>_.
          go ''/'')))))
         (\<lambda>e. set_view (\<lambda>p. p\<lparr>lg_error := error_message e\<rparr>)))
       (set_view (\<lambda>p. p\<lparr>lg_loading := False\<rparr>)))"

definition login_submit :: "'s web_env \<Rightarrow> login_view \<Rightarrow> (login_view, 's, unit) page_act" where
  "login_submit env v = sign_in env ''/auth/login''
     (JObj [(''email'', JStr (lg_email v)), (''password'', JStr (lg_password v))])"

definition register_submit :: "'s web_env \<Rightarrow> register_view \<Rightarrow> (register_view, 's, unit) page_act" where
  "register_submit env v = sign_in env ''/auth/register''
     (JObj ([(''email'', JStr (lg_email v)), (''password'', JStr (lg_password v))] @
       jopt ''orgName'' (map_option JStr (truthy_str (Some (rv_orgName v))))))"

section \<open>\<open>AppShell.tsx\<close>\<close>

record shell_view =
  sh_user :: json
  sh_authed :: "bool option"

definition NAV :: "(string \<times> string) list" where
  "NAV = [(''/'', ''Dashboard''), (''/queues'', ''Queues''), (''/jobs'', ''Jobs''), (''/workers'', ''Workers'')]"

definition nav_active :: "string \<Rightarrow> string \<Rightarrow> bool" where
  "nav_active href pathname = (if href = ''/'' then pathname = ''/'' else starts_with href pathname)"

definition shell_effect :: "'s web_env \<Rightarrow> (shell_view, 's, unit) page_act" where
  "shell_effect env =
     bindA (in_browser (getUser env)) (\<lambda>u.
     if \<not> truthy u then
       bindA (set_view (\<lambda>p. p\<lparr>sh_authed := Some False\<rparr>)) (\<lambda>_. go ''/login'')
     else set_view (\<lambda>p. p\<lparr>sh_user := u, sh_authed := Some True\<rparr>))"

definition shell_shows_page :: "shell_view \<Rightarrow> bool" where
  "shell_shows_page v \<longleftrightarrow> sh_authed v = Some True"

definition handleLogout :: "'s web_env \<Rightarrow> (shell_view, 's, unit) page_act" where
  "handleLogout env =
     thenA (catchA (bindA (fetching env ''/auth/logout'' (send ''POST'' None)) (\<lambda>_. retA ())) (\<lambda>_. retA ()))
     (bindA (in_browser (on_browser clearToken)) (\<lambda>_. go ''/login''))"

lemma nav_one_active: "map (length \<circ> (\<lambda>path. filter (\<lambda>n. nav_active (fst n) path) NAV)) (map fst NAV) = [1, 1, 1, 1]"
  by (simp add: NAV_def nav_active_def starts_with_def)

section \<open>A session, from login to logout\<close>

lemma catch_run [run_rules]:
  "m s = (Inr x, t) \<Longrightarrow> catchA m h s = (Inr x, t)"
  "m s = (Inl e, t) \<Longrightarrow> catchA m h s = h e t"
  by (simp_all add: catchA_def)

lemma finally_run [run_rules]: "m s = (r, (v, t)) \<Longrightarrow> finallyA m (set_view f) s = (r, (f v, t))"
  by (simp add: finallyA_def set_view_def modifyA_def)

definition signed_in :: "'s web_env \<Rightarrow> js \<Rightarrow> js \<Rightarrow> browser \<Rightarrow> browser" where
  "signed_in env user token b = (storeUser env user token b)\<lparr>br_location := ''/''\<rparr>"

text \<open>The form is usable again and shows the error, or none.\<close>

lemma sign_in_run:
  "apiFetch env path (send ''POST'' (Some (we_stringify env body))) True t = (Inl e, t') \<Longrightarrow>
    sign_in env path body (v, t) = (Inr (), (v\<lparr>lg_error := error_message e, lg_loading := False\<rparr>, t'))"
  "apiFetch env path (send ''POST'' (Some (we_stringify env body))) True t = (Inr (Some (JObj fs)), (b', s')) \<Longrightarrow>
    sign_in env path body (v, t) = (Inr (), (v\<lparr>lg_error := [], lg_loading := False\<rparr>,
      (signed_in env (map_of fs ''user'') (map_of fs ''accessToken'') b', s')))"
  by (simp_all add: sign_in_def run_rules fetching_run catchA_def read_prop_def go_def browser_in_browser bindA_def
      on_browser_def modifyA_def retA_def signed_in_def finallyA_def set_view_def thenA_def)

lemma logout_run:
  "handleLogout env (v, t) = (Inr (), (v, ((clearToken (fst (snd (apiFetch env ''/auth/logout'' (send ''POST'' None) True t))))
      \<lparr>br_location := ''/login''\<rparr>, snd (snd (apiFetch env ''/auth/logout'' (send ''POST'' None) True t)))))"
  by (cases "apiFetch env ''/auth/logout'' (send ''POST'' None) True t"; cases "fst (apiFetch env ''/auth/logout'' (send ''POST'' None) True t)")
    (auto simp: handleLogout_def thenA_def bindA_def catchA_def fetching_run go_def browser_in_browser on_browser_def
      modifyA_def retA_def clearToken_def)

lemma shell_run:
  "truthy_str (br_user b) = None \<Longrightarrow>
    shell_effect env (v, (b, s)) = (Inr (), (v\<lparr>sh_authed := Some False\<rparr>, (b\<lparr>br_location := ''/login''\<rparr>, s)))"
  "truthy_str (br_user b) = Some t \<Longrightarrow> we_parse env t = Some u \<Longrightarrow> truthy u \<Longrightarrow>
    shell_effect env (v, (b, s)) = (Inr (), (v\<lparr>sh_user := u, sh_authed := Some True\<rparr>, (b, s)))"
  by (simp_all add: shell_effect_def getUser_def bindA_def browser_in_browser readA_def retA_def someA_def set_view_def
      modifyA_def go_def on_browser_def)


text \<open>A server that lets ann in.\<close>

definition ann_web :: "unit web_env" where
  "ann_web = \<lparr>we_fetch = (\<lambda>r t. (Some (if ft_url r = ''/api/auth/login''
       then answer 200 (JObj [(''user'', JStr ''ann''), (''accessToken'', JStr ''t'')]) else answer 500 JNull), t)),
     we_base = [], we_text = (\<lambda>_. ''null''), we_stringify = (\<lambda>v. case v of JStr x \<Rightarrow> CHR 0x22 # x @ [CHR 0x22] | _ \<Rightarrow> ''{}''),
     we_parse = (\<lambda>t. if t = CHR 0x22 # ''ann'' @ [CHR 0x22] then Some (JStr ''ann'') else None)\<rparr>"

definition plain_lib :: js_lib where
  "plain_lib = \<lparr>lib_iso = (\<lambda>_. None), lib_time = (\<lambda>_. None), lib_number = (\<lambda>_. None), lib_clock = (\<lambda>_. []), lib_random = []\<rparr>"

definition nobody :: browser where
  "nobody = \<lparr>br_token = None, br_user = None, br_location = ''/login''\<rparr>"


end
