(* ===== verification/LivePages.thy ===== *)
theory LivePages
  imports Pages
begin

text \<open>
  The pages that follow the system live: the dashboard (\<open>web/app/page.tsx\<close>) with its stream of events,
  and the list of workers (\<open>web/app/workers/page.tsx\<close>). Texts with characters beyond Latin-1 are
  written as their UTF-8 bytes. The argument \<open>now\<close> is \<open>Date.now()\<close> at the step.
\<close>

definition ellipsis :: string where "ellipsis = [CHR 0xE2, CHR 0x80, CHR 0xA6]"

definition arrow :: string where "arrow = [CHR 0xE2, CHR 0x86, CHR 0x92]"

definition dash :: string where "dash = [CHR 0xE2, CHR 0x80, CHR 0x94]"

definition middle_dot :: string where "middle_dot = [CHR 0xC2, CHR 0xB7]"

section \<open>Dashboard\<close>

record stream_event =
  ev_id :: string
  ev_text :: string
  ev_ts :: string

record dashboard_view =
  ds_summary :: js
  ds_events :: "stream_event list"
  ds_connected :: bool

definition new_dashboard :: dashboard_view where
  "new_dashboard = \<lparr>ds_summary = Some JNull, ds_events = [], ds_connected = False\<rparr>"

definition addEvent :: "js_lib \<Rightarrow> timestamp \<Rightarrow> string \<Rightarrow> dashboard_view \<Rightarrow> dashboard_view" where
  "addEvent lib now txt v = v\<lparr>ds_events := take 30
     (\<lparr>ev_id = show_int now @ ''-'' @ lib_random lib, ev_text = txt, ev_ts = lib_clock lib now\<rparr> # ds_events v)\<rparr>"

definition loadSummary :: "'s web_env \<Rightarrow> (dashboard_view, 's, unit) page_act" where
  "loadSummary env =
     catchA (bindA (fetching env ''/dashboard/summary'' plain_get) (\<lambda>data. set_view (\<lambda>p. p\<lparr>ds_summary := data\<rparr>)))
       (\<lambda>_. retA ())"

definition onConnect :: "js_lib \<Rightarrow> timestamp \<Rightarrow> (dashboard_view, 's, unit) page_act" where
  "onConnect lib now = bindA (set_view (\<lambda>p. p\<lparr>ds_connected := True\<rparr>)) (\<lambda>_.
     set_view (addEvent lib now ''Connected to real-time event stream''))"

definition onDisconnect :: "js_lib \<Rightarrow> timestamp \<Rightarrow> (dashboard_view, 's, unit) page_act" where
  "onDisconnect lib now = bindA (set_view (\<lambda>p. p\<lparr>ds_connected := False\<rparr>)) (\<lambda>_.
     set_view (addEvent lib now (''Disconnected '' @ dash @ '' reconnecting'' @ ellipsis)))"

definition transition_text :: "'s web_env \<Rightarrow> js \<Rightarrow> ('t, js_error, string) act" where
  "transition_text env data =
     bindA (read_prop data ''jobId'') (\<lambda>jobId. bindA (slice 8 jobId) (\<lambda>job.
     bindA (read_prop data ''status'') (\<lambda>status.
     bindA (read_prop data ''queueId'') (\<lambda>queueId. bindA (slice 8 queueId) (\<lambda>queue.
     retA (''Job '' @ as_text env job @ ellipsis @ '' '' @ arrow @ '' '' @ shown env status @
       '' (queue: '' @ as_text env queue @ ellipsis @ '')''))))))"

definition onJobTransition :: "'s web_env \<Rightarrow> js_lib \<Rightarrow> timestamp \<Rightarrow> js \<Rightarrow> (dashboard_view, 's, unit) page_act" where
  "onJobTransition env lib now data =
     bindA (transition_text env data) (\<lambda>txt.
     bindA (set_view (addEvent lib now txt)) (\<lambda>_.
     loadSummary env))"

definition heartbeat_text :: "'s web_env \<Rightarrow> js \<Rightarrow> ('t, js_error, string) act" where
  "heartbeat_text env data =
     bindA (read_prop data ''workerId'') (\<lambda>workerId. bindA (slice 8 workerId) (\<lambda>worker.
     bindA (read_prop data ''activeJobCount'') (\<lambda>count.
     retA (''Worker '' @ as_text env worker @ ellipsis @ '' heartbeat '' @ dash @ '' '' @ shown env count @
       '' active jobs''))))"

definition onWorkerHeartbeat :: "'s web_env \<Rightarrow> js_lib \<Rightarrow> timestamp \<Rightarrow> js \<Rightarrow> (dashboard_view, 's, unit) page_act" where
  "onWorkerHeartbeat env lib now data =
     bindA (heartbeat_text env data) (\<lambda>txt. set_view (addEvent lib now txt))"

text \<open>The effect of the page: a first load, one every 15 s, and a handler for each of four socket events.\<close>

datatype dashboard_event = Mount bool | Interval | Socket_connect | Socket_disconnect | Job_transition js | Heartbeat js

fun dashboard_handle :: "'s web_env \<Rightarrow> js_lib \<Rightarrow> timestamp \<Rightarrow> dashboard_event \<Rightarrow> (dashboard_view, 's, unit) page_act" where
  "dashboard_handle env lib now (Mount online) = bindA (loadSummary env) (\<lambda>_.
     if online then set_view (\<lambda>p. p\<lparr>ds_connected := True\<rparr>) else retA ())"
| "dashboard_handle env lib now Interval = loadSummary env"
| "dashboard_handle env lib now Socket_connect = onConnect lib now"
| "dashboard_handle env lib now Socket_disconnect = onDisconnect lib now"
| "dashboard_handle env lib now (Job_transition data) = onJobTransition env lib now data"
| "dashboard_handle env lib now (Heartbeat data) = onWorkerHeartbeat env lib now data"

text \<open>An exception of a handler is reported and the page goes on.\<close>

definition dashboard_run :: "'s web_env \<Rightarrow> js_lib \<Rightarrow> (timestamp \<times> dashboard_event) list \<Rightarrow>
    dashboard_view \<times> browser \<times> 's \<Rightarrow> dashboard_view \<times> browser \<times> 's" where
  "dashboard_run env lib evs s = fold (\<lambda>(now, e) s. snd (dashboard_handle env lib now e s)) evs s"

text \<open>The cards: \<open>summary?.k ?? '-'\<close>, as label, value and caption.\<close>

definition stat :: "js \<Rightarrow> string \<Rightarrow> js" where
  "stat summary k = nullish_or (opt_prop summary k) (Some (JStr dash))"

definition stat_cards :: "'s web_env \<Rightarrow> js \<Rightarrow> (string \<times> js \<times> string option) list" where
  "stat_cards env summary =
     [(''Total Queues'', stat summary ''totalQueues'', None),
      (''Active Workers'',
        Some (JStr (if is_truthy summary then shown env (opt_prop summary ''activeWorkers'') @ '' / '' @
          shown env (opt_prop summary ''totalWorkers'') else dash)), None),
      (''Jobs / min'', stat summary ''jobsPerMinute'',
        Some (shown env (stat summary ''queuedJobs'') @ '' queued '' @ middle_dot @ '' '' @
          shown env (stat summary ''runningJobs'') @ '' running'')),
      (''Failed Jobs'', stat summary ''failedJobs'',
        Some (shown env (stat summary ''completedJobsToday'') @ '' completed today''))]"

section \<open>The stream shows the latest events\<close>

text \<open>The line an event adds; a message without the fields the page reads adds none.\<close>

definition value_of :: "(unit, js_error, 'a) act \<Rightarrow> 'a option" where
  "value_of m = (case fst (m ()) of Inl e \<Rightarrow> None | Inr x \<Rightarrow> Some x)"

definition event_line :: "'s web_env \<Rightarrow> dashboard_event \<Rightarrow> string option" where
  "event_line env e = (case e of
     Socket_connect \<Rightarrow> Some ''Connected to real-time event stream''
   | Socket_disconnect \<Rightarrow> Some (''Disconnected '' @ dash @ '' reconnecting'' @ ellipsis)
   | Job_transition data \<Rightarrow> value_of (transition_text env data)
   | Heartbeat data \<Rightarrow> value_of (heartbeat_text env data)
   | _ \<Rightarrow> None)"

text \<open>An action that only computes: the same result in every state, which it leaves alone.\<close>

definition pure_act :: "(unit, js_error, 'a) act \<Rightarrow> ('t, js_error, 'a) act \<Rightarrow> bool" where
  "pure_act m n \<longleftrightarrow> (\<forall>s. n s = (fst (m ()), s))"

lemma pure_actD: "pure_act m n \<Longrightarrow> n s = (fst (m ()), s)"
  by (simp add: pure_act_def)

lemma pure_act_rules:
  "pure_act (retA x) (retA x)" "pure_act (throwA e) (throwA e)"
  "pure_act (read_prop v k) (read_prop v k)" "pure_act (slice i v) (slice i v)"
  by (auto simp: pure_act_def retA_def throwA_def read_prop_def slice_def split: option.split json.split)

lemma pure_act_bind: "pure_act m n \<Longrightarrow> (\<And>x. pure_act (f x) (g x)) \<Longrightarrow> pure_act (bindA m f) (bindA n g)"
  by (auto simp: pure_act_def bindA_def split: prod.split sum.split)

lemma pure_texts: "pure_act (transition_text env data) (transition_text env data)"
    "pure_act (heartbeat_text env data) (heartbeat_text env data)"
  by (auto simp: transition_text_def heartbeat_text_def intro!: pure_act_bind pure_act_rules)

lemma loadSummary_events: "ds_events (fst (snd (loadSummary env s))) = ds_events (fst s)"
  by (cases s) (auto simp: loadSummary_def catchA_def bindA_def fetching_run set_view_def modifyA_def retA_def
      split: sum.split)

lemma handled_events:
  "map ev_text (ds_events (fst (snd (dashboard_handle env lib now e s)))) =
    (case event_line env e of None \<Rightarrow> map ev_text (ds_events (fst s))
     | Some line \<Rightarrow> take 30 (line # map ev_text (ds_events (fst s))))"
proof (cases e)
  case (Mount online)
  then show ?thesis using loadSummary_events [of env s]
    by (auto simp: event_line_def bindA_def set_view_def modifyA_def retA_def split: prod.split sum.split)
next
  case (Job_transition data)
  obtain v t where s: "s = (v, t)" by (cases s)
  have "transition_text env data s = (fst (transition_text env data ()), s)"
    by (rule pure_actD [OF pure_texts(1)])
  then show ?thesis
    using loadSummary_events [of env]
    by (cases "fst (transition_text env data ())")
      (auto simp: Job_transition event_line_def value_of_def onJobTransition_def bindA_def set_view_def
        modifyA_def s addEvent_def take_map [symmetric])
next
  case (Heartbeat data)
  obtain v t where s: "s = (v, t)" by (cases s)
  have "heartbeat_text env data s = (fst (heartbeat_text env data ()), s)"
    by (rule pure_actD [OF pure_texts(2)])
  then show ?thesis
    by (cases "fst (heartbeat_text env data ())")
      (auto simp: Heartbeat event_line_def value_of_def onWorkerHeartbeat_def bindA_def set_view_def
        modifyA_def s addEvent_def take_map [symmetric])
qed (cases s; simp add: event_line_def onConnect_def onDisconnect_def bindA_def set_view_def modifyA_def addEvent_def
    take_map [symmetric] loadSummary_events)+

text \<open>
  Whatever events reach the dashboard, in whatever order and whatever the server answers: the
  stream shows the lines of the last 30 events that have one, the newest first.
\<close>

lemma dashboard_shows_latest:
  "map ev_text (ds_events (fst (dashboard_run env lib evs (new_dashboard, t)))) =
    take 30 (rev (List.map_filter (\<lambda>x. event_line env (snd x)) evs))"
proof -
  have "map ev_text (ds_events (fst (dashboard_run env lib evs s))) =
      take 30 (rev (List.map_filter (\<lambda>x. event_line env (snd x)) evs) @ map ev_text (ds_events (fst s)))"
    if "length (ds_events (fst s)) \<le> 30" for s
    using that
  proof (induction evs arbitrary: s)
    case (Cons x evs)
    obtain now e where x: "x = (now, e)" by (cases x)
    let ?s = "snd (dashboard_handle env lib now e s)"
    note step = handled_events [of env lib now e s]
    have "length (map ev_text (ds_events (fst ?s))) \<le> 30"
      unfolding step using Cons.prems by (simp split: option.split)
    then have "length (ds_events (fst ?s)) \<le> 30" by simp
    from Cons.IH [OF this] have "map ev_text (ds_events (fst (dashboard_run env lib (x # evs) s))) =
        take 30 (rev (List.map_filter (\<lambda>x. event_line env (snd x)) evs) @ map ev_text (ds_events (fst ?s)))"
      by (simp add: dashboard_run_def x)
    then show ?case unfolding step
      by (simp add: x List.map_filter_simps take_Cons' split: option.split)
  qed (simp add: dashboard_run_def List.map_filter_simps)
  from this [of "(new_dashboard, t)"] show ?thesis by (simp add: new_dashboard_def)
qed

section \<open>Workers\<close>

record workers_view =
  wv_workers :: js
  wv_loading :: bool
  wv_error :: string
  wv_filterStatus :: string
  wv_now :: timestamp

definition new_workers_page :: "timestamp \<Rightarrow> workers_view" where
  "new_workers_page now = \<lparr>wv_workers = Some (JArr []), wv_loading = False, wv_error = [], wv_filterStatus = [],
     wv_now = now\<rparr>"

definition workers_path :: "workers_view \<Rightarrow> string" where
  "workers_path v = ''/workers?'' @ form_text (set_param ''status'' (wv_filterStatus v) [(''limit'', ''100'')])"

definition loadWorkers :: "'s web_env \<Rightarrow> workers_view \<Rightarrow> (workers_view, 's, unit) page_act" where
  "loadWorkers env v =
     thenA (set_view (\<lambda>p. p\<lparr>wv_loading := True, wv_error := []\<rparr>))
     (finallyA
       (catchA
         (bindA (fetching env (workers_path v) plain_get) (\<lambda>data.
          bindA (read_prop data ''data'') (\<lambda>rows. set_view (\<lambda>p. p\<lparr>wv_workers := rows\<rparr>))))
         (\<lambda>e. set_view (\<lambda>p. p\<lparr>wv_error := error_message e\<rparr>)))
       (set_view (\<lambda>p. p\<lparr>wv_loading := False\<rparr>)))"

text \<open>
  A heartbeat updates the row of its worker: \<open>{ ...w, .. }\<close>, where a field set to \<open>undefined\<close> reads
  like one that is absent. \<open>stamp\<close> is the time of the browser as a text.
\<close>

definition set_field :: "string \<Rightarrow> js \<Rightarrow> (string \<times> json) list \<Rightarrow> (string \<times> json) list" where
  "set_field k v fs = (case v of None \<Rightarrow> AList.delete k fs | Some x \<Rightarrow> AList.update k x fs)"

definition spread :: "json \<Rightarrow> (string \<times> json) list" where
  "spread w = (case w of JObj fs \<Rightarrow> fs | _ \<Rightarrow> [])"

definition beat_row :: "string \<Rightarrow> (string \<times> json) list \<Rightarrow> json \<Rightarrow> json" where
  "beat_row stamp data w =
     (if get_prop w ''id'' = map_of data ''workerId''
      then JObj (set_field ''lastHeartbeatAt'' (Some (JStr stamp))
        (set_field ''cpuLoad'' (nullish_or (map_of data ''cpuLoad'') (get_prop w ''cpuLoad''))
          (set_field ''activeJobCount'' (map_of data ''activeJobCount'') (spread w))))
      else w)"

text \<open>\<open>prev.map(..)\<close> on what is not an array throws, and so does \<open>w.id\<close> of \<open>null\<close>.\<close>

definition onHeartbeat :: "string \<Rightarrow> (string \<times> json) list \<Rightarrow> (workers_view, 's, unit) page_act" where
  "onHeartbeat stamp data =
     bindA the_view (\<lambda>p. case wv_workers p of
       Some (JArr rows) \<Rightarrow>
         if JNull \<in> set rows then throwA (cannot_read ''null'' ''id'')
         else set_view (\<lambda>p. p\<lparr>wv_workers := Some (JArr (map (beat_row stamp data) rows))\<rparr>)
     | _ \<Rightarrow> throwA (PlainError ''prev.map is not a function''))"

definition timeSince :: "js_lib \<Rightarrow> timestamp \<Rightarrow> js \<Rightarrow> string" where
  "timeSince lib now stamp = (case lib_time lib stamp of
     None \<Rightarrow> ''NaNh ago''
   | Some t \<Rightarrow>
       let seconds = (now - t) div 1000 in
       if seconds < 60 then show_int seconds @ ''s ago''
       else if seconds < 3600 then show_int (seconds div 60) @ ''m ago''
       else show_int (seconds div 3600) @ ''h ago'')"

definition stale :: "js_lib \<Rightarrow> workers_view \<Rightarrow> json \<Rightarrow> bool" where
  "stale lib v w = (case lib_time lib (get_prop w ''lastHeartbeatAt'') of
     None \<Rightarrow> False | Some t \<Rightarrow> 60 < (of_int (wv_now v - t) / 1000 :: rat))"

definition active_shown :: "json list \<Rightarrow> nat" where
  "active_shown rows = length (filter (\<lambda>w. get_prop w ''status'' = Some (JStr ''active'')) rows)"

definition WORKER_STATUS_COLORS :: "(string \<times> string) list" where
  "WORKER_STATUS_COLORS =
     [(''active'', ''bg-green-500/20 text-green-400''),
      (''draining'', ''bg-yellow-500/20 text-yellow-500''),
      (''dead'', ''bg-red-500/20 text-red-400'')]"

lemma worker_colors: "map fst WORKER_STATUS_COLORS = map worker_status_name [Active, Draining, Dead]"
  by (simp add: WORKER_STATUS_COLORS_def)

record worker_line =
  wr_fields :: "js list"
  wr_busy :: bool
  wr_cpu :: json
  wr_stale :: bool
  wr_since :: string

text \<open>\<open>w.cpuLoad.toFixed(2)\<close> fails on what is not a number; the formatting is an argument.\<close>

definition render_worker :: "(rat \<Rightarrow> string) \<Rightarrow> js_lib \<Rightarrow> timestamp \<Rightarrow> workers_view \<Rightarrow> json \<Rightarrow> ('t, js_error, worker_line) act" where
  "render_worker toFixed lib now v w =
     bindA (case nullish_or (get_prop w ''cpuLoad'') None of
         None \<Rightarrow> retA (JStr dash)
       | Some (JNum q) \<Rightarrow> retA (JStr (toFixed q))
       | Some x \<Rightarrow> throwA (PlainError ''w.cpuLoad.toFixed is not a function'')) (\<lambda>cpu.
     retA \<lparr>wr_fields = map (get_prop w) [''hostname'', ''pid'', ''status'', ''activeJobCount'', ''startedAt''],
       wr_busy = (case number_of lib (get_prop w ''activeJobCount'') of None \<Rightarrow> False | Some n \<Rightarrow> 0 < n),
       wr_cpu = cpu, wr_stale = stale lib v w, wr_since = timeSince lib now (get_prop w ''lastHeartbeatAt'')\<rparr>)"

text \<open>
  The effect of the page loads at first, every 30 s and again when the filter has changed; a clock
  ticks every second. An exception of a handler is reported and the page goes on.
\<close>

datatype workers_event =
    Load_workers  \<comment> \<open>the first load, the interval, the button\<close>
  | Tick timestamp
  | Beat string "(string \<times> json) list"
  | Filter_workers string

fun workers_handle :: "'s web_env \<Rightarrow> workers_view \<Rightarrow> workers_event \<Rightarrow> (workers_view, 's, unit) page_act" where
  "workers_handle env v Load_workers = loadWorkers env v"
| "workers_handle env v (Tick now) = set_view (\<lambda>p. p\<lparr>wv_now := now\<rparr>)"
| "workers_handle env v (Beat stamp data) = onHeartbeat stamp data"
| "workers_handle env v (Filter_workers s) =
     bindA (set_view (\<lambda>p. p\<lparr>wv_filterStatus := s\<rparr>)) (\<lambda>_. bindA the_view (\<lambda>v'.
     if wv_filterStatus v' = wv_filterStatus v then retA () else loadWorkers env v'))"

definition workers_run :: "'s web_env \<Rightarrow> workers_event list \<Rightarrow> workers_view \<times> browser \<times> 's \<Rightarrow> workers_view \<times> browser \<times> 's" where
  "workers_run env evs s = fold (\<lambda>e s. snd (workers_handle env (fst s) e s)) evs s"

section \<open>What a heartbeat changes, and when a row is stale\<close>

lemma set_field_get [simp]: "map_of (set_field k v fs) k' = (if k' = k then v else map_of fs k')"
  by (simp add: set_field_def update_conv' delete_conv' split: option.split)

lemma beat_row_get:
  "get_prop (beat_row stamp data (JObj fs)) k =
    (if map_of fs ''id'' = map_of data ''workerId'' then
       if k = ''lastHeartbeatAt'' then Some (JStr stamp)
       else if k = ''cpuLoad'' then nullish_or (map_of data ''cpuLoad'') (map_of fs ''cpuLoad'')
       else if k = ''activeJobCount'' then map_of data ''activeJobCount''
       else map_of fs k
     else map_of fs k)"
  by (simp add: beat_row_def spread_def)

text \<open>
  A heartbeat on the page of the workers touches the rows of its worker and no other, and of these
  only the count of jobs, the load (kept when the message has none) and the time of the heartbeat.
\<close>

lemma heartbeat_touches_its_worker:
  "onHeartbeat stamp data (v\<lparr>wv_workers := Some (JArr (map JObj rows))\<rparr>, t) =
    (Inr (), (v\<lparr>wv_workers := Some (JArr (map (beat_row stamp data) (map JObj rows)))\<rparr>, t)) \<and>
   map (\<lambda>w. get_prop w ''id'') (map (beat_row stamp data) (map JObj rows)) = map (\<lambda>fs. map_of fs ''id'') rows \<and>
   filter (\<lambda>w. get_prop w ''id'' \<noteq> map_of data ''workerId'') (map (beat_row stamp data) (map JObj rows)) =
     filter (\<lambda>w. get_prop w ''id'' \<noteq> map_of data ''workerId'') (map JObj rows) \<and>
   map (\<lambda>w. get_prop w k) (map (beat_row stamp data) (map JObj rows)) =
     map (\<lambda>fs. if map_of fs ''id'' = map_of data ''workerId'' then
         if k = ''lastHeartbeatAt'' then Some (JStr stamp)
         else if k = ''cpuLoad'' then nullish_or (map_of data ''cpuLoad'') (map_of fs ''cpuLoad'')
         else if k = ''activeJobCount'' then map_of data ''activeJobCount''
         else map_of fs k
       else map_of fs k) rows"
proof (intro conjI)
  have "JNull \<notin> JObj ` set rows" by auto
  then show "onHeartbeat stamp data (v\<lparr>wv_workers := Some (JArr (map JObj rows))\<rparr>, t) =
      (Inr (), (v\<lparr>wv_workers := Some (JArr (map (beat_row stamp data) (map JObj rows)))\<rparr>, t))"
    by (simp add: onHeartbeat_def run_rules)
  show "filter (\<lambda>w. get_prop w ''id'' \<noteq> map_of data ''workerId'') (map (beat_row stamp data) (map JObj rows)) =
      filter (\<lambda>w. get_prop w ''id'' \<noteq> map_of data ''workerId'') (map JObj rows)"
    by (induction rows) (auto simp: beat_row_get, auto simp: beat_row_def)
qed (simp_all add: beat_row_get o_def)

text \<open>A row turns yellow when its heartbeat is more than a minute old by the clock of the browser.\<close>

lemma stale_iff:
  "lib_time lib (get_prop w ''lastHeartbeatAt'') = Some t \<Longrightarrow> stale lib v w \<longleftrightarrow> t + 60000 < wv_now v"
  by (auto simp: stale_def field_simps)

lemma load_workers_ends: "quiet (loadWorkers env v)" "ends (\<lambda>p. \<not> wv_loading p) (loadWorkers env v)"
  by (simp_all add: loadWorkers_def quiet_rules ends_then ends_finally)

lemma workers_handled: "\<not> wv_loading (fst s) \<Longrightarrow> \<not> wv_loading (fst (snd (workers_handle env v e s)))"
proof -
  have load: "keeping (\<lambda>p. \<not> wv_loading p) (loadWorkers env v)" for v
    by (rule ends_keeping [OF load_workers_ends(2)])
  have beat: "keeping (\<lambda>p. \<not> wv_loading p) (onHeartbeat stamp data)" for stamp data
  proof (rule guarI, rule impI)
    fix s :: "workers_view \<times> browser \<times> 'b"
    assume "\<not> wv_loading (fst s)"
    then show "\<not> wv_loading (fst (snd (onHeartbeat stamp data s)))"
      by (cases s) (auto simp: onHeartbeat_def run_rules set_view_def modifyA_def throwA_def split: option.split json.split)
  qed
  have "keeping (\<lambda>p. \<not> wv_loading p) (workers_handle env v e)"
    by (cases e) (auto intro!: keeping_rules load beat)
  then show "\<not> wv_loading (fst s) \<Longrightarrow> \<not> wv_loading (fst (snd (workers_handle env v e s)))"
    by (cases s) (simp add: guar_def)
qed

text \<open>After every event the page of the workers is done loading, whatever the server answers.\<close>

lemma workers_page_invariant: "\<not> wv_loading (fst (workers_run env evs (new_workers_page now, t)))"
proof -
  have "\<not> wv_loading (fst s) \<Longrightarrow> \<not> wv_loading (fst (workers_run env evs s))" for s
    by (induction evs arbitrary: s) (simp_all add: workers_run_def workers_handled)
  then show ?thesis by (simp add: new_workers_page_def)
qed

end
