(* ===== verification/JobsPage.thy ===== *)
theory JobsPage
  imports Pages
begin

text \<open>
  \<open>web/app/jobs/page.tsx\<close>: the list of jobs with its filters and pages, the details of a job, the
  buttons to retry and cancel, and the form that submits a job. The two calls of \<open>openJobDetail\<close> run
  one after the other here. A click is possible only on what is rendered and enabled (\<open>offered\<close>).
\<close>

section \<open>State\<close>

record jobs_view =
  jv_jobs :: js
  jv_queues :: js
  jv_loading :: bool
  jv_error :: string
  jv_page :: "int option"  \<comment> \<open>\<open>None\<close> is \<open>NaN\<close>\<close>
  jv_total :: js
  jv_filterStatus :: string
  jv_filterQueue :: string
  jv_selectedJob :: "json option"
  jv_executions :: js
  jv_logs :: js
  jv_showSubmit :: bool
  jv_submitQueue :: js
  jv_submitType :: string
  jv_submitPayload :: string
  jv_submitRunAt :: string
  jv_submitCron :: string
  jv_submitting :: bool

definition new_jobs_page :: jobs_view where
  "new_jobs_page = \<lparr>jv_jobs = Some (JArr []), jv_queues = Some (JArr []), jv_loading = False, jv_error = [],
     jv_page = Some 1, jv_total = Some (jint 0), jv_filterStatus = [], jv_filterQueue = [], jv_selectedJob = None,
     jv_executions = Some (JArr []), jv_logs = Some (JArr []), jv_showSubmit = False,
     jv_submitQueue = Some (JStr []), jv_submitType = ''echo'', jv_submitPayload = ''{}'', jv_submitRunAt = [],
     jv_submitCron = [], jv_submitting = False\<rparr>"

definition PAGE_LIMIT :: int where "PAGE_LIMIT = 20"

definition STATUS_COLORS :: "(string \<times> string) list" where
  "STATUS_COLORS =
     [(''queued'', ''bg-blue-500/20 text-blue-400''),
      (''scheduled'', ''bg-purple-500/20 text-purple-400''),
      (''claimed'', ''bg-yellow-500/20 text-yellow-500''),
      (''running'', ''bg-green-500/20 text-green-400''),
      (''completed'', ''bg-emerald-500/20 text-emerald-400''),
      (''failed'', ''bg-red-500/20 text-red-400''),
      (''dead_letter'', ''bg-red-900/30 text-red-300''),
      (''cancelled'', ''bg-muted text-muted-foreground'')]"

section \<open>Loading\<close>

definition queues_for :: "'s web_env \<Rightarrow> json \<Rightarrow> (jobs_view, 's, json list) page_act" where
  "queues_for env p =
     bindA (read_prop (Some p) ''id'') (\<lambda>i.
     bindA (fetching env (''/projects/'' @ shown env i @ ''/queues?limit=100'') plain_get) (\<lambda>qData.
     bindA (read_prop qData ''data'') elements))"

definition loadQueues :: "'s web_env \<Rightarrow> jobs_view \<Rightarrow> (jobs_view, 's, unit) page_act" where
  "loadQueues env v = catchA
     (bindA (fetching env ''/projects'' plain_get) (\<lambda>projects.
      bindA (read_prop projects ''data'') (\<lambda>ps.
      bindA (elements ps) (\<lambda>ps.
      bindA (mapA (queues_for env) ps) (\<lambda>qs.
      bindA (set_view (\<lambda>p. p\<lparr>jv_queues := Some (JArr (concat qs))\<rparr>)) (\<lambda>_.
      case concat qs of
        [] \<Rightarrow> retA ()
      | q # _ \<Rightarrow>
          if is_truthy (jv_submitQueue v) then retA ()
          else bindA (read_prop (Some q) ''id'') (\<lambda>i. set_view (\<lambda>p. p\<lparr>jv_submitQueue := i\<rparr>))))))))
     (\<lambda>_. retA ())"

definition page_text :: "int option \<Rightarrow> string" where
  "page_text page = (case page of None \<Rightarrow> ''NaN'' | Some k \<Rightarrow> show_int k)"

definition jobs_params :: "jobs_view \<Rightarrow> (string \<times> string) list" where
  "jobs_params v = set_param ''queueId'' (jv_filterQueue v) (set_param ''status'' (jv_filterStatus v)
     [(''page'', page_text (jv_page v)), (''limit'', show_int PAGE_LIMIT)])"

definition jobs_path :: "jobs_view \<Rightarrow> string" where
  "jobs_path v = ''/jobs?'' @ form_text (jobs_params v)"

definition jobs_begin :: "jobs_view \<Rightarrow> jobs_view" where
  "jobs_begin p = p\<lparr>jv_loading := True, jv_error := []\<rparr>"

text \<open>What follows the answer. The rows are set before the total is read.\<close>

definition jobs_received :: "(jobs_view, 's, js) page_act \<Rightarrow> (jobs_view, 's, unit) page_act" where
  "jobs_received answered =
     finallyA
       (catchA
         (bindA answered (\<lambda>data.
          bindA (read_prop data ''data'') (\<lambda>rows.
          bindA (set_view (\<lambda>p. p\<lparr>jv_jobs := rows\<rparr>)) (\<lambda>_.
          bindA (read_prop data ''meta'') (\<lambda>meta.
          bindA (read_prop meta ''total'') (\<lambda>n. set_view (\<lambda>p. p\<lparr>jv_total := n\<rparr>)))))))
         (\<lambda>e. set_view (\<lambda>p. p\<lparr>jv_error := error_message e\<rparr>)))
       (set_view (\<lambda>p. p\<lparr>jv_loading := False\<rparr>))"

definition loadJobs :: "'s web_env \<Rightarrow> jobs_view \<Rightarrow> (jobs_view, 's, unit) page_act" where
  "loadJobs env v =
     thenA (set_view jobs_begin) (jobs_received (fetching env (jobs_path v) plain_get))"

section \<open>One job\<close>

text \<open>\<open>Promise.all\<close> of two calls: both are made; the first to fail decides.\<close>

definition bothA :: "('s, 'e, 'a) act \<Rightarrow> ('s, 'e, 'b) act \<Rightarrow> ('s, 'e, 'a \<times> 'b) act" where
  "bothA m n s = (case m s of (r, t) \<Rightarrow> (case n t of (r', u) \<Rightarrow>
     (case r of Inl e \<Rightarrow> Inl e | Inr x \<Rightarrow> (case r' of Inl e \<Rightarrow> Inl e | Inr y \<Rightarrow> Inr (x, y)), u)))"

definition openJobDetail :: "'s web_env \<Rightarrow> json \<Rightarrow> (jobs_view, 's, unit) page_act" where
  "openJobDetail env job =
     thenA (set_view (\<lambda>p. p\<lparr>jv_selectedJob := Some job, jv_executions := Some (JArr []), jv_logs := Some (JArr [])\<rparr>))
     (catchA
       (bindA (read_prop (Some job) ''id'') (\<lambda>i.
        bindA (bothA
          (fetching env (''/jobs/'' @ shown env i @ ''/executions'') plain_get)
          (fetching env (''/jobs/'' @ shown env i @ ''/logs'') plain_get)) (\<lambda>(exData, logData).
        bindA (read_prop exData ''data'') (\<lambda>xs.
        bindA (set_view (\<lambda>p. p\<lparr>jv_executions := nullish_or xs (Some (JArr []))\<rparr>)) (\<lambda>_.
        bindA (read_prop logData ''data'') (\<lambda>ls.
        set_view (\<lambda>p. p\<lparr>jv_logs := nullish_or ls (Some (JArr []))\<rparr>)))))))
       (\<lambda>_. retA ()))"

text \<open>\<open>selectedJob?.id === jobId\<close>, with the values of the render.\<close>

definition close_if_selected :: "jobs_view \<Rightarrow> js \<Rightarrow> (jobs_view, 's, unit) page_act" where
  "close_if_selected v jobId =
     (if opt_prop (jv_selectedJob v) ''id'' = jobId then set_view (\<lambda>p. p\<lparr>jv_selectedJob := None\<rparr>) else retA ())"

definition job_command :: "'s web_env \<Rightarrow> jobs_view \<Rightarrow> string \<Rightarrow> js \<Rightarrow> (jobs_view, 's, unit) page_act" where
  "job_command env v verb jobId = catchA
     (bindA (fetching env (''/jobs/'' @ shown env jobId @ verb) (send ''POST'' None)) (\<lambda>_.
      bindA (loadJobs env v) (\<lambda>_.
      close_if_selected v jobId)))
     (\<lambda>e. set_view (\<lambda>p. p\<lparr>jv_error := error_message e\<rparr>))"

definition retry_button :: "'s web_env \<Rightarrow> jobs_view \<Rightarrow> js \<Rightarrow> (jobs_view, 's, unit) page_act" where
  "retry_button env v jobId = job_command env v ''/retry'' jobId"

definition cancel_button :: "'s web_env \<Rightarrow> jobs_view \<Rightarrow> js \<Rightarrow> (jobs_view, 's, unit) page_act" where
  "cancel_button env v jobId = job_command env v ''/cancel'' jobId"

section \<open>The form\<close>

definition submit_body :: "'s web_env \<Rightarrow> js_lib \<Rightarrow> jobs_view \<Rightarrow> ('t, js_error, json) act" where
  "submit_body env lib v =
     bindA (someA (PlainError ''Payload must be valid JSON'') (we_parse env (jv_submitPayload v))) (\<lambda>payload.
     bindA (if jv_submitRunAt v = [] then retA None
       else bindA (someA (PlainError ''Invalid time value'') (lib_iso lib (jv_submitRunAt v))) (\<lambda>t. retA (Some (JStr t)))) (\<lambda>runAt.
     retA (JObj ([(''type'', JStr (jv_submitType v)), (''payload'', payload)] @ jopt ''runAt'' runAt @
       jopt ''cronExpression'' (map_option JStr (truthy_str (Some (jv_submitCron v))))))))"

definition submitJob :: "'s web_env \<Rightarrow> js_lib \<Rightarrow> jobs_view \<Rightarrow> (jobs_view, 's, unit) page_act" where
  "submitJob env lib v =
     thenA (set_view (\<lambda>p. p\<lparr>jv_submitting := True, jv_error := []\<rparr>))
     (finallyA
       (catchA
         (bindA (submit_body env lib v) (\<lambda>body.
          bindA (fetching env (''/queues/'' @ shown env (jv_submitQueue v) @ ''/jobs'')
            (send ''POST'' (Some (we_stringify env body)))) (\<lambda>_.
          bindA (set_view (\<lambda>p. p\<lparr>jv_showSubmit := False, jv_submitType := ''echo'', jv_submitPayload := ''{}'',
            jv_submitRunAt := [], jv_submitCron := []\<rparr>)) (\<lambda>_.
          loadJobs env v))))
         (\<lambda>e. set_view (\<lambda>p. p\<lparr>jv_error := error_message e\<rparr>)))
       (set_view (\<lambda>p. p\<lparr>jv_submitting := False\<rparr>)))"

section \<open>Pages and filters\<close>

definition totalPages :: "js_lib \<Rightarrow> jobs_view \<Rightarrow> int option" where
  "totalPages lib v = map_option (\<lambda>q. \<lceil>q / of_int PAGE_LIMIT\<rceil>) (number_of lib (jv_total v))"

text \<open>\<open>Math.min\<close> and \<open>Math.max\<close> are \<open>NaN\<close> as soon as one argument is; a comparison with \<open>NaN\<close> is false.\<close>

definition prev_page :: "jobs_view \<Rightarrow> jobs_view" where
  "prev_page p = p\<lparr>jv_page := map_option (\<lambda>k. max 1 (k - 1)) (jv_page p)\<rparr>"

definition next_page :: "int option \<Rightarrow> jobs_view \<Rightarrow> jobs_view" where
  "next_page pages p = p\<lparr>jv_page := Option.bind pages (\<lambda>n. map_option (\<lambda>k. min n (k + 1)) (jv_page p))\<rparr>"

definition prev_disabled :: "jobs_view \<Rightarrow> bool" where
  "prev_disabled v \<longleftrightarrow> jv_page v = Some 1"

definition next_disabled :: "js_lib \<Rightarrow> jobs_view \<Rightarrow> bool" where
  "next_disabled lib v = (case (jv_page v, totalPages lib v) of (Some k, Some n) \<Rightarrow> n \<le> k | _ \<Rightarrow> False)"

definition filter_statuses :: "string list" where
  "filter_statuses = [''queued'', ''scheduled'', ''claimed'', ''running'', ''completed'', ''failed'',
     ''dead_letter'', ''cancelled'']"

definition clear_filters :: "jobs_view \<Rightarrow> jobs_view" where
  "clear_filters p = p\<lparr>jv_filterStatus := [], jv_filterQueue := [], jv_page := Some 1\<rparr>"

section \<open>What is rendered\<close>

definition retry_offered :: "json \<Rightarrow> bool" where
  "retry_offered job \<longleftrightarrow> get_prop job ''status'' \<in> {Some (JStr ''failed''), Some (JStr ''dead_letter'')}"

definition cancel_offered :: "json \<Rightarrow> bool" where
  "cancel_offered job \<longleftrightarrow> get_prop job ''status'' \<in> {Some (JStr ''queued''), Some (JStr ''scheduled'')}"

record job_row =
  jr_id :: json
  jr_fields :: "js list"
  jr_retry :: bool
  jr_cancel :: bool

text \<open>A row of the table; rendering fails on a job without an id.\<close>

definition render_row :: "json \<Rightarrow> ('t, js_error, job_row) act" where
  "render_row job =
     bindA (read_prop (Some job) ''id'') (\<lambda>i. bindA (slice 8 i) (\<lambda>short.
     retA \<lparr>jr_id = short, jr_fields = map (get_prop job) [''type'', ''queueName'', ''status'', ''attemptCount''],
       jr_retry = retry_offered job, jr_cancel = cancel_offered job\<rparr>))"

datatype jobs_table = Loading | No_jobs | Rows "job_row list"

definition render_table :: "jobs_view \<Rightarrow> ('t, js_error, jobs_table) act" where
  "render_table v =
     (if jv_loading v then retA Loading
      else bindA (read_prop (jv_jobs v) ''length'') (\<lambda>n.
        if n = Some (jint 0) then retA No_jobs
        else (case jv_jobs v of
            Some (JArr js) \<Rightarrow> bindA (mapA render_row js) (\<lambda>rows. retA (Rows rows))
          | _ \<Rightarrow> throwA (PlainError ''jobs.map is not a function''))))"

text \<open>The state is a table with rows, and the buttons below it exist.\<close>

definition has_rows :: "jobs_view \<Rightarrow> bool" where
  "has_rows v = (case fst (render_table v ()) of Inr (Rows rows) \<Rightarrow> True | _ \<Rightarrow> False)"

text \<open>
  The details: an execution shows its duration when there is one and its error when it is not empty; a
  log line shows its level in capitals (of ASCII letters), which fails without a level.
\<close>

record exec_line =
  el_attempt :: js
  el_status :: js
  el_duration :: "string option"
  el_error :: js

definition render_execution :: "'s web_env \<Rightarrow> json \<Rightarrow> exec_line" where
  "render_execution env ex =
     \<lparr>el_attempt = get_prop ex ''attemptNumber'', el_status = get_prop ex ''status'',
      el_duration = (case nullish_or (get_prop ex ''durationMs'') None of
        None \<Rightarrow> None | Some d \<Rightarrow> Some (as_text env d @ ''ms'')),
      el_error = (if is_truthy (get_prop ex ''errorMessage'') then get_prop ex ''errorMessage'' else None)\<rparr>"

definition upper :: "char \<Rightarrow> char" where
  "upper c = (let n = of_char c :: nat in if 97 \<le> n \<and> n \<le> 122 then char_of (n - 32) else c)"

definition render_log :: "json \<Rightarrow> ('t, js_error, bool \<times> string \<times> js) act" where
  "render_log entry = (case get_prop entry ''level'' of
     None \<Rightarrow> throwA (cannot_read ''undefined'' ''toUpperCase'')
   | Some (JStr level) \<Rightarrow> retA (level = ''error'', map upper level, get_prop entry ''message'')
   | Some x \<Rightarrow> throwA (if x = JNull then cannot_read ''null'' ''toUpperCase''
       else PlainError ''log.level.toUpperCase is not a function''))"

text \<open>\<open>xs.length > 0 && xs.map(..)\<close>, for arrays.\<close>

definition render_detail :: "'s web_env \<Rightarrow> jobs_view \<Rightarrow> ('t, js_error, exec_line list \<times> (bool \<times> string \<times> js) list) act" where
  "render_detail env v = (case (jv_selectedJob v, jv_executions v, jv_logs v) of
     (None, _, _) \<Rightarrow> retA ([], [])
   | (Some job, Some (JArr xs), Some (JArr ls)) \<Rightarrow>
       bindA (mapA render_log ls) (\<lambda>lines. retA (map (render_execution env) xs, lines))
   | _ \<Rightarrow> throwA (PlainError ''map is not a function''))"

section \<open>Events\<close>

datatype jobs_event =
    Opened
  | Transition
  | Select_status string
  | Select_queue string
  | Clear_filters
  | Prev
  | Next
  | Open_job json
  | Close_job
  | Retry_job js
  | Cancel_job js
  | Show_form bool
  | Choose_queue string
  | Type_type string
  | Type_payload string
  | Type_runAt string
  | Type_cron string
  | Submit

text \<open>The handlers; \<open>v\<close> is the render the event hits.\<close>

fun jobs_handle :: "'s web_env \<Rightarrow> js_lib \<Rightarrow> jobs_view \<Rightarrow> jobs_event \<Rightarrow> (jobs_view, 's, unit) page_act" where
  "jobs_handle env lib v Opened = retA ()"
| "jobs_handle env lib v Transition = loadJobs env v"
| "jobs_handle env lib v (Select_status s) = set_view (\<lambda>p. p\<lparr>jv_filterStatus := s, jv_page := Some 1\<rparr>)"
| "jobs_handle env lib v (Select_queue i) = set_view (\<lambda>p. p\<lparr>jv_filterQueue := i, jv_page := Some 1\<rparr>)"
| "jobs_handle env lib v Clear_filters = set_view clear_filters"
| "jobs_handle env lib v Prev = set_view prev_page"
| "jobs_handle env lib v Next = set_view (next_page (totalPages lib v))"
| "jobs_handle env lib v (Open_job job) = openJobDetail env job"
| "jobs_handle env lib v Close_job = set_view (\<lambda>p. p\<lparr>jv_selectedJob := None\<rparr>)"
| "jobs_handle env lib v (Retry_job i) = retry_button env v i"
| "jobs_handle env lib v (Cancel_job i) = cancel_button env v i"
| "jobs_handle env lib v (Show_form b) = set_view (\<lambda>p. p\<lparr>jv_showSubmit := b\<rparr>)"
| "jobs_handle env lib v (Choose_queue i) = set_view (\<lambda>p. p\<lparr>jv_submitQueue := Some (JStr i)\<rparr>)"
| "jobs_handle env lib v (Type_type s) = set_view (\<lambda>p. p\<lparr>jv_submitType := s\<rparr>)"
| "jobs_handle env lib v (Type_payload s) = set_view (\<lambda>p. p\<lparr>jv_submitPayload := s\<rparr>)"
| "jobs_handle env lib v (Type_runAt s) = set_view (\<lambda>p. p\<lparr>jv_submitRunAt := s\<rparr>)"
| "jobs_handle env lib v (Type_cron s) = set_view (\<lambda>p. p\<lparr>jv_submitCron := s\<rparr>)"
| "jobs_handle env lib v Submit = submitJob env lib v"

definition rows_of :: "jobs_view \<Rightarrow> json list" where
  "rows_of v = (if has_rows v then case jv_jobs v of Some (JArr js) \<Rightarrow> js | _ \<Rightarrow> [] else [])"

definition on_screen :: "jobs_view \<Rightarrow> json list" where
  "on_screen v = rows_of v @ (case jv_selectedJob v of None \<Rightarrow> [] | Some job \<Rightarrow> [job])"

fun offered :: "js_lib \<Rightarrow> jobs_view \<Rightarrow> jobs_event \<Rightarrow> bool" where
  "offered lib v (Select_status s) = (s \<in> set ([] # filter_statuses))"
| "offered lib v Prev = (has_rows v \<and> \<not> prev_disabled v)"
| "offered lib v Next = (has_rows v \<and> \<not> next_disabled lib v)"
| "offered lib v (Open_job job) = (job \<in> set (rows_of v))"
| "offered lib v (Retry_job i) = list_ex (\<lambda>job. retry_offered job \<and> get_prop job ''id'' = i) (on_screen v)"
| "offered lib v (Cancel_job i) = list_ex (\<lambda>job. cancel_offered job \<and> get_prop job ''id'' = i) (on_screen v)"
| "offered lib v Submit = (jv_showSubmit v \<and> \<not> jv_submitting v \<and> is_truthy (jv_submitQueue v) \<and> jv_submitType v \<noteq> [])"
| "offered lib v _ = True"

text \<open>
  An event, if it is possible, and the effects of the render after it: the queues are loaded when the
  page opens and when \<open>submitQueue\<close> has changed, the jobs when the page or a filter has.
\<close>

definition jobs_deps :: "jobs_view \<Rightarrow> int option \<times> string \<times> string" where
  "jobs_deps v = (jv_page v, jv_filterStatus v, jv_filterQueue v)"

definition jobs_effects :: "nat \<Rightarrow> 's web_env \<Rightarrow> jobs_event \<Rightarrow> jobs_view \<Rightarrow> (jobs_view, 's, unit) page_act" where
  "jobs_effects n env ev v =
     bindA the_view (\<lambda>v'.
     bindA (if ev = Opened \<or> jv_submitQueue v' \<noteq> jv_submitQueue v
       then settle n jv_submitQueue (loadQueues env) v' else retA ()) (\<lambda>_.
     if ev = Opened \<or> jobs_deps v' \<noteq> jobs_deps v then loadJobs env v' else retA ()))"

definition jobs_step :: "nat \<Rightarrow> 's web_env \<Rightarrow> js_lib \<Rightarrow> jobs_event \<Rightarrow> jobs_view \<times> browser \<times> 's \<Rightarrow> jobs_view \<times> browser \<times> 's" where
  "jobs_step n env lib ev s =
     (if offered lib (fst s) ev
      then snd (bindA (jobs_handle env lib (fst s) ev) (\<lambda>_. jobs_effects n env ev (fst s)) s)
      else s)"

definition jobs_run :: "nat \<Rightarrow> 's web_env \<Rightarrow> js_lib \<Rightarrow> jobs_event list \<Rightarrow> jobs_view \<times> browser \<times> 's \<Rightarrow> jobs_view \<times> browser \<times> 's" where
  "jobs_run n env lib evs s = fold (jobs_step n env lib) evs s"

section \<open>The page keeps its invariant\<close>

definition jobs_idle :: "jobs_view \<Rightarrow> bool" where
  "jobs_idle v \<longleftrightarrow> \<not> jv_loading v \<and> \<not> jv_submitting v"

definition asks_ok :: "jobs_view \<Rightarrow> bool" where
  "asks_ok v \<longleftrightarrow> (case jv_page v of None \<Rightarrow> True | Some k \<Rightarrow> 1 \<le> k) \<and> jv_filterStatus v \<in> set ([] # filter_statuses)"

lemma keeping_queues:
  assumes "\<And>v qs. I v \<Longrightarrow> I (v\<lparr>jv_queues := qs\<rparr>)" and "\<And>v i. I v \<Longrightarrow> I (v\<lparr>jv_submitQueue := i\<rparr>)"
  shows "keeping I (loadQueues env v)"
  unfolding loadQueues_def queues_for_def
  by (intro keeping_rules assms allI impI; (assumption | simp)?)
    (auto intro!: keeping_rules assms split: list.split)

lemma keeping_settle: "(\<And>v. keeping I (effect v)) \<Longrightarrow> keeping I (settle n dep effect v)"
  by (induction n arbitrary: v) (auto intro!: keeping_rules)

lemma keeping_received:
  assumes "keeping I answered" and "\<And>v x. I v \<Longrightarrow> I (v\<lparr>jv_jobs := x\<rparr>)" and "\<And>v x. I v \<Longrightarrow> I (v\<lparr>jv_total := x\<rparr>)"
    and "\<And>v x. I v \<Longrightarrow> I (v\<lparr>jv_error := x\<rparr>)" and "\<And>v b. I v \<Longrightarrow> I (v\<lparr>jv_loading := b\<rparr>)"
  shows "keeping I (jobs_received answered)"
  unfolding jobs_received_def by (intro keeping_rules assms) assumption+

lemma keeping_loadJobs:
  assumes "\<And>v x. I v \<Longrightarrow> I (v\<lparr>jv_jobs := x\<rparr>)" and "\<And>v x. I v \<Longrightarrow> I (v\<lparr>jv_total := x\<rparr>)"
    and "\<And>v x. I v \<Longrightarrow> I (v\<lparr>jv_error := x\<rparr>)" and "\<And>v b. I v \<Longrightarrow> I (v\<lparr>jv_loading := b\<rparr>)"
  shows "keeping I (loadJobs env v)"
  unfolding loadJobs_def jobs_begin_def by (intro keeping_rules keeping_received assms) assumption+

lemma loadJobs_ends: "quiet (loadJobs env v)" "ends (\<lambda>p. \<not> jv_loading p) (loadJobs env v)"
  by (simp_all add: loadJobs_def jobs_received_def quiet_rules ends_then ends_finally)

lemma loadJobs_keeps:
  "keeping asks_ok (loadJobs env v)" "keeping jobs_idle (loadJobs env v)" "keeping (\<lambda>p. \<not> jv_loading p) (loadJobs env v)"
proof -
  show "keeping asks_ok (loadJobs env v)" by (rule keeping_loadJobs) (simp_all add: asks_ok_def)
  show not_loading: "keeping (\<lambda>p. \<not> jv_loading p) (loadJobs env v)" by (rule ends_keeping [OF loadJobs_ends(2)])
  have "keeping (\<lambda>p. \<not> jv_submitting p) (loadJobs env v)" by (rule keeping_loadJobs) simp_all
  from keeping_conj [OF not_loading this] show "keeping jobs_idle (loadJobs env v)" by (simp add: jobs_idle_def [abs_def] guar_def)
qed

lemma keeping_both: "keeping I m \<Longrightarrow> keeping I n \<Longrightarrow> keeping I (bothA m n)"
  unfolding guar_def bothA_def by (metis (mono_tags, lifting) case_prod_beta snd_conv)

lemma submit_body_keeps: "keeping I (submit_body env lib v)"
  unfolding submit_body_def by (auto intro!: keeping_rules)

lemma submitJob_keeps: "keeping asks_ok (submitJob env lib v)" "keeping jobs_idle (submitJob env lib v)"
proof -
  show "keeping asks_ok (submitJob env lib v)"
    unfolding submitJob_def by (intro keeping_rules submit_body_keeps loadJobs_keeps) (simp_all add: asks_ok_def)
  have "keeping (\<lambda>p. \<not> jv_loading p) (submitJob env lib v)"
    unfolding submitJob_def by (intro keeping_rules submit_body_keeps loadJobs_keeps) simp_all
  moreover have "ends (\<lambda>p. \<not> jv_submitting p) (submitJob env lib v)"
    unfolding submitJob_def by (intro ends_then ends_finally quiet_set_view) simp
  ultimately show "keeping jobs_idle (submitJob env lib v)"
    by (auto simp: jobs_idle_def guar_def ends_def)
qed

lemma openJobDetail_keeps:
  assumes "\<And>v x. I v \<Longrightarrow> I (v\<lparr>jv_executions := x\<rparr>)" and "\<And>v x. I v \<Longrightarrow> I (v\<lparr>jv_logs := x\<rparr>)"
    and "\<And>v x. I v \<Longrightarrow> I (v\<lparr>jv_selectedJob := x\<rparr>)"
  shows "keeping I (openJobDetail env job)"
  unfolding openJobDetail_def by (auto intro!: keeping_rules keeping_both assms split: prod.split)

lemma job_command_keeps:
  assumes "keeping I (loadJobs env v)" and "\<And>v x. I v \<Longrightarrow> I (v\<lparr>jv_error := x\<rparr>)"
    and "\<And>v. I v \<Longrightarrow> I (v\<lparr>jv_selectedJob := None\<rparr>)"
  shows "keeping I (job_command env v verb i)"
  unfolding job_command_def close_if_selected_def by (auto intro!: keeping_rules assms)

definition jobs_ok :: "jobs_view \<Rightarrow> bool" where
  "jobs_ok v \<longleftrightarrow> jobs_idle v \<and> asks_ok v"

lemma jobs_ok_keeps:
  assumes "keeping jobs_idle m" and "keeping asks_ok m" shows "keeping jobs_ok m"
  using keeping_conj [OF assms] by (simp add: jobs_ok_def guar_def)

lemma loadJobs_ok: "keeping jobs_ok (loadJobs env v)"
  by (rule jobs_ok_keeps) (rule loadJobs_keeps)+

lemma jobs_ok_fields:
  "jobs_ok v \<Longrightarrow> jobs_ok (v\<lparr>jv_queues := x\<rparr>)" "jobs_ok v \<Longrightarrow> jobs_ok (v\<lparr>jv_submitQueue := x\<rparr>)"
  "jobs_ok v \<Longrightarrow> jobs_ok (v\<lparr>jv_executions := x\<rparr>)" "jobs_ok v \<Longrightarrow> jobs_ok (v\<lparr>jv_logs := x\<rparr>)"
  "jobs_ok v \<Longrightarrow> jobs_ok (v\<lparr>jv_selectedJob := y\<rparr>)" "jobs_ok v \<Longrightarrow> jobs_ok (v\<lparr>jv_error := z\<rparr>)"
  by (simp_all add: jobs_ok_def jobs_idle_def asks_ok_def)

lemma jobs_effects_ok: "keeping jobs_ok (jobs_effects n env ev v)"
  unfolding jobs_effects_def by (auto intro!: keeping_rules loadJobs_ok keeping_settle keeping_queues jobs_ok_fields)

lemma next_page_ok:
  assumes "asks_ok v" and "\<not> next_disabled lib v" shows "asks_ok (next_page (totalPages lib v) v)"
  using assms by (auto simp: asks_ok_def next_page_def next_disabled_def split: option.splits)

lemma prev_page_ok: "asks_ok v \<Longrightarrow> asks_ok (prev_page v)"
  by (auto simp: asks_ok_def prev_page_def split: option.splits)

lemma handled_ok:
  assumes "jobs_ok (fst s)" and "offered lib (fst s) ev"
  shows "jobs_ok (fst (snd (jobs_handle env lib (fst s) ev s)))"
proof -
  obtain v t where s: "s = (v, t)" by (cases s)
  have I: "keeping jobs_ok m \<Longrightarrow> jobs_ok (fst (snd (m s)))" for m :: "(jobs_view, 'a, unit) page_act"
    using assms(1) by (cases s) (simp add: guar_def)
  show ?thesis
  proof (cases ev)
    case Submit
    then show ?thesis by (simp add: I jobs_ok_keeps submitJob_keeps)
  next
    case (Open_job job)
    then show ?thesis by (simp add: I openJobDetail_keeps jobs_ok_fields)
  next
    case (Retry_job i)
    then show ?thesis by (simp add: I retry_button_def job_command_keeps loadJobs_ok jobs_ok_fields)
  next
    case (Cancel_job i)
    then show ?thesis by (simp add: I cancel_button_def job_command_keeps loadJobs_ok jobs_ok_fields)
  next
    case Next
    then show ?thesis using assms next_page_ok [of v lib]
      by (simp add: s set_view_def modifyA_def jobs_ok_def jobs_idle_def next_page_def)
  next
    case Prev
    then show ?thesis using assms prev_page_ok [of v]
      by (simp add: s set_view_def modifyA_def jobs_ok_def jobs_idle_def prev_page_def)
  next
    case Opened
    then show ?thesis using assms by (simp add: retA_def)
  next
    case Transition
    then show ?thesis by (simp add: I loadJobs_ok)
  qed (use assms in \<open>simp_all add: s set_view_def modifyA_def jobs_ok_def jobs_idle_def asks_ok_def clear_filters_def\<close>)
qed

lemma step_ok: "jobs_ok (fst s) \<Longrightarrow> jobs_ok (fst (jobs_step n env lib ev s))"
  using handled_ok [of s lib ev env] jobs_effects_ok [of n env ev "fst s"]
  by (auto simp: jobs_step_def bindA_def guar_def split: prod.split sum.split)


text \<open>Only a load changes the rows.\<close>

lemma step_keeps_rows:
  assumes load: "\<And>v. keeping (\<lambda>p. P (jv_jobs p)) (loadJobs env v)" and "P (jv_jobs (fst s))"
  shows "P (jv_jobs (fst (jobs_step n env lib ev s)))"
proof -
  let ?I = "\<lambda>p. P (jv_jobs p)"
  have submit: "keeping ?I (submitJob env lib v)" for v
    unfolding submitJob_def by (intro keeping_rules submit_body_keeps load) simp_all
  have "keeping ?I (jobs_handle env lib v ev)" for v
    by (cases ev) (auto simp: retry_button_def cancel_button_def clear_filters_def prev_page_def next_page_def
        intro!: keeping_set_view keeps.ret_guar load submit job_command_keeps openJobDetail_keeps)
  moreover have "keeping ?I (jobs_effects n env ev v)" for v
    unfolding jobs_effects_def by (auto intro!: keeping_rules load keeping_settle keeping_queues)
  ultimately have "keeping ?I (bindA (jobs_handle env lib (fst s) ev) (\<lambda>_. jobs_effects n env ev (fst s)))"
    by (intro keeping_rules)
  with assms(2) show ?thesis by (cases s) (simp add: jobs_step_def guar_def)
qed

section \<open>Pages\<close>

text \<open>
  With a numeric total the enabled buttons stay inside the pages there are: Next goes to the next
  page and Prev back; Next is enabled exactly while there are more rows than the pages so far show.
\<close>

lemma paging_stays_in_range:
  assumes "jv_page v = Some k" and "1 \<le> k" and "number_of lib (jv_total v) = Some q"
  shows "(if next_disabled lib v then q \<le> of_int (k * PAGE_LIMIT)
      else of_int (k * PAGE_LIMIT) < q \<and> jv_page (next_page (totalPages lib v) v) = Some (k + 1) \<and>
        totalPages lib v \<noteq> None \<and> k + 1 \<le> the (totalPages lib v) \<and>
        prev_page (next_page (totalPages lib v) v) = v) \<and>
    (if prev_disabled v then k = 1 else jv_page (prev_page v) = Some (k - 1) \<and> 1 \<le> k - 1)"
proof -
  have pages: "totalPages lib v = Some \<lceil>q / 20\<rceil>" using assms(3) by (simp add: totalPages_def PAGE_LIMIT_def)
  have "\<lceil>q / 20\<rceil> \<le> k \<longleftrightarrow> q \<le> of_int (k * 20)" by (simp add: ceiling_le_iff field_simps)
  then show ?thesis
    using assms by (auto simp: pages next_disabled_def prev_disabled_def next_page_def prev_page_def PAGE_LIMIT_def)
qed

lemma paging_stays_in_range_witness:
  "jv_page (next_page (totalPages lib (new_jobs_page\<lparr>jv_total := Some (jint 45)\<rparr>))
     (new_jobs_page\<lparr>jv_total := Some (jint 45)\<rparr>)) = Some 2"
  using paging_stays_in_range [of "new_jobs_page\<lparr>jv_total := Some (jint 45)\<rparr>" 1 lib 45]
  by (simp add: new_jobs_page_def number_of_def jint_def totalPages_def next_disabled_def PAGE_LIMIT_def next_page_def)

text \<open>
  On a page with no rows there are no buttons to leave it: when the jobs of the status filtered by have
  moved on, page 2 says \<open>No jobs found\<close> and has no Prev.
\<close>

lemma empty_page_has_no_prev:
  "jv_jobs v = Some (JArr []) \<Longrightarrow> \<not> offered lib v Prev \<and> \<not> offered lib v Next"
  by (simp add: has_rows_def render_table_def read_prop_def retA_def jint_def)

lemma row_without_id:
  "\<not> jv_loading v \<Longrightarrow> jv_jobs v = Some (JArr (JObj [] # js)) \<Longrightarrow>
    fst (render_table v s) = Inl (cannot_read ''undefined'' ''slice'')"
  by (simp add: render_table_def read_prop_def render_row_def slice_def retA_def throwA_def bindA_def jint_def)

lemma log_without_level:
  "jv_selectedJob v = Some job \<Longrightarrow> jv_executions v = Some (JArr xs) \<Longrightarrow> jv_logs v = Some (JArr (JObj [] # ls)) \<Longrightarrow>
    fst (render_detail env v s) = Inl (cannot_read ''undefined'' ''toUpperCase'')"
  by (simp add: render_detail_def render_log_def throwA_def bindA_def)

section \<open>Answers that arrive late\<close>

text \<open>An answer that was under way: it needs no further call.\<close>

definition arrives :: "js_error + js \<Rightarrow> (jobs_view, 's, js) page_act" where
  "arrives r s = (r, s)"

lemma received_arrives:
  "jobs_received (arrives (Inr (Some (JObj [(''data'', rows), (''meta'', JObj [(''total'', n)])])))) (v, t) =
    (Inr (), (v\<lparr>jv_jobs := Some rows, jv_total := Some n, jv_loading := False\<rparr>, t))"
  by (simp add: jobs_received_def arrives_def run_rules read_prop_def finallyA_def catchA_def bindA_def retA_def
      set_view_def modifyA_def)

text \<open>
  Nothing ties an answer to the filters it was asked for: when the answer to an earlier load arrives
  after that of a later one, the rows of the old filters stay on the page, under the new ones.
\<close>

lemma late_answer_wins:
  "jv_jobs (fst (snd (bindA
      (jobs_received (arrives (Inr (Some (JObj [(''data'', new), (''meta'', JObj [(''total'', n)])])))))
      (\<lambda>_. jobs_received (arrives (Inr (Some (JObj [(''data'', old), (''meta'', JObj [(''total'', m)])])))))
      (v, t)))) = Some old"
  by (simp add: bindA_def received_arrives)

section \<open>The choice of a queue settles\<close>

interpretation submit_queue: settling jv_submitQueue "loadQueues env" is_truthy for env :: "'s web_env"
proof
  fix v :: jobs_view and s :: "jobs_view \<times> browser \<times> 's"
  assume t: "is_truthy (jv_submitQueue v)"
  have "keeping (\<lambda>p. jv_submitQueue p = c) (loadQueues env v)" for c
    using t unfolding loadQueues_def queues_for_def by (auto intro!: keeping_rules split: list.split)
  then show "jv_submitQueue (fst (snd (loadQueues env v s))) = jv_submitQueue (fst s)"
    by (cases s) (simp add: guar_def)
qed

end
