(* ===== verification/QueuesPage.thy ===== *)
theory QueuesPage
  imports Pages
begin

text \<open>
  \<open>web/app/queues/page.tsx\<close>: the projects and their queues, pausing a queue, its limit of concurrent
  jobs, edited in place, and the form for a new queue.
\<close>

record queues_view =
  qv_projects :: js
  qv_selectedProject :: js
  qv_queues :: js
  qv_loading :: bool
  qv_error :: string
  qv_showNewQueue :: bool
  qv_newQueueName :: string
  qv_newQueueConcurrency :: string
  qv_newQueuePriority :: string
  qv_submitting :: bool
  qv_editingConcurrency :: "(string \<times> string) list"

definition new_queues_page :: queues_view where
  "new_queues_page = \<lparr>qv_projects = Some (JArr []), qv_selectedProject = Some (JStr []), qv_queues = Some (JArr []),
     qv_loading = False, qv_error = [], qv_showNewQueue = False, qv_newQueueName = [],
     qv_newQueueConcurrency = ''10'', qv_newQueuePriority = ''0'', qv_submitting = False,
     qv_editingConcurrency = []\<rparr>"

section \<open>Loading\<close>

text \<open>\<open>data.data.length > 0\<close>: false for what is not a number.\<close>

definition positive :: "js_lib \<Rightarrow> js \<Rightarrow> bool" where
  "positive lib n = (case number_of lib n of None \<Rightarrow> False | Some q \<Rightarrow> 0 < q)"

definition show_error :: "js_error \<Rightarrow> (queues_view, 's, unit) page_act" where
  "show_error e = set_view (\<lambda>p. p\<lparr>qv_error := error_message e\<rparr>)"

definition loadProjects :: "'s web_env \<Rightarrow> js_lib \<Rightarrow> queues_view \<Rightarrow> (queues_view, 's, unit) page_act" where
  "loadProjects env lib v = catchA
     (bindA (fetching env ''/projects'' plain_get) (\<lambda>data.
      bindA (read_prop data ''data'') (\<lambda>ps.
      bindA (set_view (\<lambda>p. p\<lparr>qv_projects := ps\<rparr>)) (\<lambda>_.
      bindA (read_prop ps ''length'') (\<lambda>n.
      if positive lib n \<and> \<not> is_truthy (qv_selectedProject v) then
        bindA (read_prop ps ''0'') (\<lambda>first.
        bindA (read_prop first ''id'') (\<lambda>i. set_view (\<lambda>p. p\<lparr>qv_selectedProject := i\<rparr>)))
      else retA ())))))
     show_error"

definition loadProjectQueues :: "'s web_env \<Rightarrow> queues_view \<Rightarrow> (queues_view, 's, unit) page_act" where
  "loadProjectQueues env v =
     (if \<not> is_truthy (qv_selectedProject v) then retA ()
      else thenA (set_view (\<lambda>p. p\<lparr>qv_loading := True, qv_error := []\<rparr>))
        (finallyA
          (catchA
            (bindA (fetching env (''/projects/'' @ shown env (qv_selectedProject v) @ ''/queues?limit=100'') plain_get) (\<lambda>data.
             bindA (read_prop data ''data'') (\<lambda>qs. set_view (\<lambda>p. p\<lparr>qv_queues := qs\<rparr>))))
            show_error)
          (set_view (\<lambda>p. p\<lparr>qv_loading := False\<rparr>))))"

section \<open>Changing a queue\<close>

definition patch_queue :: "'s web_env \<Rightarrow> js \<Rightarrow> (string \<times> json) list \<Rightarrow> (queues_view, 's, js) page_act" where
  "patch_queue env i fs = fetching env (''/queues/'' @ shown env i)
     (send ''PATCH'' (Some (we_stringify env (JObj fs))))"

definition togglePause :: "'s web_env \<Rightarrow> queues_view \<Rightarrow> json \<Rightarrow> (queues_view, 's, unit) page_act" where
  "togglePause env v q = catchA
     (bindA (read_prop (Some q) ''id'') (\<lambda>i.
      bindA (patch_queue env i [(''isPaused'', JBool (\<not> is_truthy (get_prop q ''isPaused'')))]) (\<lambda>_.
      loadProjectQueues env v)))
     show_error"

text \<open>\<open>parseInt(editingConcurrency[q.id] ?? String(q.concurrencyLimit))\<close>, not below 1.\<close>

definition edited_limit :: "'s web_env \<Rightarrow> queues_view \<Rightarrow> json \<Rightarrow> int option" where
  "edited_limit env v q =
     (case parseInt_auto (case map_of (qv_editingConcurrency v) (shown env (get_prop q ''id'')) of
          None \<Rightarrow> shown env (get_prop q ''concurrencyLimit'') | Some t \<Rightarrow> t) of
        None \<Rightarrow> None
      | Some n \<Rightarrow> if n < 1 then None else Some n)"

definition saveConcurrency :: "'s web_env \<Rightarrow> queues_view \<Rightarrow> json \<Rightarrow> (queues_view, 's, unit) page_act" where
  "saveConcurrency env v q = (case edited_limit env v q of
     None \<Rightarrow> retA ()
   | Some n \<Rightarrow> catchA
       (bindA (patch_queue env (get_prop q ''id'') [(''concurrencyLimit'', jint n)]) (\<lambda>_.
        bindA (set_view (\<lambda>p. p\<lparr>qv_editingConcurrency :=
          AList.delete (shown env (get_prop q ''id'')) (qv_editingConcurrency p)\<rparr>)) (\<lambda>_.
        loadProjectQueues env v)))
       show_error)"

definition edit_limit :: "'s web_env \<Rightarrow> json \<Rightarrow> string \<Rightarrow> queues_view \<Rightarrow> queues_view" where
  "edit_limit env q t p = p\<lparr>qv_editingConcurrency :=
     AList.update (shown env (get_prop q ''id'')) t (qv_editingConcurrency p)\<rparr>"

definition cancel_edit :: "'s web_env \<Rightarrow> json \<Rightarrow> queues_view \<Rightarrow> queues_view" where
  "cancel_edit env q p = p\<lparr>qv_editingConcurrency :=
     AList.delete (shown env (get_prop q ''id'')) (qv_editingConcurrency p)\<rparr>"

section \<open>A new queue\<close>

definition new_queue_body :: "queues_view \<Rightarrow> json" where
  "new_queue_body v = JObj [(''name'', JStr (qv_newQueueName v)),
     (''concurrencyLimit'', jint (int_or (parseInt_auto (qv_newQueueConcurrency v)) 10)),
     (''priority'', jint (int_or (parseInt_auto (qv_newQueuePriority v)) 0))]"

definition createQueue_submit :: "'s web_env \<Rightarrow> queues_view \<Rightarrow> (queues_view, 's, unit) page_act" where
  "createQueue_submit env v =
     thenA (set_view (\<lambda>p. p\<lparr>qv_submitting := True\<rparr>))
     (finallyA
       (catchA
         (bindA (fetching env (''/projects/'' @ shown env (qv_selectedProject v) @ ''/queues'')
            (send ''POST'' (Some (we_stringify env (new_queue_body v))))) (\<lambda>_.
          bindA (set_view (\<lambda>p. p\<lparr>qv_showNewQueue := False, qv_newQueueName := [],
            qv_newQueueConcurrency := ''10'', qv_newQueuePriority := ''0''\<rparr>)) (\<lambda>_.
          loadProjectQueues env v)))
         show_error)
       (set_view (\<lambda>p. p\<lparr>qv_submitting := False\<rparr>)))"

section \<open>Rows\<close>

text \<open>\<open>q.jobsByStatus?.s ?? 0\<close>; the sum of two such values, here of numbers.\<close>

definition status_count :: "json \<Rightarrow> string \<Rightarrow> js" where
  "status_count q status = nullish_or (opt_prop (get_prop q ''jobsByStatus'') status) (Some (jint 0))"

record queue_row =
  qr_name :: js
  qr_paused :: bool
  qr_editing :: "string option"
  qr_totalJobs :: js
  qr_queued :: js
  qr_running :: "rat option"

definition render_queue :: "'s web_env \<Rightarrow> js_lib \<Rightarrow> queues_view \<Rightarrow> json \<Rightarrow> queue_row" where
  "render_queue env lib v q =
     \<lparr>qr_name = get_prop q ''name'', qr_paused = is_truthy (get_prop q ''isPaused''),
      qr_editing = map_of (qv_editingConcurrency v) (shown env (get_prop q ''id'')),
      qr_totalJobs = get_prop q ''totalJobs'', qr_queued = status_count q ''queued'',
      qr_running = (case (number_of lib (status_count q ''claimed''), number_of lib (status_count q ''running'')) of
        (Some a, Some b) \<Rightarrow> Some (a + b) | _ \<Rightarrow> None)\<rparr>"

section \<open>Events\<close>

datatype queues_event =
    Opened
  | Choose_project string
  | Toggle_pause json
  | Edit_limit json
  | Type_limit json string
  | Save_limit json
  | Cancel_edit json
  | Show_form bool
  | Type_name string
  | Type_concurrency string
  | Type_priority string
  | Create

fun queues_handle :: "'s web_env \<Rightarrow> queues_view \<Rightarrow> queues_event \<Rightarrow> (queues_view, 's, unit) page_act" where
  "queues_handle env v Opened = retA ()"
| "queues_handle env v (Choose_project i) = set_view (\<lambda>p. p\<lparr>qv_selectedProject := Some (JStr i)\<rparr>)"
| "queues_handle env v (Toggle_pause q) = togglePause env v q"
| "queues_handle env v (Edit_limit q) = set_view (edit_limit env q (shown env (get_prop q ''concurrencyLimit'')))"
| "queues_handle env v (Type_limit q t) = set_view (edit_limit env q t)"
| "queues_handle env v (Save_limit q) = saveConcurrency env v q"
| "queues_handle env v (Cancel_edit q) = set_view (cancel_edit env q)"
| "queues_handle env v (Show_form b) = set_view (\<lambda>p. p\<lparr>qv_showNewQueue := b\<rparr>)"
| "queues_handle env v (Type_name t) = set_view (\<lambda>p. p\<lparr>qv_newQueueName := t\<rparr>)"
| "queues_handle env v (Type_concurrency t) = set_view (\<lambda>p. p\<lparr>qv_newQueueConcurrency := t\<rparr>)"
| "queues_handle env v (Type_priority t) = set_view (\<lambda>p. p\<lparr>qv_newQueuePriority := t\<rparr>)"
| "queues_handle env v Create = createQueue_submit env v"

definition queue_rows :: "queues_view \<Rightarrow> json list" where
  "queue_rows v = (if qv_loading v then [] else case qv_queues v of Some (JArr qs) \<Rightarrow> qs | _ \<Rightarrow> [])"

definition editing :: "'s web_env \<Rightarrow> queues_view \<Rightarrow> json \<Rightarrow> bool" where
  "editing env v q \<longleftrightarrow> map_of (qv_editingConcurrency v) (shown env (get_prop q ''id'')) \<noteq> None"

fun queue_offered :: "'s web_env \<Rightarrow> queues_view \<Rightarrow> queues_event \<Rightarrow> bool" where
  "queue_offered env v (Toggle_pause q) = (q \<in> set (queue_rows v))"
| "queue_offered env v (Edit_limit q) = (q \<in> set (queue_rows v) \<and> \<not> editing env v q)"
| "queue_offered env v (Type_limit q t) = (q \<in> set (queue_rows v) \<and> editing env v q)"
| "queue_offered env v (Save_limit q) = (q \<in> set (queue_rows v) \<and> editing env v q)"
| "queue_offered env v (Cancel_edit q) = (q \<in> set (queue_rows v) \<and> editing env v q)"
| "queue_offered env v (Show_form b) = (if b then is_truthy (qv_selectedProject v) else qv_showNewQueue v)"
| "queue_offered env v Create = (qv_showNewQueue v \<and> \<not> qv_submitting v \<and> qv_newQueueName v \<noteq> [])"
| "queue_offered env v _ = True"

text \<open>Both effects of the page depend on the selected project.\<close>

definition queues_effect :: "'s web_env \<Rightarrow> js_lib \<Rightarrow> queues_view \<Rightarrow> (queues_view, 's, unit) page_act" where
  "queues_effect env lib v = bindA (loadProjects env lib v) (\<lambda>_. loadProjectQueues env v)"

definition queues_step :: "nat \<Rightarrow> 's web_env \<Rightarrow> js_lib \<Rightarrow> queues_event \<Rightarrow> queues_view \<times> browser \<times> 's \<Rightarrow> queues_view \<times> browser \<times> 's" where
  "queues_step n env lib ev s =
     (if queue_offered env (fst s) ev
      then snd (bindA (queues_handle env (fst s) ev) (\<lambda>_. bindA the_view (\<lambda>v'.
          if ev = Opened \<or> qv_selectedProject v' \<noteq> qv_selectedProject (fst s)
          then settle n qv_selectedProject (queues_effect env lib) v' else retA ())) s)
      else s)"

definition queues_run :: "nat \<Rightarrow> 's web_env \<Rightarrow> js_lib \<Rightarrow> queues_event list \<Rightarrow> queues_view \<times> browser \<times> 's \<Rightarrow> queues_view \<times> browser \<times> 's" where
  "queues_run n env lib evs s = fold (queues_step n env lib) evs s"

section \<open>The page keeps its invariant\<close>

definition queues_ok :: "queues_view \<Rightarrow> bool" where
  "queues_ok v \<longleftrightarrow> \<not> qv_loading v \<and> \<not> qv_submitting v \<and> distinct (map fst (qv_editingConcurrency v))"

definition edits_distinct :: "queues_view \<Rightarrow> bool" where
  "edits_distinct v \<longleftrightarrow> distinct (map fst (qv_editingConcurrency v))"

lemma queues_okI: "keeping (\<lambda>p. \<not> qv_loading p) m \<Longrightarrow> keeping (\<lambda>p. \<not> qv_submitting p) m \<Longrightarrow> keeping edits_distinct m \<Longrightarrow>
    keeping queues_ok m"
  by (auto simp: queues_ok_def edits_distinct_def guar_def)

lemma show_error_keeps: "(\<And>v x. I v \<Longrightarrow> I (v\<lparr>qv_error := x\<rparr>)) \<Longrightarrow> keeping I (show_error e)"
  unfolding show_error_def by (intro keeping_rules)

lemma loadProjectQueues_keeps_with:
  assumes "\<And>v x. I v \<Longrightarrow> I (v\<lparr>qv_error := x\<rparr>)" and "\<And>v b. I v \<Longrightarrow> I (v\<lparr>qv_loading := b\<rparr>)"
    and "\<And>v x. I v \<Longrightarrow> I (v\<lparr>qv_queues := x\<rparr>)"
  shows "keeping I (loadProjectQueues env v)"
  unfolding loadProjectQueues_def by (auto intro!: keeping_rules show_error_keeps assms)

lemma quiet_show_error: "quiet (show_error e)"
  by (simp add: show_error_def)

lemma loadProjectQueues_quiet: "quiet (loadProjectQueues env v)"
  unfolding loadProjectQueues_def by (auto intro!: quiet_rules quiet_show_error)

lemma loadProjectQueues_keeps:
  "keeping (\<lambda>p. \<not> qv_loading p) (loadProjectQueues env v)" "keeping (\<lambda>p. \<not> qv_submitting p) (loadProjectQueues env v)"
  "keeping edits_distinct (loadProjectQueues env v)"
proof -
  show "keeping (\<lambda>p. \<not> qv_loading p) (loadProjectQueues env v)"
    unfolding loadProjectQueues_def by (auto intro!: keeping_rules ends_keeping ends_then ends_finally)
qed (rule loadProjectQueues_keeps_with; simp add: edits_distinct_def)+

lemma patch_keeps: "keeping I (patch_queue env i fs)"
  by (simp add: patch_queue_def keeping_fetching)

lemma togglePause_ok: "keeping queues_ok (togglePause env v q)"
  by (intro queues_okI; unfold togglePause_def;
      intro keeping_rules patch_keeps loadProjectQueues_keeps show_error_keeps; simp add: edits_distinct_def)

lemma saveConcurrency_ok: "keeping queues_ok (saveConcurrency env v q)"
  by (intro queues_okI; unfold saveConcurrency_def; cases "edited_limit env v q"; simp add: keeping_rules;
      intro keeping_rules patch_keeps loadProjectQueues_keeps show_error_keeps; simp add: edits_distinct_def distinct_delete)

lemma loadProjects_ok: "keeping queues_ok (loadProjects env lib v)"
  unfolding loadProjects_def by (auto intro!: keeping_rules show_error_keeps simp: queues_ok_def)

lemma createQueue_ok: "keeping queues_ok (createQueue_submit env v)"
proof -
  have "ends (\<lambda>p. \<not> qv_submitting p) (createQueue_submit env v)"
    unfolding createQueue_submit_def by (intro ends_then ends_finally quiet_set_view) simp
  moreover have "keeping (\<lambda>p. \<not> qv_loading p) (createQueue_submit env v)" "keeping edits_distinct (createQueue_submit env v)"
    unfolding createQueue_submit_def
    by (intro keeping_rules loadProjectQueues_keeps show_error_keeps; simp add: edits_distinct_def)+
  ultimately show ?thesis by (auto simp: queues_ok_def edits_distinct_def guar_def ends_def)
qed

lemma queues_effect_ok: "keeping queues_ok (queues_effect env lib v)"
  unfolding queues_effect_def by (intro keeping_rules loadProjects_ok queues_okI loadProjectQueues_keeps)

lemma queues_handled_ok:
  assumes "queues_ok (fst s)" shows "queues_ok (fst (snd (queues_handle env v ev s)))"
proof -
  obtain p t where s: "s = (p, t)" by (cases s)
  have I: "keeping queues_ok m \<Longrightarrow> queues_ok (fst (snd (m s)))" for m :: "(queues_view, 'a, unit) page_act"
    using assms by (cases s) (simp add: guar_def)
  show ?thesis
    by (cases ev) (use assms in \<open>simp_all add: I togglePause_ok saveConcurrency_ok createQueue_ok,
      simp_all add: s set_view_def modifyA_def retA_def queues_ok_def edit_limit_def cancel_edit_def
        distinct_update distinct_delete\<close>)
qed

lemma queues_step_ok: "queues_ok (fst s) \<Longrightarrow> queues_ok (fst (queues_step n env lib ev s))"
proof -
  assume s: "queues_ok (fst s)"
  obtain r u where h: "queues_handle env (fst s) ev s = (r, u)" by (cases "queues_handle env (fst s) ev s")
  with queues_handled_ok [OF s, of env "fst s" ev] have "queues_ok (fst u)" by simp
  moreover have "keeping queues_ok (settle n qv_selectedProject (queues_effect env lib) v)" for v :: queues_view
    by (induction n arbitrary: v) (auto intro!: keeping_rules queues_effect_ok)
  ultimately show ?thesis
    using s h by (cases u) (auto simp: queues_step_def bindA_def the_view_def readA_def retA_def guar_def split: sum.split)
qed

text \<open>
  Whatever the user does on the page of the queues and whatever the server answers: after every
  event the page is idle, and at most one edit is open for each queue.
\<close>

lemma queues_page_invariant:
  "queues_ok (fst (queues_run n env lib evs (new_queues_page, t)))"
proof -
  have "queues_ok (fst s) \<Longrightarrow> queues_ok (fst (queues_run n env lib evs s))" for s
    by (induction evs arbitrary: s) (simp_all add: queues_run_def queues_step_ok)
  moreover have "queues_ok new_queues_page" by (simp add: new_queues_page_def queues_ok_def)
  ultimately show ?thesis by simp
qed

section \<open>Opening the page\<close>

interpretation selected_project: settling qv_selectedProject "queues_effect env lib" is_truthy
  for env :: "'s web_env" and lib :: js_lib
proof
  fix v :: queues_view and s :: "queues_view \<times> browser \<times> 's"
  assume t: "is_truthy (qv_selectedProject v)"
  have "keeping (\<lambda>p. qv_selectedProject p = c) (queues_effect env lib v)" for c
    using t unfolding queues_effect_def loadProjects_def
    by (auto intro!: keeping_rules show_error_keeps loadProjectQueues_keeps_with)
  then show "qv_selectedProject (fst (snd (queues_effect env lib v s))) = qv_selectedProject (fst s)"
    by (cases s) (simp add: guar_def)
qed

lemma loadProjects_run:
  assumes "apiFetch env ''/projects'' plain_get True t = (Inr (Some (JObj ps)), t')"
    and "map_of ps ''data'' = Some (JArr (JObj p # rest))"
  shows "loadProjects env lib v (u, t) = (Inr (), (u\<lparr>qv_projects := Some (JArr (JObj p # rest)),
    qv_selectedProject := if is_truthy (qv_selectedProject v) then qv_selectedProject u else map_of p ''id''\<rparr>, t'))"
  using assms by (simp add: loadProjects_def fetching_run run_rules read_prop_def positive_def number_of_def jint_def
      bindA_def retA_def set_view_def modifyA_def)

lemma loadProjectQueues_run:
  assumes "is_truthy (qv_selectedProject v)"
    and "apiFetch env (''/projects/'' @ shown env (qv_selectedProject v) @ ''/queues?limit=100'') plain_get True t =
      (Inr (Some (JObj qs)), t')" and "map_of qs ''data'' = Some rows"
  shows "loadProjectQueues env v (u, t) =
    (Inr (), (u\<lparr>qv_error := [], qv_queues := Some rows, qv_loading := False\<rparr>, t'))"
  using assms by (simp add: loadProjectQueues_def fetching_run run_rules read_prop_def bindA_def retA_def
      set_view_def modifyA_def finallyA_def catchA_def thenA_def)

text \<open>
  Opening the page: the projects are loaded, the first one is selected, which runs the effects
  again, and its queues are shown; two rounds are enough, whatever number is allowed.
\<close>

lemma queues_page_opens:
  assumes "apiFetch env ''/projects'' plain_get True t0 = (Inr (Some (JObj ps)), t1)"
    and "map_of ps ''data'' = Some (JArr (JObj p # rest))" and "map_of p ''id'' = Some (JStr i)" and "i \<noteq> []"
    and "apiFetch env ''/projects'' plain_get True t1 = (Inr (Some (JObj ps')), t2)"
    and "map_of ps' ''data'' = Some (JArr (JObj p' # rest'))"
    and "apiFetch env (''/projects/'' @ i @ ''/queues?limit=100'') plain_get True t2 = (Inr (Some (JObj qs)), t3)"
    and "map_of qs ''data'' = Some rows"
  shows "queues_step (Suc (Suc n)) env lib Opened (new_queues_page, t0) =
    (new_queues_page\<lparr>qv_projects := Some (JArr (JObj p' # rest')), qv_selectedProject := Some (JStr i),
      qv_queues := Some rows\<rparr>, t3)"
proof -
  let ?v1 = "new_queues_page\<lparr>qv_projects := Some (JArr (JObj p # rest)), qv_selectedProject := Some (JStr i)\<rparr>"
  let ?v2 = "new_queues_page\<lparr>qv_projects := Some (JArr (JObj p' # rest')), qv_selectedProject := Some (JStr i),
      qv_queues := Some rows\<rparr>"
  have first: "queues_effect env lib new_queues_page (new_queues_page, t0) = (Inr (), (?v1, t1))"
    using assms(3) by (simp add: queues_effect_def bindA_def loadProjects_run [OF assms(1,2)] loadProjectQueues_def
        new_queues_page_def is_truthy_def retA_def)
  have good: "is_truthy (qv_selectedProject ?v1)" using assms(4) by (simp add: is_truthy_def)
  have queues: "loadProjectQueues env ?v1 (u, t2) =
      (Inr (), (u\<lparr>qv_error := [], qv_queues := Some rows, qv_loading := False\<rparr>, t3))" for u
    using loadProjectQueues_run [OF good _ assms(8), of env] assms(7) by (simp add: shown_def as_text_def)
  have second: "queues_effect env lib ?v1 (?v1, t1) = (Inr (), (?v2, t3))"
    using good by (simp add: queues_effect_def bindA_def loadProjects_run [OF assms(5,6)] queues)
      (simp add: new_queues_page_def)
  have "settle (Suc (Suc n)) qv_selectedProject (queues_effect env lib) new_queues_page (new_queues_page, t0) =
      settle 2 qv_selectedProject (queues_effect env lib) new_queues_page (new_queues_page, t0)"
    by (rule selected_project.two_rounds) (use first good in simp)
  also have "\<dots> = (Inr (), (?v2, t3))"
    using first second assms(4) by (simp add: numeral_2_eq_2 bindA_def the_view_def readA_def retA_def new_queues_page_def)
  finally show ?thesis by (simp add: queues_step_def bindA_def the_view_def readA_def retA_def del: settle.simps)
qed

definition shop_web :: "unit web_env" where
  "shop_web = \<lparr>we_fetch = (\<lambda>r t. (Some (answer 200 (JObj [(''data'', JArr
       (if ft_url r = ''/api/projects'' then [JObj [(''id'', JStr ''p'')]]
        else if ft_url r = ''/api/projects/p/queues?limit=100'' then [JObj [(''id'', JStr ''q'')]] else []))])), t)),
     we_base = [], we_text = (\<lambda>_. []), we_stringify = (\<lambda>_. []), we_parse = (\<lambda>_. None)\<rparr>"

definition visitor :: browser where
  "visitor = \<lparr>br_token = None, br_user = None, br_location = ''/queues''\<rparr>"

lemma shop_fetch:
  "apiFetch shop_web ''/projects'' plain_get True (visitor, ()) =
    (Inr (Some (JObj [(''data'', JArr [JObj [(''id'', JStr ''p'')]])])), (visitor, ()))"
  "apiFetch shop_web ''/projects/p/queues?limit=100'' plain_get True (visitor, ()) =
    (Inr (Some (JObj [(''data'', JArr [JObj [(''id'', JStr ''q'')]])])), (visitor, ()))"
  by (simp_all add: apiFetch.simps shop_web_def visitor_def api_request_def getToken_def do_fetch_def answer_def
      conclude_def fr_ok_def the_json_def run_rules)

lemma queues_page_opens_witness:
  "queue_rows (fst (queues_step 5 shop_web lib Opened (new_queues_page, (visitor, ())))) = [JObj [(''id'', JStr ''q'')]]"
  using queues_page_opens [OF shop_fetch(1) _ _ _ shop_fetch(1), of "[(''id'', JStr ''p'')]" "[]" "''p''"
      "[(''id'', JStr ''p'')]" "[]" _ _ _ 3 lib] shop_fetch(2)
  by (simp add: queue_rows_def new_queues_page_def)

end
