(* ===== verification/Site.thy ===== *)
theory Site
  imports Server LivePages JobsPage QueuesPage
begin

text \<open>
  The pages in front of the API: \<open>nginx/nginx.conf\<close> hands a call of a page to the API, the route
  it reaches answers, and the answer comes back as JSON. Whether the pages work depends on all three.
  The rate limits of nginx are left out, and so is the normalization of URIs (none of the paths here
  is changed by it).
\<close>

section \<open>The proxy\<close>

datatype upstream = To_api string | To_web string

text \<open>
  Locations: a regular expression comes before prefixes, of which the longest counts. Only the
  location \<open>/api/\<close> rewrites the path; \<open>proxy_pass http://api\<close> without a path passes it on as it is.
\<close>

definition nginx :: "string \<Rightarrow> upstream" where
  "nginx path =
     (if starts_with ''/api/auth/'' path then To_api path
      else if starts_with ''/socket.io/'' path then To_api path
      else if starts_with ''/api/'' path then To_api (''/'' @ drop 5 path)
      else if starts_with ''/health'' path then To_api (''/health'' @ drop 7 path)
      else if starts_with ''/docs'' path then To_api path
      else To_web path)"

definition url_path :: "string \<Rightarrow> string" where
  "url_path url = takeWhile (\<lambda>c. c \<noteq> CHR ''?'') url"

section \<open>The site\<close>

text \<open>
  Fastify's part are arguments: the choice of a route, the parsing of a request, the answer when there
  is no route. On the wire dates are texts.
\<close>

record site =
  st_fastify :: fastify
  st_services :: services
  st_route :: "string \<Rightarrow> string \<Rightarrow> (route \<times> route_schema) option"
  st_decode :: "fetch_request \<Rightarrow> string \<Rightarrow> route \<Rightarrow> js_error + request"
  st_not_found :: "string \<Rightarrow> string \<Rightarrow> fetch_response"
  st_page :: "string \<Rightarrow> fetch_response"  \<comment> \<open>of the web server\<close>
  st_statusText :: "int \<Rightarrow> string"
  st_iso :: "timestamp \<Rightarrow> string"
  st_text :: "json \<Rightarrow> string"
  st_stringify :: "json \<Rightarrow> string"
  st_parse :: "string \<Rightarrow> json option"

primrec wire :: "(timestamp \<Rightarrow> string) \<Rightarrow> json \<Rightarrow> json" where
  "wire dt JNull = JNull"
| "wire dt (JBool b) = JBool b"
| "wire dt (JNum q) = JNum q"
| "wire dt (JStr t) = JStr t"
| "wire dt (JDate t) = JStr (dt t)"
| "wire dt (JArr vs) = JArr (map (wire dt) vs)"
| "wire dt (JObj fs) = JObj (map (map_prod id (wire dt)) fs)"

definition on_the_wire :: "site \<Rightarrow> int \<Rightarrow> json \<Rightarrow> fetch_response" where
  "on_the_wire st status body = \<lparr>fr_status = status, fr_statusText = st_statusText st status,
     fr_json = Some (wire (st_iso st) body)\<rparr>"

definition api_answer :: "site \<Rightarrow> fetch_request \<Rightarrow> string \<Rightarrow> world \<times> buckets \<Rightarrow> fetch_response \<times> (world \<times> buckets)" where
  "api_answer st r path s = (case st_route st (ft_method r) path of
     None \<Rightarrow> (st_not_found st (ft_method r) path, s)
   | Some rd \<Rightarrow> (case st_decode st r path (fst rd) of
       Inl e \<Rightarrow> (case errorHandler e of (status, body) \<Rightarrow> (on_the_wire st status body, s))
     | Inr req \<Rightarrow> (case answer_request (st_fastify st) (st_services st) rd req s of
         (reply, s') \<Rightarrow> (on_the_wire st (re_status reply) (re_body reply), s'))))"

definition site_fetch :: "site \<Rightarrow> fetch_request \<Rightarrow> world \<times> buckets \<Rightarrow> fetch_response option \<times> (world \<times> buckets)" where
  "site_fetch st r s = (case nginx (url_path (ft_url r)) of
     To_web path \<Rightarrow> (Some (st_page st path), s)
   | To_api path \<Rightarrow> (case api_answer st r path s of (res, s') \<Rightarrow> (Some res, s')))"

text \<open>The pages are served from the same origin, so the base of their calls is empty.\<close>

definition site_env :: "site \<Rightarrow> (world \<times> buckets) web_env" where
  "site_env st = \<lparr>we_fetch = site_fetch st, we_base = [], we_text = st_text st, we_stringify = st_stringify st,
     we_parse = st_parse st\<rparr>"

section \<open>What Fastify documents\<close>

text \<open>
  A route is chosen by method and path; the answer without one is a 404 whose \<open>error\<close> is a text; a
  body declared as JSON and empty is refused. (It reaches the error handler with neither a validation
  nor a code it knows, like a plain error.)
\<close>

definition route_matches :: "string \<Rightarrow> string \<Rightarrow> bool" where
  "route_matches pattern path =
     list_all2 (\<lambda>p s. (p \<noteq> [] \<and> hd p = CHR '':'') \<or> p = s) (segments pattern) (segments path)"

fun verb :: "http_method \<Rightarrow> string" where
  "verb GET = ''GET''"
| "verb POST = ''POST''"
| "verb PATCH = ''PATCH''"

definition reaches :: "string \<Rightarrow> string \<Rightarrow> (route \<times> route_schema) \<Rightarrow> bool" where
  "reaches m path rd \<longleftrightarrow> verb (rt_method (fst rd)) = m \<and> route_matches (rt_path (fst rd)) path"

definition routes_documented :: "site \<Rightarrow> bool" where
  "routes_documented st \<longleftrightarrow>
     (\<forall>m path rd. st_route st m path = Some rd \<longrightarrow> rd \<in> set declared \<and> reaches m path rd) \<and>
     (\<forall>m path rd. rd \<in> set declared \<and> reaches m path rd \<and> [] \<notin> set (tl (segments path)) \<longrightarrow> st_route st m path \<noteq> None)"

definition not_found_documented :: "site \<Rightarrow> bool" where
  "not_found_documented st \<longleftrightarrow> (\<forall>m path. st_not_found st m path = \<lparr>fr_status = 404,
     fr_statusText = st_statusText st 404,
     fr_json = Some (JObj [(''message'', JStr (''Route '' @ m @ '':'' @ path @ '' not found'')),
       (''error'', JStr ''Not Found''), (''statusCode'', jint 404)])\<rparr>)"

text \<open>The segments of a path at the places of the parameters (percent encoding aside).\<close>

definition params_of :: "string \<Rightarrow> string \<Rightarrow> (string \<times> string) list" where
  "params_of pattern path =
     map (\<lambda>(p, s). (tl p, s)) (filter (\<lambda>(p, s). p \<noteq> [] \<and> hd p = CHR '':'') (zip (segments pattern) (segments path)))"

definition decode_documented :: "site \<Rightarrow> bool" where
  "decode_documented st \<longleftrightarrow> (\<forall>r path rt.
     (case st_decode st r path rt of
        Inl e \<Rightarrow> \<exists>m. e = PlainError m
      | Inr req \<Rightarrow>
          \<not> (ft_body r = None \<and> ft_method r \<noteq> ''GET'' \<and>
            map_of (ft_headers r) ''Content-Type'' = Some ''application/json'') \<and>
          (CHR ''%'' \<in> set path \<or> rq_params req = params_of (rt_path rt) path)))"

section \<open>Calls that reach no route\<close>

lemma site_fields [simp]: "we_base (site_env st) = []" "we_fetch (site_env st) = site_fetch st"
    "we_text (site_env st) = st_text st" "we_stringify (site_env st) = st_stringify st" "we_parse (site_env st) = st_parse st"
  by (simp_all add: site_env_def)

definition unrouted :: "string \<Rightarrow> bool" where
  "unrouted path \<longleftrightarrow> list_all (\<lambda>rd. \<not> route_matches (rt_path (fst rd)) path) declared"

lemma unrouted_not_found:
  assumes "routes_documented st" and "unrouted path" shows "st_route st m path = None"
  using assms unfolding routes_documented_def unrouted_def reaches_def list_all_iff
  by (cases "st_route st m path") blast+

lemma declared_paths: "map (\<lambda>rd. rt_path (fst rd)) declared = map rt_path api_routes"
  using arg_cong [OF declared_routes(1), of "map rt_path"] by (simp add: comp_def)

lemma unrouted_code: "unrouted path \<longleftrightarrow> list_all (\<lambda>p. \<not> route_matches p path) (map rt_path api_routes)"
  unfolding declared_paths [symmetric] by (simp add: unrouted_def list.pred_map comp_def)

lemma unrouted_pages:
  "unrouted ''/api/auth/login''" "unrouted ''/api/auth/register''" "unrouted ''/api/auth/refresh''"
  "unrouted ''/api/auth/logout''" "unrouted ''/projects''" "unrouted ''/workers''" "unrouted ''/dashboard/summary''"
  by (simp_all add: unrouted_code route_tables route_matches_def)

lemma url_path_query: "CHR ''?'' \<notin> set p \<Longrightarrow> url_path (p @ CHR ''?'' # q) = p"
  by (simp add: url_path_def takeWhile_append takeWhile_eq_all_conv [THEN iffD2])

lemma url_path_plain: "CHR ''?'' \<notin> set p \<Longrightarrow> url_path p = p"
  by (auto simp: url_path_def takeWhile_eq_all_conv)

lemma unrouted_call:
  assumes "routes_documented st" and "not_found_documented st"
    and "nginx (url_path (''/api'' @ path)) = To_api p" and "unrouted p"
  shows "apiFetch (site_env st) path opts again t = (Inl (PlainError ''Request failed''), t)"
  using assms(2-) unrouted_not_found [OF assms(1,4)]
  by (cases t) (simp add: apiFetch.simps bindA_def readA_def getToken_def do_fetch_def site_fetch_def api_answer_def
      not_found_documented_def conclude_def fr_ok_def error_text_def throwA_def)

lemma auth_calls:
  assumes "routes_documented st" and "not_found_documented st"
  shows "apiFetch (site_env st) ''/auth/login'' opts again t = (Inl (PlainError ''Request failed''), t)"
    and "apiFetch (site_env st) ''/auth/register'' opts again t = (Inl (PlainError ''Request failed''), t)"
    and "apiFetch (site_env st) ''/auth/logout'' opts again t = (Inl (PlainError ''Request failed''), t)"
    and "refreshToken (site_env st) t = (Inr False, t)"
proof -
  have auth: "nginx (url_path (''/api/auth/'' @ p)) = To_api (''/api/auth/'' @ url_path p)" for p
    by (simp add: nginx_def url_path_def starts_with_def)
  note call = unrouted_call [OF assms]
  show "apiFetch (site_env st) ''/auth/login'' opts again t = (Inl (PlainError ''Request failed''), t)"
    by (rule call [OF _ unrouted_pages(1)]) (use auth [of "''login''"] in \<open>simp add: url_path_def\<close>)
  show "apiFetch (site_env st) ''/auth/register'' opts again t = (Inl (PlainError ''Request failed''), t)"
    by (rule call [OF _ unrouted_pages(2)]) (use auth [of "''register''"] in \<open>simp add: url_path_def\<close>)
  show "apiFetch (site_env st) ''/auth/logout'' opts again t = (Inl (PlainError ''Request failed''), t)"
    by (rule call [OF _ unrouted_pages(4)]) (use auth [of "''logout''"] in \<open>simp add: url_path_def\<close>)
  show "refreshToken (site_env st) t = (Inr False, t)"
    using assms(2) unrouted_not_found [OF assms(1) unrouted_pages(3)] auth [of "''refresh''"]
    by (cases t) (simp add: refreshToken_def bindA_def do_fetch_def site_fetch_def api_answer_def refresh_request_def
        not_found_documented_def fr_ok_def retA_def url_path_def)
qed

text \<open>
  C27. Nobody can sign in through nginx. Its location for \<open>/api/auth/\<close> does not take the prefix \<open>/api\<close>
  off, the API has no route under \<open>/api\<close>, so whatever is typed into the login or the registration
  form, it ends with \<open>Request failed\<close>: no token, and nothing of the database changes.
\<close>

theorem login_never_arrives:
  assumes "routes_documented st" and "not_found_documented st"
  shows "login_submit (site_env st) v (v, t) =
      (Inr (), (v\<lparr>lg_error := ''Request failed'', lg_loading := False\<rparr>, t)) \<and>
    register_submit (site_env st) v' (v', t) =
      (Inr (), (v'\<lparr>lg_error := ''Request failed'', lg_loading := False\<rparr>, t)) \<and>
    refreshToken (site_env st) t = (Inr False, t)"
  by (simp add: login_submit_def register_submit_def sign_in_run(1) [OF auth_calls(1) [OF assms]]
      sign_in_run(1) [OF auth_calls(2) [OF assms]] auth_calls(4) [OF assms])

text \<open>A site whose Fastify does what is documented.\<close>

definition sample_site :: site where
  "sample_site = \<lparr>st_fastify = sample_fastify, st_services = demo_services,
     st_route = (\<lambda>m path. find (reaches m path) declared),
     st_decode = (\<lambda>r path rt. if ft_body r = None \<and> ft_method r \<noteq> ''GET'' \<and>
         map_of (ft_headers r) ''Content-Type'' = Some ''application/json''
       then Inl (PlainError ''Body cannot be empty'') else Inr (bare_request None (params_of (rt_path rt) path) JNull)),
     st_not_found = (\<lambda>m path. \<lparr>fr_status = 404, fr_statusText = ''Not Found'',
       fr_json = Some (JObj [(''message'', JStr (''Route '' @ m @ '':'' @ path @ '' not found'')),
         (''error'', JStr ''Not Found''), (''statusCode'', jint 404)])\<rparr>),
     st_page = (\<lambda>_. \<lparr>fr_status = 200, fr_statusText = ''OK'', fr_json = None\<rparr>),
     st_statusText = (\<lambda>_. ''Not Found''), st_iso = (\<lambda>_. []), st_text = (\<lambda>_. ''null''), st_stringify = (\<lambda>_. ''{}''),
     st_parse = (\<lambda>_. None)\<rparr>"

lemma sample_site_documented:
  "routes_documented sample_site" "not_found_documented sample_site" "decode_documented sample_site"
proof -
  show "routes_documented sample_site"
    by (auto simp: routes_documented_def sample_site_def find_Some_iff find_None_iff)
qed (auto simp: not_found_documented_def decode_documented_def sample_site_def bare_request_def)

theorem login_never_arrives_witness:
  "lg_error (fst (snd (login_submit (site_env sample_site)
     \<lparr>lg_email = ''a@x'', lg_password = ''pw'', lg_error = [], lg_loading = False\<rparr>
     (\<lparr>lg_email = ''a@x'', lg_password = ''pw'', lg_error = [], lg_loading = False\<rparr>,
       (nobody, (rbac_world, Map.empty)))))) = ''Request failed''"
  using login_never_arrives [OF sample_site_documented(1,2), of
      "\<lparr>lg_email = ''a@x'', lg_password = ''pw'', lg_error = [], lg_loading = False\<rparr>"
      "(nobody, (rbac_world, Map.empty))"] by simp

section \<open>Pages that stay empty\<close>

lemma api_path: "nginx (url_path (''/api/'' @ p)) =
    (if starts_with ''auth/'' (url_path p) then To_api (''/api/'' @ url_path p) else To_api (''/'' @ url_path p))"
  by (simp add: nginx_def url_path_def starts_with_def)

lemma empty_calls:
  assumes "routes_documented st" and "not_found_documented st"
  shows "apiFetch (site_env st) ''/projects'' opts again t = (Inl (PlainError ''Request failed''), t)"
    and "apiFetch (site_env st) ''/dashboard/summary'' opts again t = (Inl (PlainError ''Request failed''), t)"
    and "apiFetch (site_env st) (workers_path v) opts again t = (Inl (PlainError ''Request failed''), t)"
proof -
  note call = unrouted_call [OF assms]
  show "apiFetch (site_env st) ''/projects'' opts again t = (Inl (PlainError ''Request failed''), t)"
    by (rule call [OF _ unrouted_pages(5)]) (use api_path [of "''projects''"] in \<open>simp add: url_path_def starts_with_def\<close>)
  show "apiFetch (site_env st) ''/dashboard/summary'' opts again t = (Inl (PlainError ''Request failed''), t)"
    by (rule call [OF _ unrouted_pages(7)]) (use api_path [of "''dashboard/summary''"] in \<open>simp add: url_path_def starts_with_def\<close>)
  show "apiFetch (site_env st) (workers_path v) opts again t = (Inl (PlainError ''Request failed''), t)"
    by (rule call [OF _ unrouted_pages(6)])
      (use api_path [of "''workers?'' @ q" for q] in \<open>simp add: workers_path_def url_path_def starts_with_def\<close>)
qed

text \<open>
  The routes of projects, workers and the dashboard are registered under their prefix twice, and
  the pages ask for the documented paths: the summary stays unknown, the list of workers stays as it
  is, under \<open>Request failed\<close>, no project is found, and so no queue to submit a job to.
\<close>

lemma pages_without_routes:
  assumes "routes_documented st" and "not_found_documented st"
  shows "loadSummary (site_env st) (dv, t) = (Inr (), (dv, t)) \<and>
    loadWorkers (site_env st) wv (wv, t) =
      (Inr (), (wv\<lparr>wv_error := ''Request failed'', wv_loading := False\<rparr>, t)) \<and>
    loadProjects (site_env st) lib qv (qv, t) = (Inr (), (qv\<lparr>qv_error := ''Request failed''\<rparr>, t)) \<and>
    loadQueues (site_env st) jv (jv, t) = (Inr (), (jv, t))"
  using empty_calls [OF assms]
  by (simp add: loadSummary_def loadWorkers_def loadProjects_def loadQueues_def fetching_run bindA_def catchA_def
      finallyA_def thenA_def set_view_def modifyA_def retA_def show_error_def)

lemma pages_without_routes_witness:
  "wv_error (fst (snd (loadWorkers (site_env sample_site) (new_workers_page 0)
     (new_workers_page 0, (visitor, (rbac_world, Map.empty)))))) = ''Request failed''"
  using pages_without_routes [OF sample_site_documented(1,2), of new_dashboard "(visitor, (rbac_world, Map.empty))"
      "new_workers_page 0" plain_lib new_queues_page new_jobs_page] by simp

section \<open>The jobs page\<close>

text \<open>
  An answer with no rows, or with rows that are empty objects, or with no \<open>data\<close> at all.
\<close>

definition rows_empty :: "js \<Rightarrow> bool" where
  "rows_empty v \<longleftrightarrow> v = None \<or> (\<exists>n. v = Some (JArr (replicate n (JObj []))))"

definition bare :: "js \<Rightarrow> bool" where
  "bare v \<longleftrightarrow> rows_empty (opt_prop v ''data'')"

lemma errorHandler_bare: "bare (Some (wire dt (snd (errorHandler e))))" "jget (snd (errorHandler e)) ''data'' = None"
  "\<exists>fs. snd (errorHandler e) = JObj fs"
  by (cases e; auto simp: bare_def opt_prop_def rows_empty_def error_body_def)+

lemma wire_get: "map_of (map (map_prod id (wire dt)) fs) k = map_option (wire dt) (map_of fs k)"
  by (induction fs) auto

lemma jobs_route_only:
  assumes "rd \<in> set declared" and "reaches ''GET'' ''/jobs'' rd"
  shows "(rt_method (fst rd), rt_path (fst rd)) = (GET, ''/jobs'')"
proof -
  have "list_all (\<lambda>r. verb (rt_method r) = ''GET'' \<and> route_matches (rt_path r) ''/jobs'' \<longrightarrow>
      (rt_method r, rt_path r) = (GET, ''/jobs'')) api_routes"
    by (simp add: route_tables route_matches_def)
  moreover have "fst rd \<in> set api_routes" using assms(1) declared_route [of "fst rd" "snd rd"] by simp
  ultimately show ?thesis using assms(2) by (auto simp: reaches_def list_all_iff)
qed

lemma written_error_bare:
  assumes "serializes (fy_write fy)" and "rs_response d = [(200, bare_page)]"
  shows "bare (Some (wire dt (re_body (write_reply fy d \<lparr>re_status = fst (errorHandler e), re_body = snd (errorHandler e),
    re_cookies = []\<rparr>))))"
proof -
  obtain fs where fs: "snd (errorHandler e) = JObj fs" "map_of fs ''data'' = None"
    using errorHandler_bare(2,3) [of e] by auto
  then show ?thesis
    using errorHandler_bare(1) [of dt e] assms(2)
    by (auto simp: write_reply_def bare_page_def serializes_rules(1) [OF assms(1)] map_filter_concat
        bare_def opt_prop_def rows_empty_def split: option.split)
qed

lemma api_jobs_bare:
  assumes "routes_documented st" and "not_found_documented st" and "serializes (fy_write (st_fastify st))"
    and "ft_method r = ''GET''"
  shows "bare (fr_json (fst (api_answer st r ''/jobs'' s)))"
proof (cases "st_route st ''GET'' ''/jobs''")
  case None
  then show ?thesis using assms(2,4)
    by (simp add: api_answer_def not_found_documented_def bare_def opt_prop_def rows_empty_def)
next
  case (Some rd)
  obtain rt d where rd: "rd = (rt, d)" by (cases rd)
  have dec: "(rt, d) \<in> set declared" and path: "(rt_method rt, rt_path rt) = (GET, ''/jobs'')"
    using assms(1) Some jobs_route_only [of rd] unfolding routes_documented_def rd by auto
  have listing: "(rt_method rt, rt_path rt) \<in> set listing_paths" by (simp add: path listing_paths_def)
  note d = handlers_listing(2) [OF dec listing]
  show ?thesis
  proof (cases "st_decode st r ''/jobs'' rt")
    case (Inl e)
    then show ?thesis using Some assms(4) rd errorHandler_bare(1) [of "st_iso st" e]
      by (simp add: api_answer_def on_the_wire_def case_prod_beta)
  next
    case (Inr req)
    have "bare (Some (wire (st_iso st) (re_body (fst (answer_request (st_fastify st) (st_services st) (rt, d) req s)))))"
    proof (cases "admit (st_fastify st) d req")
      case (Inl v)
      then show ?thesis using errorHandler_bare(1) [of "st_iso st" "FastifyValidationError v"]
        by (simp add: answer_request_def)
    next
      case (Inr req')
      let ?m = "bindA (run_pres (st_services st) (rt_pre rt) req') (\<lambda>req''. on_world (rt_handler rt (st_services st) req''))"
      obtain res s' where run: "?m s = (res, s')" by (cases "?m s")
      show ?thesis
      proof (cases res)
        case (Inl e)
        then show ?thesis
          using run Inr written_error_bare [OF assms(3) d, of "st_iso st" e]
          by (simp add: answer_request_def respond_def case_prod_beta)
      next
        case (Inr reply)
        then obtain req'' u where "fst (on_world (rt_handler rt (st_services st) req'') u) = Inr reply"
          using run by (auto simp: bindA_def split: prod.splits sum.splits) (metis fst_conv)
        then have "fst (rt_handler rt (st_services st) req'' (fst u)) = Inr reply"
          by (simp add: on_world_def split: prod.splits)
        from listing_written [OF assms(3) dec listing this] show ?thesis
          using run \<open>admit (st_fastify st) d req = Inr req'\<close> Inr
          by (auto simp: answer_request_def respond_def bare_def opt_prop_def rows_empty_def)
      qed
    qed
    then show ?thesis using Some Inr assms(4) rd
      by (simp add: api_answer_def on_the_wire_def case_prod_beta)
  qed
qed

lemma jobs_call_bare:
  assumes "routes_documented st" and "not_found_documented st" and "serializes (fy_write (st_fastify st))"
    and "apiFetch (site_env st) (jobs_path v) plain_get again t = (Inr x, t')"
  shows "bare x"
proof -
  obtain b s where t: "t = (b, s)" by (cases t)
  let ?r = "api_request [] (jobs_path v) plain_get (br_token b)"
  obtain res s' where a: "api_answer st ?r ''/jobs'' s = (res, s')" by (cases "api_answer st ?r ''/jobs'' s")
  have "nginx (url_path (''/api'' @ jobs_path v)) = To_api ''/jobs''"
    using api_path [of "''jobs?'' @ form_text (jobs_params v)"]
    by (simp add: jobs_path_def url_path_def starts_with_def)
  then have fetch: "site_fetch st ?r s = (Some res, s')" using a by (simp add: site_fetch_def)
  have "ft_method ?r = ''GET''" by (simp add: api_request_def plain_get_def Let_def)
  from api_jobs_bare [OF assms(1-3) this, of s] a have bare: "bare (fr_json res)" by simp
  show ?thesis
  proof (cases "fr_status res = 401 \<and> again")
    case True
    then show ?thesis using assms(4) fetch auth_calls(4) [OF assms(1,2)]
      by (simp add: t apiFetch.simps [of _ "jobs_path v"] bindA_def readA_def getToken_def do_fetch_def on_browser_def modifyA_def
          throwA_def)
  next
    case False
    then have "conclude (site_env st) res (b, s') = (Inr x, t')" using assms(4) fetch
      by (auto simp: t apiFetch.simps [of _ "jobs_path v"] bindA_def readA_def getToken_def do_fetch_def)
    then have "x = None \<or> x = fr_json res"
      by (cases "fr_json res") (auto simp: conclude_def the_json_def someA_def throwA_def retA_def bindA_def split: if_splits)
    then show ?thesis using bare by (auto simp: bare_def opt_prop_def rows_empty_def)
  qed
qed

text \<open>A sequence whose first call returns only values in \<open>P\<close>.\<close>

lemma keeping_bind_returns:
  assumes "keeping I m" and "returns P m" and "\<And>x. P x \<Longrightarrow> keeping I (f x)"
  shows "keeping I (bindA m f)"
proof (rule guarI, rule impI)
  fix s :: "'a \<times> browser \<times> 'b"
  assume s: "I (fst s)"
  obtain r u where m: "m s = (r, u)" by (cases "m s")
  with assms(1) s have "I (fst u)" by (auto dest: guarD')
  moreover have "P x" if "r = Inr x" for x using returnsD [OF assms(2), of s x] m that by simp
  ultimately show "I (fst (snd (bindA m f s)))"
    using m guarD [OF assms(3), of _ u] by (cases r) (auto simp: bindA_def)
qed

lemma returns_read_prop: "returns (\<lambda>x. x = opt_prop v k) (read_prop v k)"
  by (auto simp: returns_def read_prop_def opt_prop_def retA_def throwA_def split: option.splits)

lemma loadJobs_shows_none:
  assumes "routes_documented st" and "not_found_documented st" and "serializes (fy_write (st_fastify st))"
  shows "keeping (\<lambda>p. rows_empty (jv_jobs p)) (loadJobs (site_env st) v)"
proof -
  have "returns bare (fetching (site_env st) (jobs_path v) plain_get)"
    using jobs_call_bare [OF assms] by (auto simp: returns_def fetching_def in_browser_def split: prod.splits)
  note call = keeping_bind_returns [OF keeping_fetching this]
  show ?thesis
    unfolding loadJobs_def jobs_received_def jobs_begin_def
    by (intro keeps.then_guar keeping_set_view keeps.finally_guar keeps.catch_guar call keeping_bind_returns [OF keeping_values(1) returns_read_prop]
        keeps.bind_guar keeping_values(1); simp add: bare_def)
qed

text \<open>
  C26. The jobs page never shows a job: \<open>GET /jobs\<close> declares its items and \<open>meta\<close> as objects without
  properties, so what reaches the page is one empty object per job and no total. Whatever happens on
  the page, from when it is opened: its table never has a row. With no job it says so; with some,
  rendering fails on the id that is missing.
\<close>

theorem jobs_page_never_shows_a_job:
  assumes "routes_documented st" and "not_found_documented st" and "serializes (fy_write (st_fastify st))"
  shows "\<not> has_rows (fst (jobs_run n (site_env st) lib evs (new_jobs_page, t)))"
proof -
  have "rows_empty (jv_jobs (fst s)) \<Longrightarrow> rows_empty (jv_jobs (fst (jobs_run n (site_env st) lib evs s)))" for s
    by (induction evs arbitrary: s) (simp_all add: jobs_run_def step_keeps_rows loadJobs_shows_none [OF assms])
  moreover have "rows_empty (jv_jobs new_jobs_page)"
    by (auto simp: new_jobs_page_def rows_empty_def intro: exI [of _ "0::nat"])
  ultimately have empty: "rows_empty (jv_jobs (fst (jobs_run n (site_env st) lib evs (new_jobs_page, t))))" by simp
  have "rows_empty (jv_jobs v) \<Longrightarrow> \<not> has_rows v" for v
  proof -
    assume "rows_empty (jv_jobs v)"
    then consider "jv_jobs v = None" | "jv_jobs v = Some (JArr [])" | k where "jv_jobs v = Some (JArr (JObj [] # replicate k (JObj [])))"
      unfolding rows_empty_def by (metis (no_types, opaque_lifting) replicate_0 replicate_Suc not0_implies_Suc)
    then show "\<not> has_rows v"
      by cases (use row_without_id [of v _ "()"] in
        \<open>auto simp: has_rows_def render_table_def read_prop_def throwA_def retA_def jint_def bindA_def\<close>)
  qed
  with empty show ?thesis by blast
qed

theorem jobs_page_never_shows_a_job_witness:
  "\<not> offered plain_lib (fst (jobs_run 2 (site_env sample_site) plain_lib [JobsPage.Opened, Transition]
     (new_jobs_page, (visitor, (rbac_world, Map.empty))))) Next"
proof -
  have "serializes (fy_write (st_fastify sample_site))" by (simp add: sample_site_def sample_fastify(2))
  from jobs_page_never_shows_a_job [OF sample_site_documented(1,2) this] show ?thesis by simp
qed

end
