(* ===== verification/Sockets.thy ===== *)
theory Sockets
  imports System
begin

text \<open>
  \<open>api/src/socket/index.ts\<close>: rooms of socket.io clients and the dispatch of Redis messages to
  them. A client joins and leaves the room of a queue or a project; a message on
  \<open>job:transitions\<close> goes to the rooms its fields name, one on \<open>worker:heartbeat\<close> to everyone.
  socket.io keeps the connections and the rooms (\<open>join\<close>, \<open>leave\<close>, removal on disconnection), as it
  documents. The text of a value that is not a string in a template literal is the argument
  \<open>fmt\<close>; a message that \<open>JSON.parse\<close> refuses is \<open>None\<close>.
\<close>

section \<open>Rooms\<close>

record sockets =
  so_connected :: "string list"
  so_rooms :: "(string \<times> string) list"  \<comment> \<open>(socket, room)\<close>

definition no_sockets :: sockets where
  "no_sockets = \<lparr>so_connected = [], so_rooms = []\<rparr>"

datatype socket_event =
    Connection string
  | Subscribe_queue string json
  | Subscribe_project string json
  | Unsubscribe_queue string json
  | Unsubscribe_project string json
  | Disconnect string

type_synonym emission = "string \<times> string \<times> json"  \<comment> \<open>socket, event, data\<close>

definition in_template :: "(json \<Rightarrow> string) \<Rightarrow> json \<Rightarrow> string" where
  "in_template fmt v = (case v of JStr s \<Rightarrow> s | _ \<Rightarrow> fmt v)"

definition queue_room :: "string \<Rightarrow> string" where "queue_room i = ''queue:'' @ i"

definition project_room :: "string \<Rightarrow> string" where "project_room i = ''project:'' @ i"

definition join_room :: "string \<Rightarrow> string \<Rightarrow> sockets \<Rightarrow> emission list \<times> sockets" where
  "join_room socket room s =
     ([(socket, ''subscribed'', JObj [(''room'', JStr room)])],
      s\<lparr>so_rooms := List.insert (socket, room) (so_rooms s)\<rparr>)"

definition leave_room :: "string \<Rightarrow> string \<Rightarrow> sockets \<Rightarrow> emission list \<times> sockets" where
  "leave_room socket room s = ([], s\<lparr>so_rooms := removeAll (socket, room) (so_rooms s)\<rparr>)"

text \<open>\<open>if (typeof id !== 'string' || !id) return\<close>.\<close>

definition subscribe :: "(string \<Rightarrow> string) \<Rightarrow> string \<Rightarrow> json \<Rightarrow> sockets \<Rightarrow> emission list \<times> sockets" where
  "subscribe room socket v s = (case v of
     JStr i \<Rightarrow> if i = [] then ([], s) else join_room socket (room i) s
   | _ \<Rightarrow> ([], s))"

fun sender :: "socket_event \<Rightarrow> string" where
  "sender (Connection socket) = socket"
| "sender (Subscribe_queue socket v) = socket"
| "sender (Subscribe_project socket v) = socket"
| "sender (Unsubscribe_queue socket v) = socket"
| "sender (Unsubscribe_project socket v) = socket"
| "sender (Disconnect socket) = socket"

fun handle_event :: "(json \<Rightarrow> string) \<Rightarrow> socket_event \<Rightarrow> sockets \<Rightarrow> emission list \<times> sockets" where
  "handle_event fmt (Connection socket) s = ([], s\<lparr>so_connected := List.insert socket (so_connected s)\<rparr>)"
| "handle_event fmt (Subscribe_queue socket v) s = subscribe queue_room socket v s"
| "handle_event fmt (Subscribe_project socket v) s = subscribe project_room socket v s"
| "handle_event fmt (Unsubscribe_queue socket v) s = leave_room socket (queue_room (in_template fmt v)) s"
| "handle_event fmt (Unsubscribe_project socket v) s = leave_room socket (project_room (in_template fmt v)) s"
| "handle_event fmt (Disconnect socket) s =
     ([], \<lparr>so_connected = removeAll socket (so_connected s),
           so_rooms = filter (\<lambda>(x, room). x \<noteq> socket) (so_rooms s)\<rparr>)"

text \<open>Only connected clients send.\<close>

definition on_socket :: "(json \<Rightarrow> string) \<Rightarrow> socket_event \<Rightarrow> sockets \<Rightarrow> emission list \<times> sockets" where
  "on_socket fmt e s =
     (if sender e \<in> set (so_connected s) \<or> (\<exists>x. e = Connection x) then handle_event fmt e s else ([], s))"

definition after_events :: "(json \<Rightarrow> string) \<Rightarrow> socket_event list \<Rightarrow> sockets" where
  "after_events fmt evs = fold (\<lambda>e s. snd (on_socket fmt e s)) evs no_sockets"

section \<open>Dispatch\<close>

definition to_room :: "string \<Rightarrow> json \<Rightarrow> sockets \<Rightarrow> emission list" where
  "to_room room event s = map (\<lambda>(x, _). (x, ''job:update'', event)) (filter (\<lambda>(_, r). r = room) (so_rooms s))"

definition emit_if :: "(json \<Rightarrow> string) \<Rightarrow> (string \<Rightarrow> string) \<Rightarrow> json \<Rightarrow> string \<Rightarrow> sockets \<Rightarrow> emission list" where
  "emit_if fmt room event field s = (case jget event field of
     None \<Rightarrow> []
   | Some v \<Rightarrow> if truthy v then to_room (room (in_template fmt v)) event s else [])"

definition dispatch :: "(json \<Rightarrow> string) \<Rightarrow> string \<Rightarrow> json option \<Rightarrow> sockets \<Rightarrow> emission list" where
  "dispatch fmt channel message s = (case message of
     None \<Rightarrow> []
   | Some event \<Rightarrow>
       if channel = ''job:transitions'' then
         emit_if fmt queue_room event ''queueId'' s @ emit_if fmt project_room event ''projectId'' s
       else if channel = ''worker:heartbeat'' then
         map (\<lambda>x. (x, ''worker:update'', event)) (so_connected s)
       else [])"

text \<open>Everything Redis has delivered since \<open>w\<close>, up to \<open>w'\<close>.\<close>

definition dispatched :: "(json \<Rightarrow> string) \<Rightarrow> world \<Rightarrow> world \<Rightarrow> sockets \<Rightarrow> emission list" where
  "dispatched fmt w w' s =
     concat (map (\<lambda>(channel, event). dispatch fmt channel (Some event) s)
       (drop (length (published w)) (published w')))"

section \<open>Updates follow subscriptions\<close>

text \<open>
  The reference: reading the events backwards, the last one of the client about this queue decides;
  a disconnection ends its subscriptions.
\<close>

fun subscribed :: "(json \<Rightarrow> string) \<Rightarrow> string \<Rightarrow> string \<Rightarrow> socket_event list \<Rightarrow> bool" where
  "subscribed fmt socket q [] = False"
| "subscribed fmt socket q (Subscribe_queue x v # before) =
     (x = socket \<and> v = JStr q \<or> subscribed fmt socket q before)"
| "subscribed fmt socket q (Unsubscribe_queue x v # before) =
     (\<not> (x = socket \<and> in_template fmt v = q) \<and> subscribed fmt socket q before)"
| "subscribed fmt socket q (Disconnect x # before) = (x \<noteq> socket \<and> subscribed fmt socket q before)"
| "subscribed fmt socket q (_ # before) = subscribed fmt socket q before"

text \<open>Clients send nothing before they connect or after they disconnect.\<close>

fun orderly :: "string list \<Rightarrow> socket_event list \<Rightarrow> bool" where
  "orderly online [] = True"
| "orderly online (Connection x # evs) = orderly (List.insert x online) evs"
| "orderly online (Disconnect x # evs) = (x \<in> set online \<and> orderly (removeAll x online) evs)"
| "orderly online (e # evs) = (sender e \<in> set online \<and> orderly online evs)"

lemma room_inject [simp]: "queue_room i = queue_room j \<longleftrightarrow> i = j" "queue_room i \<noteq> project_room j"
  "project_room j \<noteq> queue_room i"
  by (simp_all add: queue_room_def project_room_def)

lemma subscribed_handle:
  assumes "q \<noteq> []" and "(socket, queue_room q) \<in> set (so_rooms s) \<longleftrightarrow> subscribed fmt socket q before"
  shows "(socket, queue_room q) \<in> set (so_rooms (snd (handle_event fmt e s))) \<longleftrightarrow>
    subscribed fmt socket q (e # before)"
  using assms by (cases e) (auto simp: subscribe_def join_room_def leave_room_def split: json.split)

lemma orderly_snoc_connected:
  "orderly (so_connected s) (e # evs) \<Longrightarrow>
    on_socket fmt e s = handle_event fmt e s \<and> orderly (so_connected (snd (handle_event fmt e s))) evs"
  by (cases e) (auto simp: on_socket_def subscribe_def join_room_def leave_room_def split: json.split)

lemma rooms_are_subscriptions:
  assumes "q \<noteq> []"
  shows "orderly (so_connected s) evs \<Longrightarrow>
    (socket, queue_room q) \<in> set (so_rooms s) \<longleftrightarrow> subscribed fmt socket q before \<Longrightarrow>
    (socket, queue_room q) \<in> set (so_rooms (fold (\<lambda>e s. snd (on_socket fmt e s)) evs s)) \<longleftrightarrow>
      subscribed fmt socket q (rev evs @ before)"
proof (induction evs arbitrary: s before)
  case (Cons e evs)
  note run = orderly_snoc_connected [OF Cons.prems(1), of fmt]
  from Cons.IH [of "snd (handle_event fmt e s)" "e # before"] show ?case
    using run subscribed_handle [OF assms Cons.prems(2), of e] by simp
qed simp

lemma rooms_distinct: "distinct (so_rooms s) \<Longrightarrow> distinct (so_rooms (fold (\<lambda>e s. snd (on_socket fmt e s)) evs s))"
proof (induction evs arbitrary: s)
  case (Cons e evs)
  have "distinct (so_rooms (snd (on_socket fmt e s)))"
    using Cons.prems by (cases e) (auto simp: on_socket_def subscribe_def join_room_def leave_room_def distinct_removeAll split: json.split)
  with Cons.IH show ?case by simp
qed simp


definition queue_event :: json where
  "queue_event = JObj [(''jobId'', JStr ''a''), (''queueId'', JStr ''q''), (''status'', JStr ''running'')]"


section \<open>The workers' events name no project\<close>

definition unaddressed :: "world \<Rightarrow> world \<Rightarrow> bool" where
  "unaddressed s t \<longleftrightarrow> (\<exists>new. published t = published s @ new \<and>
     list_all (\<lambda>(channel, event). channel = ''job:transitions'' \<longrightarrow> jget event ''projectId'' = None) new)"

interpretation unaddressed: two_state unaddressed
proof
  show "unaddressed s s" for s by (simp add: unaddressed_def)
  show "unaddressed s u" if "unaddressed s t" "unaddressed t u" for s t u
    using that by (auto simp: unaddressed_def)
qed

lemma unaddressed_same: "published t = published s \<Longrightarrow> unaddressed s t"
  by (simp add: unaddressed_def)

lemma unaddressed_call: "guar unaddressed m \<Longrightarrow> guar unaddressed (callA env p m)"
  by (rule call_guar) unfold_locales

lemma unaddressed_tables:
  shows "guar unaddressed (job_update i f)" and "guar unaddressed (job_create j)"
    and "guar unaddressed (exec_update x g)" and "guar unaddressed (exec_create e)"
    and "guar unaddressed (log_create l)" and "guar unaddressed (dlq_create d)"
    and "guar unaddressed (worker_update v h)" and "guar unaddressed (sched_update sj k)"
    and "guar unaddressed (heartbeat_create b)"
  by (auto simp: guar_def job_update_def job_put_def job_create_def exec_update_def exec_put_def exec_create_def
      log_create_def dlq_create_def worker_update_def worker_put_def sched_update_def sched_put_def
      heartbeat_create_def intro: unaddressed_same split: option.split)

lemma unaddressed_modify: "(\<And>s. published (g s) = published s) \<Longrightarrow> guar unaddressed (modifyA g)"
  by (rule unaddressed.modify_guar) (simp add: unaddressed_same)

lemma unaddressed_publish:
  "map_of fs ''projectId'' = None \<Longrightarrow> guar unaddressed (publish c fs)"
  by (rule guarI) (simp add: publish_def modifyA_def unaddressed_def)

lemmas unaddressed_walk = unaddressed.guar_combinators unaddressed.if_guar unaddressed.option_guar
  unaddressed_call unaddressed_tables

lemma transition_unaddressed: "guar unaddressed (publishTransition env i st q)"
  unfolding publishTransition_def
  by (intro unaddressed_walk unaddressed_publish) (simp add: transition_event_def)

lemma executeJob_unaddressed: "guar unaddressed (executeJob env i v)"
proof -
  have success: "guar unaddressed (success_path env job i x ls r)" for job x ls r
    unfolding success_path_def complete_transaction_def flush_logs_def Let_def sum.case_eq_if
    by (intro unaddressed_walk transition_unaddressed)
  have failure: "guar unaddressed (failure_path env job p i x ls e)" for job p x ls e
    unfolding failure_path_def retry_transaction_def dead_transaction_def flush_logs_def Let_def
    by (intro unaddressed_walk transition_unaddressed)
  show ?thesis
    unfolding executeJob_def mark_running_def open_execution_def case_prod_beta
    by (intro unaddressed_walk success failure transition_unaddressed)
qed

lemma reap_unaddressed: "guar unaddressed (reap env ttl)"
proof -
  have fail: "guar unaddressed (modifyA (fail_open_executions v i now))" for v i now
    by (rule unaddressed_modify) (simp add: fail_open_executions_def)
  show ?thesis
    unfolding reap_def reap_worker_def requeue_orphan_def Let_def
    by (intro unaddressed_walk fail unaddressed_publish) simp
qed

lemma beat_unaddressed: "guar unaddressed (write_heartbeat env v n cpu)"
proof -
  have prune: "guar unaddressed (modifyA (\<lambda>w. w\<lparr>worker_heartbeats := prune_heartbeats v (worker_heartbeats w)\<rparr>))"
    by (rule unaddressed_modify) simp
  show ?thesis
    unfolding write_heartbeat_def by (intro unaddressed_walk prune unaddressed_publish) simp
qed

lemma tick_unaddressed: "guar unaddressed (tick env cron)"
  unfolding tick_def materialize_def sum.case_eq_if
  by (intro unaddressed_walk unaddressed_publish) (simp add: created_event_def)

lemma claim_unaddressed: "guar unaddressed (claimJobs env locked q limit)"
proof -
  have "guar unaddressed (modifyA (mark_claimed now ids))" for now ids
    by (rule unaddressed_modify) (simp add: mark_claimed_def)
  then show ?thesis
    unfolding claimJobs_def claim_transaction_def Let_def by (intro unaddressed_walk)
qed

fun by_worker :: "service_op \<Rightarrow> bool" where
  "by_worker (Claim _ _ _ _) = True"
| "by_worker (Launch _ _ _) = True"
| "by_worker (Reap _ _) = True"
| "by_worker (Beat _ _ _ _) = True"
| "by_worker (Tick _ _) = True"
| "by_worker _ = False"

lemma serve_unaddressed: "by_worker x \<Longrightarrow> unaddressed (fst s) (fst (serve x s))"
proof (cases s)
  case (Pair w T)
  assume "by_worker x"
  then show ?thesis
  proof (cases x)
    case (Claim env locked q limit)
    then show ?thesis
      using guarD [OF claim_unaddressed, of w env locked q limit] Pair
      by (auto split: prod.split sum.split)
  qed (use Pair guarD [OF executeJob_unaddressed, of w] guarD [OF reap_unaddressed, of w]
      guarD [OF tick_unaddressed, of w] guarD [OF beat_unaddressed, of w] unaddressed.refl_R in auto)
qed

lemma run_unaddressed: "list_all by_worker ops \<Longrightarrow> unaddressed (fst s) (fst (run_system ops s))"
proof (induction ops arbitrary: s)
  case (Cons x ops)
  then have "unaddressed (fst s) (fst (serve x s))" "unaddressed (fst (serve x s)) (fst (run_system ops (serve x s)))"
    using serve_unaddressed by auto
  then show ?case by (simp add: unaddressed.trans_R)
qed (simp add: unaddressed.refl_R)

text \<open>
  Whatever the workers do (claiming, running and finishing jobs, reaping, ticking), in whatever
  order and with whatever failures, a client that has subscribed to a project and to none of its
  queues is told of no job's progress: the events of the workers do not name the project, so the
  room of the project, which the documentation describes as all events in a project, stays silent.
\<close>

lemma project_rooms_silent:
  assumes "list_all by_worker ops" and "\<And>q. (socket, queue_room q) \<notin> set (so_rooms s)"
  shows "(socket, ''job:update'', data) \<notin> set (dispatched fmt w (fst (run_system ops (w, T))) s)"
proof -
  obtain new where new: "published (fst (run_system ops (w, T))) = published w @ new"
      "list_all (\<lambda>(channel, event). channel = ''job:transitions'' \<longrightarrow> jget event ''projectId'' = None) new"
    using run_unaddressed [OF assms(1), of "(w, T)"] by (auto simp: unaddressed_def)
  have "(socket, ''job:update'', data) \<notin> set (dispatch fmt channel (Some event) s)"
    if "(channel, event) \<in> set new" for channel event
    using that new(2) assms(2)
    by (auto simp: dispatch_def emit_if_def to_room_def list_all_iff split: option.splits)
  then show ?thesis by (auto simp: dispatched_def new(1))
qed

lemma project_rooms_silent_witness:
  "\<forall>data. (''s'', ''job:update'', data) \<notin> set (dispatched (\<lambda>_. []) crashed
     (fst (run_system [Reap (calm_env 60000) 30] (crashed, {#})))
     (after_events (\<lambda>_. []) [Connection ''s'', Subscribe_project ''s'' (JStr ''p'')]))"
  by (intro allI, rule project_rooms_silent)
    (simp_all add: after_events_def on_socket_def no_sockets_def subscribe_def join_room_def)

end
