(* ===== verification/ApiMain.thy ===== *)
theory ApiMain
  imports Site Sockets Timers
begin

text \<open>
  \<open>main\<close> of \<open>api/src/index.ts\<close>: the HTTP servers of the process, which of them listens, the graceful
  shutdown; and what this means for the live updates of \<open>api/src/socket/index.ts\<close>. What Node and the
  libraries do is as they document it: \<open>createServer\<close> makes a server that does not listen,
  \<open>fastify.listen\<close> makes the server of Fastify listen, socket.io serves the connections of the server
  it is attached to. The calls that may fail are the points; log output is left out.
\<close>

section \<open>The process\<close>

datatype server_app = Fastify_app | Socket_io

record http_server =
  hs_apps :: "server_app list"
  hs_address :: "(string \<times> int) option"

datatype api_ending = Exited int | Killed

record api_process =
  ap_servers :: "http_server list"
  ap_redis :: bool  \<comment> \<open>connected\<close>
  ap_signals :: bool  \<comment> \<open>the handlers of SIGTERM and SIGINT are installed\<close>
  ap_closing :: nat  \<comment> \<open>shutdowns that wait for \<open>fastify.close()\<close>\<close>
  ap_ending :: "api_ending option"

datatype main_call = A_build | A_redis | A_listen | A_close | A_disconnect

record api_settings =
  as_port :: "int option"  \<comment> \<open>\<open>Number(process.env.API_PORT)\<close>\<close>
  as_host :: "string option"

definition PORT :: "api_settings \<Rightarrow> int" where
  "PORT c = env_number (as_port c) 4000"

definition HOST :: "api_settings \<Rightarrow> string" where
  "HOST c = or_else (truthy_str (as_host c)) ''0.0.0.0''"

definition new_api_process :: api_process where
  "new_api_process = \<lparr>ap_servers = [], ap_redis = False, ap_signals = False, ap_closing = 0, ap_ending = None\<rparr>"

type_synonym 'a api_act = "(api_process, js_error, 'a) act"

definition attempt :: "main_call env \<Rightarrow> main_call \<Rightarrow> 'a api_act \<Rightarrow> 'a api_act" where
  "attempt env p m = (case fails env p of Some e \<Rightarrow> throwA e | None \<Rightarrow> m)"

text \<open>A server is its place in the list; \<open>fastify.server\<close> is made first.\<close>

definition new_server :: "server_app list \<Rightarrow> nat api_act" where
  "new_server apps p = (Inr (length (ap_servers p)),
     p\<lparr>ap_servers := ap_servers p @ [\<lparr>hs_apps = apps, hs_address = None\<rparr>]\<rparr>)"

definition on_server :: "nat \<Rightarrow> (http_server \<Rightarrow> http_server) \<Rightarrow> unit api_act" where
  "on_server i f = modifyA (\<lambda>p. p\<lparr>ap_servers := (ap_servers p)[i := f (ap_servers p ! i)]\<rparr>)"

definition buildApp :: "main_call env \<Rightarrow> nat api_act" where
  "buildApp env = attempt env A_build (new_server [Fastify_app])"

text \<open>\<open>new SocketServer(httpServer, ..)\<close>.\<close>

definition attachSocketServer :: "nat \<Rightarrow> unit api_act" where
  "attachSocketServer httpServer = on_server httpServer (\<lambda>h. h\<lparr>hs_apps := hs_apps h @ [Socket_io]\<rparr>)"

definition start_api :: "main_call env \<Rightarrow> api_settings \<Rightarrow> unit api_act" where
  "start_api env c =
     bindA (buildApp env) (\<lambda>fastify.
     bindA (new_server []) (\<lambda>httpServer.
     bindA (attachSocketServer httpServer) (\<lambda>_.
     bindA (attempt env A_redis (modifyA (\<lambda>p. p\<lparr>ap_redis := True\<rparr>))) (\<lambda>_.
     bindA (attempt env A_listen (on_server fastify (\<lambda>h. h\<lparr>hs_address := Some (HOST c, PORT c)\<rparr>))) (\<lambda>_.
     modifyA (\<lambda>p. p\<lparr>ap_signals := True\<rparr>))))))"

definition api_main :: "main_call env \<Rightarrow> api_settings \<Rightarrow> unit api_act" where
  "api_main env c = catchA (start_api env c) (\<lambda>err. modifyA (\<lambda>p. p\<lparr>ap_ending := Some (Exited 1)\<rparr>))"

text \<open>
  \<open>shutdown\<close> up to \<open>await fastify.close()\<close>, which makes the server of Fastify stop listening, and
  after it. Nothing catches a rejection, which ends a Node process with 1. Without handlers a signal
  kills the process.
\<close>

datatype api_event = Api_signal | Api_closed "main_call env"

definition api_step :: "api_event \<Rightarrow> api_process \<Rightarrow> api_process" where
  "api_step e p =
     (if ap_ending p \<noteq> None then p
      else case e of
        Api_signal \<Rightarrow>
          if ap_signals p then p\<lparr>ap_closing := ap_closing p + 1,
            ap_servers := (ap_servers p)[0 := (ap_servers p ! 0)\<lparr>hs_address := None\<rparr>]\<rparr>
          else p\<lparr>ap_ending := Some Killed\<rparr>
      | Api_closed env \<Rightarrow>
          if ap_closing p = 0 then p
          else if fails env A_close \<noteq> None \<or> fails env A_disconnect \<noteq> None then p\<lparr>ap_ending := Some (Exited 1)\<rparr>
          else p\<lparr>ap_redis := False, ap_ending := Some (Exited 0)\<rparr>)"

definition api_life :: "main_call env \<Rightarrow> api_settings \<Rightarrow> api_event list \<Rightarrow> api_process" where
  "api_life env c evs = fold api_step evs (snd (api_main env c new_api_process))"

text \<open>What answers a connection to an address.\<close>

definition answering :: "api_process \<Rightarrow> string \<times> int \<Rightarrow> server_app list" where
  "answering p address =
     (if ap_ending p \<noteq> None then []
      else concat (map hs_apps (filter (\<lambda>h. hs_address h = Some address) (ap_servers p))))"

section \<open>Start and end\<close>

lemmas main_defs = api_main_def start_api_def buildApp_def attempt_def new_server_def attachSocketServer_def
  on_server_def new_api_process_def act_defs

definition api_started :: "api_settings \<Rightarrow> api_process" where
  "api_started c = \<lparr>ap_servers = [\<lparr>hs_apps = [Fastify_app], hs_address = Some (HOST c, PORT c)\<rparr>,
     \<lparr>hs_apps = [Socket_io], hs_address = None\<rparr>],
     ap_redis = True, ap_signals = True, ap_closing = 0, ap_ending = None\<rparr>"

text \<open>The API is up when nothing of the start fails; otherwise the process has exited with 1.\<close>

lemma api_main_result:
  "if fails env A_build = None \<and> fails env A_redis = None \<and> fails env A_listen = None
   then api_main env c new_api_process = (Inr (), api_started c)
   else ap_ending (snd (api_main env c new_api_process)) = Some (Exited 1)"
  by (cases "fails env A_build"; cases "fails env A_redis"; cases "fails env A_listen") (simp_all add: main_defs api_started_def)

text \<open>
  After a signal the API answers nobody; it exits with 0 and without its connections once closing
  succeeds, however many signals come before.
\<close>

definition closing :: "api_process \<Rightarrow> bool" where
  "closing p \<longleftrightarrow> ap_ending p = None \<and> ap_signals p \<and> 0 < ap_closing p \<and> length (ap_servers p) = 2 \<and>
     hs_address (ap_servers p ! 0) = None \<and> hs_address (ap_servers p ! 1) = None"

lemma closing_signals: "closing p \<Longrightarrow> closing (fold api_step (replicate n Api_signal) p)"
proof (induction n arbitrary: p)
  case (Suc n)
  have "closing (api_step Api_signal p)"
    using Suc.prems by (auto simp: closing_def api_step_def nth_list_update)
  then show ?case using Suc.IH by simp
qed simp

lemma ended_stays: "ap_ending p = Some x \<Longrightarrow> fold api_step evs p = p"
  by (induction evs) (simp_all add: api_step_def)

lemma api_shutdown:
  assumes "fails env A_close = None" and "fails env A_disconnect = None"
  shows "answering (fold api_step (replicate (Suc n) Api_signal) (api_started c)) address = [] \<and>
    (case fold api_step (replicate (Suc n) Api_signal @ Api_closed env # evs) (api_started c) of p \<Rightarrow>
       ap_ending p = Some (Exited 0) \<and> \<not> ap_redis p)"
proof -
  define p where "p = fold api_step (replicate (Suc n) Api_signal) (api_started c)"
  have "closing (api_step Api_signal (api_started c))" by (simp add: closing_def api_step_def api_started_def)
  then have p: "closing p" using closing_signals by (simp add: p_def)
  then have "answering p address = []"
    by (auto simp: closing_def answering_def numeral_2_eq_2 length_Suc_conv)
  moreover have "api_step (Api_closed env) p = p\<lparr>ap_redis := False, ap_ending := Some (Exited 0)\<rparr>"
    using p assms by (simp add: closing_def api_step_def)
  then have "fold api_step (replicate (Suc n) Api_signal @ Api_closed env # evs) (api_started c) =
      p\<lparr>ap_redis := False, ap_ending := Some (Exited 0)\<rparr>"
    unfolding fold_append comp_def p_def [symmetric] fold_simps by (simp add: ended_stays)
  ultimately show ?thesis unfolding p_def [symmetric] by simp
qed

section \<open>Nobody listens for the sockets\<close>

definition deaf :: "http_server \<Rightarrow> bool" where
  "deaf h \<longleftrightarrow> (if Socket_io \<in> set (hs_apps h) then hs_address h = None else True)"

lemma deaf_step: "list_all deaf (ap_servers p) \<Longrightarrow> ap_servers p = [] \<or> Socket_io \<notin> set (hs_apps (ap_servers p ! 0)) \<Longrightarrow>
    list_all deaf (ap_servers (api_step e p)) \<and>
    (ap_servers (api_step e p) = [] \<or> Socket_io \<notin> set (hs_apps (ap_servers (api_step e p) ! 0)))"
  by (cases "ap_servers p") (auto simp: api_step_def deaf_def split: api_event.split)

lemma deaf_life:
  "list_all deaf (ap_servers (api_life env c evs))"
proof -
  have "list_all deaf (ap_servers (fold api_step evs p))"
    if "list_all deaf (ap_servers p)" "ap_servers p = [] \<or> Socket_io \<notin> set (hs_apps (ap_servers p ! 0))" for p
    using that
  proof (induction evs arbitrary: p)
    case (Cons e evs)
    then show ?case using deaf_step [OF Cons.prems, of e] by simp
  qed simp
  moreover have "list_all deaf (ap_servers (snd (api_main env c new_api_process))) \<and>
      (ap_servers (snd (api_main env c new_api_process)) = [] \<or>
       Socket_io \<notin> set (hs_apps (ap_servers (snd (api_main env c new_api_process)) ! 0)))"
    by (cases "fails env A_build"; cases "fails env A_redis"; cases "fails env A_listen") (simp_all add: main_defs deaf_def)
  ultimately show ?thesis by (simp add: api_life_def)
qed

lemma sockets_unanswered: "Socket_io \<notin> set (answering (api_life env c evs) address)"
  using deaf_life [of env c evs]
  by (cases address) (auto simp: answering_def deaf_def list_all_iff split: if_splits)

text \<open>The events of socket.io that arise when clients connect to an address of the process.\<close>

definition socket_arrivals :: "api_process \<Rightarrow> string \<times> int \<Rightarrow> socket_event list \<Rightarrow> socket_event list" where
  "socket_arrivals p address evs = (if Socket_io \<in> set (answering p address) then evs else [])"

lemma unrouted_sockets: "unrouted ''/socket.io/''"
  by (simp add: unrouted_code route_tables route_matches_def)

text \<open>
  C25. No live update reaches anybody. socket.io is attached to a second HTTP server, and only the one
  of Fastify listens: whatever happens to the process, no client is ever connected, so no message
  from Redis is passed on; and through nginx the request of a client ends at Fastify with a 404.
\<close>

theorem live_updates_reach_nobody:
  assumes "routes_documented st" and "url_path (ft_url r) = ''/socket.io/''"
  shows "dispatch fmt channel message (after_events fmt (socket_arrivals (api_life env c evs) address clients)) = [] \<and>
    site_fetch st r s = (Some (st_not_found st (ft_method r) ''/socket.io/''), s)"
proof -
  have "dispatch fmt channel message no_sockets = []"
    by (auto simp: dispatch_def emit_if_def to_room_def no_sockets_def split: option.split)
  moreover have "nginx ''/socket.io/'' = To_api ''/socket.io/''" by (simp add: nginx_def starts_with_def)
  ultimately show ?thesis
    using sockets_unanswered [of env c evs address] unrouted_not_found [OF assms(1) unrouted_sockets]
    by (simp add: socket_arrivals_def after_events_def site_fetch_def assms(2) api_answer_def)
qed

definition socket_request :: fetch_request where
  "socket_request = \<lparr>ft_url = ''/socket.io/?EIO=4&transport=polling'', ft_method = ''GET'', ft_headers = [], ft_body = None\<rparr>"

theorem live_updates_reach_nobody_witness:
  "map_option fr_status (fst (site_fetch sample_site socket_request (empty_world, Map.empty))) = Some 404 \<and>
   dispatch (\<lambda>_. []) ''worker:heartbeat'' (Some (JObj []))
     (after_events (\<lambda>_. []) (socket_arrivals (api_life (calm_env 0) \<lparr>as_port = None, as_host = None\<rparr> []) (''0.0.0.0'', 4000)
        [Connection ''ann''])) = []"
  using live_updates_reach_nobody [OF sample_site_documented(1), of socket_request "\<lambda>_. []" "''worker:heartbeat''"
      "Some (JObj [])" "calm_env 0" "\<lparr>as_port = None, as_host = None\<rparr>" "[]" "(''0.0.0.0'', 4000)" "[Connection ''ann'']"
      "(empty_world, Map.empty)"]
  by (simp add: socket_request_def url_path_def sample_site_def)

end
