(* ===== verification/Connections.thy ===== *)
theory Connections
  imports Schema
begin

text \<open>
  What the programs decide about their connections: how long a Redis client waits before it connects
  again (\<open>api/src/lib/redis.ts\<close>, \<open>worker/src/lib/redis.ts\<close>), and the one socket of the pages
  (\<open>web/lib/socket.ts\<close>). The clients themselves are ioredis and socket.io-client.
\<close>

section \<open>Waiting for Redis\<close>

text \<open>The delay in milliseconds before the attempt after \<open>attempts\<close> failures.\<close>

definition retryStrategy :: "int \<Rightarrow> int" where
  "retryStrategy attempts = min (attempts * 100) 3000"

lemma retryStrategy_bounds: "1 \<le> attempts \<Longrightarrow> 100 \<le> retryStrategy attempts \<and> retryStrategy attempts \<le> 3000"
  by (simp add: retryStrategy_def)

lemma retryStrategy_mono: "m \<le> n \<Longrightarrow> retryStrategy m \<le> retryStrategy n"
  by (auto simp: retryStrategy_def)

text \<open>The time all the waits up to the attempt take.\<close>

definition waited :: "nat \<Rightarrow> int" where
  "waited n = (\<Sum>attempts = 1..n. retryStrategy (int attempts))"

lemma waited_Suc: "waited (Suc n) = waited n + retryStrategy (int n + 1)"
  by (simp add: waited_def algebra_simps)

lemma waited_quadratic: "n \<le> 30 \<Longrightarrow> waited n = 50 * int n * (int n + 1)"
proof (induction n)
  case (Suc n)
  then have "waited n = 50 * int n * (int n + 1)" by simp
  moreover have "retryStrategy (int n + 1) = 100 * (int n + 1)" using Suc.prems by (simp add: retryStrategy_def)
  ultimately show ?case by (simp add: waited_Suc algebra_simps)
qed (simp add: waited_def)

text \<open>Thirty failures take 46.5 s; from then on a client tries every 3 s.\<close>

lemma waited_linear: "waited (30 + n) = 46500 + 3000 * int n"
proof (induction n)
  case (Suc n)
  then show ?case using waited_Suc [of "30 + n"] by (simp add: retryStrategy_def)
qed (simp add: waited_quadratic)

section \<open>The socket of the pages\<close>

record socket_client =
  sc_url :: string
  sc_connects :: bool  \<comment> \<open>connected or connecting\<close>

text \<open>The variable of the module is the place of its client among those it has made.\<close>

record socket_module =
  sm_socket :: "nat option"
  sm_clients :: "socket_client list"

definition no_socket :: socket_module where
  "no_socket = \<lparr>sm_socket = None, sm_clients = []\<rparr>"

definition getSocket :: "string option \<Rightarrow> string option \<Rightarrow> socket_module \<Rightarrow> nat \<times> socket_module" where
  "getSocket ws_url origin m = (case sm_socket m of
     Some i \<Rightarrow> (i, m)
   | None \<Rightarrow>
       let wsUrl = (case ws_url of Some u \<Rightarrow> u | None \<Rightarrow> (case origin of Some window \<Rightarrow> window | None \<Rightarrow> []));
           i = length (sm_clients m)
       in (i, \<lparr>sm_socket = Some i, sm_clients = sm_clients m @ [\<lparr>sc_url = wsUrl, sc_connects = True\<rparr>]\<rparr>))"

definition disconnectSocket :: "socket_module \<Rightarrow> socket_module" where
  "disconnectSocket m = \<lparr>sm_socket = None, sm_clients = (case sm_socket m of
     None \<Rightarrow> sm_clients m
   | Some i \<Rightarrow> (sm_clients m)[i := (sm_clients m ! i)\<lparr>sc_connects := False\<rparr>])\<rparr>"

datatype socket_call = Get "string option" "string option" | Disconnect_all

fun socket_called :: "socket_call \<Rightarrow> socket_module \<Rightarrow> socket_module" where
  "socket_called (Get ws_url origin) m = snd (getSocket ws_url origin m)"
| "socket_called Disconnect_all m = disconnectSocket m"

definition one_socket :: "socket_module \<Rightarrow> bool" where
  "one_socket m \<longleftrightarrow> (case sm_socket m of
     None \<Rightarrow> list_all (\<lambda>c. \<not> sc_connects c) (sm_clients m)
   | Some i \<Rightarrow> i < length (sm_clients m) \<and>
       (\<forall>k < length (sm_clients m). sc_connects (sm_clients m ! k) = (k = i)))"

lemma one_socket_called: "one_socket m \<Longrightarrow> one_socket (socket_called c m)"
  by (cases c) (auto simp: one_socket_def getSocket_def disconnectSocket_def Let_def list_all_length nth_append nth_list_update
      split: option.splits)

text \<open>However often the pages call the module, at most one of its clients connects, the current one.\<close>

lemma one_socket_run: "one_socket (fold socket_called cs no_socket)"
proof -
  have "one_socket m \<Longrightarrow> one_socket (fold socket_called cs m)" for m
    by (induction cs arbitrary: m) (simp_all add: one_socket_called)
  then show ?thesis by (simp add: one_socket_def no_socket_def)
qed

text \<open>Two pages share the socket as long as nobody disconnects it.\<close>

lemma socket_shared: "getSocket ws_url origin (snd (getSocket ws_url' origin' m)) = (fst (getSocket ws_url' origin' m), snd (getSocket ws_url' origin' m))"
  by (simp add: getSocket_def Let_def split: option.split)

end
