(* ===== verification/SiteControls.thy ===== *)
theory SiteControls
  imports Site Sockets
begin

text \<open>
  The controls of the pages in front of the API: what becomes of a click on Retry, Cancel, Pause or
  Save, which of them a page should offer, whether the forms send what the API accepts, and which
  socket events reach a page.
\<close>

section \<open>Buttons\<close>

lemma content_type [simp]:
  "map_of (ft_headers (api_request base path (send m body) token)) ''Content-Type'' = Some ''application/json''"
  by (simp add: api_request_def send_def Let_def update_conv' split: option.split)

lemma api_request_parts [simp]: "ft_method (api_request base path (send m body) token) = m"
    "ft_body (api_request base path (send m body) token) = body"
  by (simp_all add: api_request_def send_def Let_def)

text \<open>A POST without a body still says that it has a JSON body.\<close>

definition plain_failures :: "string set" where
  "plain_failures = {''An unexpected error occurred in Chronos'', ''Request failed''}"

lemma empty_post_fails:
  assumes "not_found_documented st" and "decode_documented st"
    and "nginx (url_path (''/api'' @ path)) = To_api p"
  shows "\<exists>m \<in> plain_failures. apiFetch (site_env st) path (send ''POST'' None) again t = (Inl (PlainError m), t)"
proof -
  obtain b s where t: "t = (b, s)" by (cases t)
  let ?r = "api_request [] path (send ''POST'' None) (br_token b)"
  have refused: "\<exists>m. st_decode st ?r p rt = Inl (PlainError m)" for rt
    using assms(2) [unfolded decode_documented_def, rule_format, of ?r p rt] by (auto split: sum.splits)
  show ?thesis
  proof (cases "st_route st ''POST'' p")
    case None
    then have "apiFetch (site_env st) path (send ''POST'' None) again t = (Inl (PlainError ''Request failed''), t)"
      using assms by (simp add: t apiFetch.simps [of _ path] bindA_def readA_def getToken_def do_fetch_def site_fetch_def
          api_answer_def not_found_documented_def conclude_def fr_ok_def error_text_def throwA_def)
    then show ?thesis by (auto simp: plain_failures_def)
  next
    case (Some rd)
    obtain m where "st_decode st ?r p (fst rd) = Inl (PlainError m)" using refused by blast
    with Some have "apiFetch (site_env st) path (send ''POST'' None) again t =
        (Inl (PlainError ''An unexpected error occurred in Chronos''), t)"
      using assms(3) by (simp add: t apiFetch.simps [of _ path] bindA_def readA_def getToken_def do_fetch_def site_fetch_def
          api_answer_def on_the_wire_def conclude_def fr_ok_def error_text_def throwA_def error_body_def as_text_def
          jopt_def)
    then show ?thesis by (auto simp: plain_failures_def)
  qed
qed

text \<open>
  Retry and Cancel never do anything: \<open>apiFetch\<close> declares every call as JSON, these have no body,
  and Fastify refuses an empty JSON body. The page shows the text for unexpected errors; job, database
  and session are as they were.
\<close>

lemma job_buttons_fail:
  assumes "not_found_documented st" and "decode_documented st"
  shows "(\<exists>m \<in> plain_failures. retry_button (site_env st) v i (p, t) = (Inr (), (p\<lparr>jv_error := m\<rparr>, t))) \<and>
    (\<exists>m \<in> plain_failures. cancel_button (site_env st) v i (p, t) = (Inr (), (p\<lparr>jv_error := m\<rparr>, t)))"
proof -
  have path: "nginx (url_path (''/api'' @ (''/jobs/'' @ x))) = To_api (''/jobs/'' @ url_path x)" for x
    using api_path [of "''jobs/'' @ x"] by (simp add: url_path_def starts_with_def)
  have "\<exists>m \<in> plain_failures. job_command (site_env st) v suffix i (p, t) = (Inr (), (p\<lparr>jv_error := m\<rparr>, t))" for suffix
    using empty_post_fails [OF assms path [of "shown (site_env st) i @ suffix"], of True t]
    by (auto simp: job_command_def fetching_run bindA_def catchA_def set_view_def modifyA_def)
  then show ?thesis by (simp add: retry_button_def cancel_button_def)
qed

lemma job_buttons_fail_witness:
  "jv_error (fst (snd (retry_button (site_env sample_site) new_jobs_page (Some (JStr ''a''))
     (new_jobs_page, (visitor, (rbac_world, Map.empty)))))) \<noteq> []"
  using job_buttons_fail [OF sample_site_documented(2,3), of new_jobs_page "Some (JStr ''a'')" new_jobs_page
      "(visitor, (rbac_world, Map.empty))"] by (auto simp: plain_failures_def)

text \<open>
  Pause and the limit of a queue fail as well, for another reason: the member check takes the id of
  the queue for that of a job and refuses everybody.
\<close>

lemma patch_route_only:
  assumes "rd \<in> set declared" and "reaches ''PATCH'' (''/queues/'' @ i) rd"
  shows "rt_pre (fst rd) = [Pre_auth, Pre_member Admin]"
proof -
  have "list_all (\<lambda>r. rt_method r = PATCH \<longrightarrow> rt_pre r = [Pre_auth, Pre_member Admin]) api_routes"
    by (simp add: route_tables)
  moreover have "fst rd \<in> set api_routes" using assms(1) declared_route [of "fst rd" "snd rd"] by simp
  moreover have "rt_method (fst rd) = PATCH" using assms(2) by (cases "rt_method (fst rd)") (auto simp: reaches_def)
  ultimately show ?thesis by (auto simp: list_all_iff)
qed

lemma patch_refused:
  assumes "rt_pre r = [Pre_auth, Pre_member Admin]" and "fails (sv_access env) A_job = None"
    and "rq_params req = [(''id'', i)]" and "job_find w i = None"
  shows "\<exists>e. bindA (run_pres env (rt_pre r) req) k (w, bs) = (Inl e, (w, bs)) \<and> fst (errorHandler e) \<in> {401, 403}"
proof (cases "requireAuth (sv_verify env) req")
  case (Inl e)
  then have "fst (errorHandler e) = 401"
    by (auto simp: requireAuth_def UnauthorizedError_def split: option.splits sum.splits if_splits)
  with Inl show ?thesis by (simp add: assms(1) bindA_assoc throwA_def)
next
  case (Inr req')
  then obtain user where "rq_user req' = Some user" "rq_params req' = [(''id'', i)]"
    using assms(3) by (auto simp: requireAuth_def split: option.splits sum.splits if_splits)
  from queue_id_routes_forbidden [OF assms(2) this assms(4), of Admin]
  obtain e where "requireOrgMember (sv_access env) Admin req' w = (Inl e, w)" "fst (errorHandler e) = 403" by blast
  then show ?thesis using Inr by (simp add: assms(1) bindA_def on_world_def retA_def)
qed

lemma failed_call:
  assumes "routes_documented st" and "not_found_documented st"
    and "nginx (url_path (''/api'' @ path)) = To_api p"
    and "\<not> fr_ok (fst (api_answer st (api_request [] path opts (br_token b)) p s))"
    and "snd (api_answer st (api_request [] path opts (br_token b)) p s) = s"
  shows "\<exists>m b'. apiFetch (site_env st) path opts True (b, s) = (Inl (PlainError m), (b', s))"
proof -
  obtain res where "api_answer st (api_request [] path opts (br_token b)) p s = (res, s)" "\<not> fr_ok res"
    using assms(4,5) by (cases "api_answer st (api_request [] path opts (br_token b)) p s") simp
  then show ?thesis
    using assms(3) auth_calls(4) [OF assms(1,2)]
    by (simp add: apiFetch.simps [of _ path _ True] bindA_def readA_def getToken_def do_fetch_def site_fetch_def conclude_def
        throwA_def on_browser_def modifyA_def)
qed

definition clean :: "string \<Rightarrow> bool" where
  "clean i \<longleftrightarrow> CHR ''/'' \<notin> set i \<and> CHR ''?'' \<notin> set i \<and> CHR ''%'' \<notin> set i"

lemma segments_clean: "CHR ''/'' \<notin> set i \<Longrightarrow> segments i = [i]"
  by (induction i) auto

lemma patch_params:
  assumes "rd \<in> set declared" and "reaches ''PATCH'' (''/queues/'' @ i) rd" and "CHR ''/'' \<notin> set i"
  shows "params_of (rt_path (fst rd)) (''/queues/'' @ i) = [(''id'', i)]"
proof -
  have "list_all (\<lambda>r. rt_method r = PATCH \<longrightarrow> rt_path r = ''/queues/:id'') api_routes"
    by (simp add: route_tables)
  moreover have "fst rd \<in> set api_routes" using assms(1) declared_route [of "fst rd" "snd rd"] by simp
  moreover have "rt_method (fst rd) = PATCH" using assms(2) by (cases "rt_method (fst rd)") (auto simp: reaches_def)
  ultimately have "rt_path (fst rd) = ''/queues/:id''" by (auto simp: list_all_iff)
  then show ?thesis by (simp add: params_of_def segments_clean [OF assms(3)])
qed

lemma patch_answer:
  assumes "routes_documented st" and "not_found_documented st" and "decode_documented st"
    and "fails (sv_access (st_services st)) A_job = None" and "clean i" and "job_find w i = None"
    and "ft_method r = ''PATCH''"
  shows "snd (api_answer st r (''/queues/'' @ i) (w, bs)) = (w, bs) \<and>
    \<not> fr_ok (fst (api_answer st r (''/queues/'' @ i) (w, bs)))"
proof (cases "st_route st ''PATCH'' (''/queues/'' @ i)")
  case None
  then show ?thesis using assms(2,7) by (simp add: api_answer_def not_found_documented_def fr_ok_def)
next
  case (Some rd)
  then have rd: "rd \<in> set declared" "reaches ''PATCH'' (''/queues/'' @ i) rd"
    using assms(1) unfolding routes_documented_def by blast+
  show ?thesis
  proof (cases "st_decode st r (''/queues/'' @ i) (fst rd)")
    case (Inl e)
    then obtain m where "e = PlainError m"
      using assms(3) [unfolded decode_documented_def, rule_format, of r "''/queues/'' @ i" "fst rd"] by auto
    then show ?thesis using Some Inl assms(7) by (simp add: api_answer_def on_the_wire_def fr_ok_def)
  next
    case (Inr req)
    then have params: "rq_params req = [(''id'', i)]"
      using assms(3) [unfolded decode_documented_def, rule_format, of r "''/queues/'' @ i" "fst rd"] assms(5)
        patch_params [OF rd] by (auto simp: clean_def)
    have "snd (answer_request (st_fastify st) (st_services st) rd req (w, bs)) = (w, bs) \<and>
        re_status (fst (answer_request (st_fastify st) (st_services st) rd req (w, bs))) \<in> {400, 401, 403}"
    proof (cases "admit (st_fastify st) (snd rd) req")
      case (Inl v)
      then show ?thesis by (simp add: answer_request_def)
    next
      case (Inr req')
      then have "rq_params req' = [(''id'', i)]" using params by (auto simp: admit_def split: sum.splits)
      from patch_refused [OF patch_route_only [OF rd] assms(4) this assms(6)]
      obtain e where "bindA (run_pres (st_services st) (rt_pre (fst rd)) req')
          (\<lambda>req''. on_world (rt_handler (fst rd) (st_services st) req'')) (w, bs) = (Inl e, (w, bs))"
        and "fst (errorHandler e) \<in> {401, 403}" by blast
      with Inr show ?thesis by (auto simp: answer_request_def respond_def case_prod_beta)
    qed
    then show ?thesis using Some Inr assms(7)
      by (auto simp: api_answer_def on_the_wire_def fr_ok_def split: prod.split)
  qed
qed

text \<open>
  Pausing a queue and changing its limit always fail, unless a job happens to have the id of the
  queue: the page shows an error (or leaves, when there is no session), its rows and the database
  stay as they were. A limit below 1, or one that is not a number, is not even sent.
\<close>

lemma queue_buttons_fail:
  assumes "routes_documented st" and "not_found_documented st" and "decode_documented st"
    and "fails (sv_access (st_services st)) A_job = None" and "clean i" and "job_find w i = None"
    and "get_prop q ''id'' = Some (JStr i)"
  shows "(\<exists>m b'. togglePause (site_env st) v q (p, (b, (w, bs))) = (Inr (), (p\<lparr>qv_error := m\<rparr>, (b', (w, bs))))) \<and>
    (case edited_limit (site_env st) v q of
       None \<Rightarrow> saveConcurrency (site_env st) v q (p, (b, (w, bs))) = (Inr (), (p, (b, (w, bs))))
     | Some n \<Rightarrow> 1 \<le> n \<and> (\<exists>m b'. saveConcurrency (site_env st) v q (p, (b, (w, bs))) =
         (Inr (), (p\<lparr>qv_error := m\<rparr>, (b', (w, bs))))))"
proof -
  have path: "nginx (url_path (''/api'' @ (''/queues/'' @ i))) = To_api (''/queues/'' @ i)"
    using api_path [of "''queues/'' @ i"] assms(5) by (simp add: url_path_plain clean_def starts_with_def)
  have fails: "\<exists>m b'. apiFetch (site_env st) (''/queues/'' @ i) (send ''PATCH'' body) True (b, (w, bs)) =
      (Inl (PlainError m), (b', (w, bs)))" for body
    using patch_answer [OF assms(1-6), of "api_request [] (''/queues/'' @ i) (send ''PATCH'' body) (br_token b)" bs]
    by (intro failed_call [OF assms(1,2) path]) simp_all
  have sent: "\<exists>m b'. patch_queue (site_env st) (Some (JStr i)) fs (u, (b, (w, bs))) =
      (Inl (PlainError m), (u, (b', (w, bs))))" for fs u
    using fails [of "Some (st_stringify st (JObj fs))"]
    by (auto simp: patch_queue_def fetching_run shown_def as_text_def)
  have failed: "\<exists>m b'. catchA (bindA (patch_queue (site_env st) (Some (JStr i)) fs) k) show_error (p, (b, (w, bs))) =
      (Inr (), (p\<lparr>qv_error := m\<rparr>, (b', (w, bs))))" for fs k
    using sent [of fs p] by (auto simp: bindA_def catchA_def show_error_def set_view_def modifyA_def)
  have "(read_prop (Some q) ''id'' :: (queues_view, world \<times> buckets, js) page_act) = retA (Some (JStr i))"
    using assms(7) by (cases "q = JNull") (auto simp: read_prop_def)
  then have "\<exists>m b'. togglePause (site_env st) v q (p, (b, (w, bs))) = (Inr (), (p\<lparr>qv_error := m\<rparr>, (b', (w, bs))))"
    using failed by (simp add: togglePause_def)
  moreover have "1 \<le> n" if "edited_limit (site_env st) v q = Some n" for n
    using that by (auto simp: edited_limit_def split: option.splits if_splits)
  ultimately show ?thesis
    using failed by (auto simp: saveConcurrency_def assms(7) retA_def split: option.split)
qed

lemma queue_buttons_fail_witness:
  "\<exists>m b'. togglePause (site_env sample_site) new_queues_page (JObj [(''id'', JStr ''q'')])
     (new_queues_page, (visitor, (rbac_world, Map.empty))) =
    (Inr (), (new_queues_page\<lparr>qv_error := m\<rparr>, (b', (rbac_world, Map.empty))))"
proof -
  have "fails (sv_access (st_services sample_site)) A_job = None" "clean ''q''" "job_find rbac_world ''q'' = None"
    by (simp_all add: sample_site_def demo_services_def clean_def rbac_defs job_find_def)
  from queue_buttons_fail [OF sample_site_documented this, of "JObj [(''id'', JStr ''q'')]" new_queues_page
      new_queues_page visitor Map.empty]
  show ?thesis by simp
qed

section \<open>What the API allows\<close>

text \<open>
  The jobs page knows the statuses of the API: its colours and its filter are the eight of them in
  order; for a job as the API lists it, Cancel is offered exactly when the API cancels it and Retry
  exactly when the API retries it, cancelled jobs aside.
\<close>

lemma job_controls_fit_api:
  "map fst STATUS_COLORS = map status_name [Queued, Scheduled, Claimed, Running, Completed, Failed, Dead_letter, Cancelled] \<and>
   filter_statuses = map fst STATUS_COLORS \<and>
   cancel_offered (job_item w j) = cancellable (j_status j) \<and>
   retryable (j_status j) = (retry_offered (job_item w j) \<or> j_status j = Cancelled)"
proof -
  have status: "get_prop (job_item w j) ''status'' = Some (JStr (status_name (j_status j)))"
    by (simp add: job_item_def queue_fields_def split: option.split)
  show ?thesis
    by (cases "j_status j") (simp_all add: STATUS_COLORS_def filter_statuses_def cancel_offered_def retry_offered_def status
        cancellable_def retryable_def)
qed

section \<open>What the forms send\<close>

text \<open>
  The form for a job: a payload that is not JSON is refused on the page; otherwise the body it sends
  is accepted by the schema of the API exactly when the payload is an object and the type has 1 to
  128 characters, and is read as what was typed, an empty cron expression as none.
\<close>

lemma submit_form_fits_api:
  assumes "if jv_submitRunAt v = [] then runAt = None
      else runAt \<noteq> None \<and> (\<exists>t. lib_iso lib (jv_submitRunAt v) = Some t \<and> ae_datetime api t = runAt)"
  shows "case we_parse env (jv_submitPayload v) of
      None \<Rightarrow> submit_body env lib v s = (Inl (PlainError ''Payload must be valid JSON''), s)
    | Some payload \<Rightarrow> \<exists>body. submit_body env lib v s = (Inr body, s) \<and>
        createJobSchema api body =
          (if zod_record payload \<noteq> None \<and> 1 \<le> length (jv_submitType v) \<and> length (jv_submitType v) \<le> 128
           then Some \<lparr>cj_type = jv_submitType v, cj_payload = payload, cj_runAt = runAt,
             cj_cronExpression = truthy_str (Some (jv_submitCron v)), cj_retryPolicyId = None,
             cj_idempotencyKey = None, cj_priority = None\<rparr>
           else None)"
proof (cases "we_parse env (jv_submitPayload v)")
  case (Some payload)
  obtain sent where sent: "submit_body env lib v s = (Inr (JObj ([(''type'', JStr (jv_submitType v)), (''payload'', payload)] @
      jopt ''runAt'' sent @ jopt ''cronExpression'' (map_option JStr (truthy_str (Some (jv_submitCron v)))))), s)"
    and read: "zod_optional (zod_datetime api) sent = Some runAt"
  proof (cases "jv_submitRunAt v = []")
    case True
    then show ?thesis using assms Some that [of None]
      by (simp add: submit_body_def someA_def bindA_def retA_def zod_optional_def)
  next
    case False
    then obtain t where "lib_iso lib (jv_submitRunAt v) = Some t" "ae_datetime api t = runAt" "runAt \<noteq> None"
      using assms by auto
    then show ?thesis using False Some that [of "Some (JStr t)"]
      by (auto simp: submit_body_def someA_def bindA_def retA_def zod_optional_def zod_datetime_def)
  qed
  show ?thesis
    using Some sent read
    by (cases payload; cases sent; cases "jv_submitCron v")
      (auto simp: createJobSchema_def batchJobSchema_def zod_string_def zod_optional_def zod_record_def jopt_def truthy_str_def)
qed (simp add: submit_body_def someA_def bindA_def throwA_def)

lemma submit_form_fits_api_witness:
  "\<exists>body. submit_body (ann_web\<lparr>we_parse := (\<lambda>_. Some (JObj []))\<rparr>) plain_lib new_jobs_page () = (Inr body, ()) \<and>
    map_option cj_type (createJobSchema (demo_api 0) body) = Some ''echo''"
proof -
  have "jv_submitRunAt new_jobs_page = []" "jv_submitType new_jobs_page = ''echo''" by (simp_all add: new_jobs_page_def)
  with submit_form_fits_api [of new_jobs_page None plain_lib "demo_api 0" "ann_web\<lparr>we_parse := (\<lambda>_. Some (JObj []))\<rparr>" "()"]
  show ?thesis by (auto simp: zod_record_def)
qed

text \<open>
  The form for a queue sends numbers: what cannot be read as one, and 0, counts as the limit 10 and
  the priority 0. The API accepts it exactly when the name has 1 to 128 letters, digits, dashes and
  underscores, the limit is from 1 to 1000 and the priority from 0 to 100; it takes the limit edited
  in place, which the page only keeps from being below 1, up to 1000.
\<close>

lemma queue_forms_fit_api:
  "createQueueSchema (new_queue_body v) =
    (let limit = int_or (parseInt_auto (qv_newQueueConcurrency v)) 10; priority = int_or (parseInt_auto (qv_newQueuePriority v)) 0
     in if 1 \<le> length (qv_newQueueName v) \<and> length (qv_newQueueName v) \<le> 128 \<and> list_all name_char (qv_newQueueName v) \<and>
         1 \<le> limit \<and> limit \<le> 1000 \<and> 0 \<le> priority \<and> priority \<le> 100
       then Some \<lparr>cq_name = qv_newQueueName v, cq_priority = Some priority, cq_concurrencyLimit = Some limit,
         cq_defaultRetryPolicyId = None\<rparr>
       else None) \<and>
   (case edited_limit env v q of None \<Rightarrow> True | Some n \<Rightarrow>
     1 \<le> n \<and> updateQueueSchema (JObj [(''concurrencyLimit'', jint n)]) =
       (if n \<le> 1000 then Some \<lparr>uq_priority = None, uq_concurrencyLimit = Some n, uq_isPaused = None\<rparr> else None)) \<and>
   updateQueueSchema (JObj [(''isPaused'', JBool b)]) =
     Some \<lparr>uq_priority = None, uq_concurrencyLimit = None, uq_isPaused = Some b\<rparr>"
proof (intro conjI)
  show "case edited_limit env v q of None \<Rightarrow> True | Some n \<Rightarrow>
     1 \<le> n \<and> updateQueueSchema (JObj [(''concurrencyLimit'', jint n)]) =
       (if n \<le> 1000 then Some \<lparr>uq_priority = None, uq_concurrencyLimit = Some n, uq_isPaused = None\<rparr> else None)"
    by (auto simp: edited_limit_def updateQueueSchema_def zod_optional_def zod_int_def jint_def split: option.splits if_splits)
qed (auto simp: createQueueSchema_def new_queue_body_def zod_optional_def zod_int_def zod_string_def jint_def Let_def
    updateQueueSchema_def zod_bool_def)

section \<open>What the pages hear\<close>

definition page_listens :: "string list" where
  "page_listens = [''job:transition'', ''worker:heartbeat'']"

text \<open>
  No live update reaches a page: among the events the socket server emits, for a message of Redis
  or in answer to a client, there is none a page listens to.
\<close>

lemma pages_hear_nothing:
  "(\<lambda>(socket, name, data). name) ` (set (dispatch fmt channel message s) \<union> set (fst (on_socket fmt e s))) \<inter>
    set page_listens = {}"
  by (cases e) (auto simp: dispatch_def emit_if_def to_room_def on_socket_def subscribe_def join_room_def leave_room_def
      page_listens_def split: option.splits json.splits if_splits)

end
