(* ===== verification/Screens.thy ===== *)
theory Screens
  imports SiteControls ApiMain
begin

text \<open>
  What the pages of \<open>web/app\<close> and \<open>components/AppShell.tsx\<close> put on the screen around their rows, and the
  forms of login and registration as they are typed into. HTML does what it documents: a form is
  not submitted while a \<open>required\<close> field is empty, an \<open>email\<close> field does not hold an address (the
  test is the argument \<open>mail\<close>) or a text is shorter than \<open>minLength\<close>. Styles are left out.
\<close>

datatype 'r panel = Notice string | Table "'r list"

definition banner :: "string \<Rightarrow> string option" where
  "banner err = truthy_str (Some err)"

section \<open>Login and registration\<close>

record form_face =
  fo_error :: "string option"
  fo_button :: string
  fo_disabled :: bool

definition form_screen :: "string \<Rightarrow> string \<Rightarrow> 'z login_view_scheme \<Rightarrow> form_face" where
  "form_screen idle busy v = \<lparr>fo_error = banner (lg_error v),
     fo_button = (if lg_loading v then busy @ ellipsis else idle), fo_disabled = lg_loading v\<rparr>"

definition login_screen :: "login_view \<Rightarrow> form_face" where
  "login_screen v = form_screen ''Sign in'' ''Signing in'' v"

definition register_screen :: "register_view \<Rightarrow> form_face" where
  "register_screen v = form_screen ''Create account'' ''Creating account'' v"

definition login_valid :: "(string \<Rightarrow> bool) \<Rightarrow> 'z login_view_scheme \<Rightarrow> bool" where
  "login_valid mail v \<longleftrightarrow> lg_email v \<noteq> [] \<and> mail (lg_email v) \<and> lg_password v \<noteq> []"

definition register_valid :: "(string \<Rightarrow> bool) \<Rightarrow> register_view \<Rightarrow> bool" where
  "register_valid mail v \<longleftrightarrow> login_valid mail v \<and> 8 \<le> length (lg_password v)"

datatype login_event = Login_email string | Login_password string | Sign_in

datatype register_event = Register_orgName string | Register_email string | Register_password string | Sign_up

fun login_handle :: "(string \<Rightarrow> bool) \<Rightarrow> 's web_env \<Rightarrow> login_view \<Rightarrow> login_event \<Rightarrow> (login_view, 's, unit) page_act" where
  "login_handle mail env v (Login_email t) = set_view (\<lambda>p. p\<lparr>lg_email := t\<rparr>)"
| "login_handle mail env v (Login_password t) = set_view (\<lambda>p. p\<lparr>lg_password := t\<rparr>)"
| "login_handle mail env v Sign_in =
     (if fo_disabled (login_screen v) \<or> \<not> login_valid mail v then retA () else login_submit env v)"

fun register_handle :: "(string \<Rightarrow> bool) \<Rightarrow> 's web_env \<Rightarrow> register_view \<Rightarrow> register_event \<Rightarrow> (register_view, 's, unit) page_act" where
  "register_handle mail env v (Register_orgName t) = set_view (\<lambda>p. p\<lparr>rv_orgName := t\<rparr>)"
| "register_handle mail env v (Register_email t) = set_view (\<lambda>p. p\<lparr>lg_email := t\<rparr>)"
| "register_handle mail env v (Register_password t) = set_view (\<lambda>p. p\<lparr>lg_password := t\<rparr>)"
| "register_handle mail env v Sign_up =
     (if fo_disabled (register_screen v) \<or> \<not> register_valid mail v then retA () else register_submit env v)"

definition login_run :: "(string \<Rightarrow> bool) \<Rightarrow> 's web_env \<Rightarrow> login_event list \<Rightarrow> login_view \<times> browser \<times> 's \<Rightarrow> login_view \<times> browser \<times> 's" where
  "login_run mail env evs s = fold (\<lambda>e s. snd (login_handle mail env (fst s) e s)) evs s"

definition register_run :: "(string \<Rightarrow> bool) \<Rightarrow> 's web_env \<Rightarrow> register_event list \<Rightarrow> register_view \<times> browser \<times> 's \<Rightarrow> register_view \<times> browser \<times> 's" where
  "register_run mail env evs s = fold (\<lambda>e s. snd (register_handle mail env (fst s) e s)) evs s"

lemma sign_in_ends: "ends (\<lambda>p. \<not> lg_loading p) (sign_in env path body)"
  unfolding sign_in_def by (intro ends_then ends_finally quiet_set_view) simp

lemma login_handled: "\<not> lg_loading (fst s) \<Longrightarrow> \<not> lg_loading (fst (snd (login_handle mail env v e s)))"
proof -
  have "keeping (\<lambda>p. \<not> lg_loading p) (login_handle mail env v e)"
    by (cases e) (auto intro!: keeping_rules ends_keeping [OF sign_in_ends] simp: login_submit_def)
  then show "\<not> lg_loading (fst s) \<Longrightarrow> \<not> lg_loading (fst (snd (login_handle mail env v e s)))"
    by (cases s) (simp add: guar_def)
qed

lemma register_handled: "\<not> lg_loading (fst s) \<Longrightarrow> \<not> lg_loading (fst (snd (register_handle mail env v e s)))"
proof -
  have "keeping (\<lambda>p. \<not> lg_loading p) (register_handle mail env v e)"
    by (cases e) (auto intro!: keeping_rules ends_keeping [OF sign_in_ends] simp: register_submit_def)
  then show "\<not> lg_loading (fst s) \<Longrightarrow> \<not> lg_loading (fst (snd (register_handle mail env v e s)))"
    by (cases s) (simp add: guar_def)
qed

text \<open>After every event the button of a form can be pressed again.\<close>

lemma forms_usable:
  "\<not> lg_loading (fst s) \<Longrightarrow> \<not> fo_disabled (login_screen (fst (login_run mail env evs s)))"
  "\<not> lg_loading (fst s') \<Longrightarrow> \<not> fo_disabled (register_screen (fst (register_run mail env evs' s')))"
proof -
  show "\<not> lg_loading (fst s) \<Longrightarrow> \<not> fo_disabled (login_screen (fst (login_run mail env evs s)))"
    by (induction evs arbitrary: s) (simp_all add: login_run_def login_screen_def form_screen_def login_handled)
  show "\<not> lg_loading (fst s') \<Longrightarrow> \<not> fo_disabled (register_screen (fst (register_run mail env evs' s')))"
    by (induction evs' arbitrary: s') (simp_all add: register_run_def register_screen_def form_screen_def register_handled)
qed

text \<open>
  Where browser and API agree on what an address is, the forms let through exactly what the schemas
  of the API accept, and the API reads what was typed.
\<close>

lemma account_forms_fit_api:
  assumes "\<not> au_email api []"
  shows "loginSchema api (JObj [(''email'', JStr (lg_email v)), (''password'', JStr (lg_password v))]) =
      (if login_valid (au_email api) v
       then Some \<lparr>cr_email = lg_email v, cr_password = lg_password v, cr_orgName = None\<rparr> else None)"
    and "registerSchema api (JObj ([(''email'', JStr (lg_email v')), (''password'', JStr (lg_password v'))] @
        jopt ''orgName'' (map_option JStr (truthy_str (Some (rv_orgName v')))))) =
      (if register_valid (au_email api) v'
       then Some \<lparr>cr_email = lg_email v', cr_password = lg_password v', cr_orgName = truthy_str (Some (rv_orgName v'))\<rparr>
       else None)"
proof -
  have "lg_email v = [] \<Longrightarrow> \<not> au_email api (lg_email v)" using assms by simp
  then have valid': "login_valid (au_email api) v \<longleftrightarrow> au_email api (lg_email v) \<and> 1 \<le> length (lg_password v)"
    by (cases "lg_password v") (auto simp: login_valid_def)
  have "lg_email v' = [] \<Longrightarrow> \<not> au_email api (lg_email v')" using assms by simp
  then have valid: "register_valid (au_email api) v' \<longleftrightarrow> au_email api (lg_email v') \<and> 8 \<le> length (lg_password v')"
    by (cases "lg_password v'") (auto simp: register_valid_def login_valid_def)
  show "loginSchema api (JObj [(''email'', JStr (lg_email v)), (''password'', JStr (lg_password v))]) =
      (if login_valid (au_email api) v
       then Some \<lparr>cr_email = lg_email v, cr_password = lg_password v, cr_orgName = None\<rparr> else None)"
    unfolding valid' by (simp add: loginSchema_def credentials_def str_field_def)
  show "registerSchema api (JObj ([(''email'', JStr (lg_email v')), (''password'', JStr (lg_password v'))] @
        jopt ''orgName'' (map_option JStr (truthy_str (Some (rv_orgName v')))))) =
      (if register_valid (au_email api) v'
       then Some \<lparr>cr_email = lg_email v', cr_password = lg_password v', cr_orgName = truthy_str (Some (rv_orgName v'))\<rparr>
       else None)"
    unfolding valid
    by (cases "rv_orgName v'") (simp_all add: registerSchema_def credentials_def str_field_def truthy_str_def jopt_def)
qed

section \<open>The frame\<close>

record frame =
  fm_links :: "(string \<times> string \<times> bool) list"  \<comment> \<open>address, label, active\<close>
  fm_email :: js

definition shell_screen :: "shell_view \<Rightarrow> string \<Rightarrow> frame option" where
  "shell_screen v pathname =
     (if \<not> shell_shows_page v then None
      else Some \<lparr>fm_links = map (\<lambda>(href, label). (href, label, nav_active href pathname)) NAV,
        fm_email = (let email = opt_prop (Some (sh_user v)) ''email'' in if is_truthy email then email else None)\<rparr>)"

text \<open>Inside a page exactly the link to it is active.\<close>

lemma one_link_active:
  assumes "shell_screen v pathname = Some fr" and "pathname \<in> fst ` set NAV"
  shows "map fst (filter (\<lambda>(href, label, active). active) (fm_links fr)) = [pathname]"
  using assms by (auto simp: shell_screen_def NAV_def nav_active_def starts_with_def split: if_splits)

section \<open>Dashboard\<close>

record dashboard_face =
  da_cards :: "(string \<times> js \<times> string option) list"
  da_connection :: string
  da_stream :: "(string \<times> string) panel"

definition dashboard_screen :: "'s web_env \<Rightarrow> dashboard_view \<Rightarrow> dashboard_face" where
  "dashboard_screen env v = \<lparr>da_cards = stat_cards env (ds_summary v),
     da_connection = (if ds_connected v then ''Connected'' else ''Disconnected''),
     da_stream = (if ds_events v = [] then Notice (''Waiting for events'' @ ellipsis)
       else Table (map (\<lambda>e. (ev_ts e, ev_text e)) (ds_events v)))\<rparr>"

section \<open>Workers\<close>

record workers_face =
  wf_active :: nat
  wf_total :: nat
  wf_error :: "string option"
  wf_panel :: "worker_line panel"

definition worker_filters :: "(string \<times> string) list" where
  "worker_filters = [([], ''All statuses''), (''active'', ''Active''), (''draining'', ''Draining''), (''dead'', ''Dead'')]"

definition workers_notice :: "workers_view \<Rightarrow> string" where
  "workers_notice v = (if wv_loading v then ''Loading workers'' @ ellipsis
     else ''No workers found. Workers register automatically when the worker service starts.'')"

text \<open>Rendering fails on what is not an array, and on \<open>null\<close> for a row.\<close>

definition render_workers :: "(rat \<Rightarrow> string) \<Rightarrow> js_lib \<Rightarrow> timestamp \<Rightarrow> workers_view \<Rightarrow> ('t, js_error, workers_face) act" where
  "render_workers toFixed lib now v = (case wv_workers v of
     None \<Rightarrow> throwA (cannot_read ''undefined'' ''filter'')
   | Some JNull \<Rightarrow> throwA (cannot_read ''null'' ''filter'')
   | Some (JArr rows) \<Rightarrow>
       if JNull \<in> set rows then throwA (cannot_read ''null'' ''status'')
       else bindA (if rows = [] then retA (Notice (workers_notice v))
           else bindA (mapA (render_worker toFixed lib now v) rows) (\<lambda>ls. retA (Table ls))) (\<lambda>panel.
         retA \<lparr>wf_active = active_shown rows, wf_total = length rows, wf_error = banner (wv_error v), wf_panel = panel\<rparr>)
   | _ \<Rightarrow> throwA (PlainError ''workers.filter is not a function''))"

section \<open>Jobs\<close>

record drawer =
  dr_fields :: "js list"
  dr_color :: string
  dr_retry :: bool
  dr_cancel :: bool

text \<open>The drawer with the selected job; dates are formatted by the browser.\<close>

definition render_drawer :: "jobs_view \<Rightarrow> drawer option" where
  "render_drawer v = (case jv_selectedJob v of
     None \<Rightarrow> None
   | Some job \<Rightarrow> Some \<lparr>dr_fields = map (get_prop job) [''type'', ''id'', ''status'', ''queueName'', ''priority'',
         ''attemptCount'', ''runAt'', ''createdAt''],
       dr_color = or_else (case get_prop job ''status'' of Some (JStr st) \<Rightarrow> map_of STATUS_COLORS st | _ \<Rightarrow> None) [],
       dr_retry = retry_offered job, dr_cancel = cancel_offered job\<rparr>)"

record jobs_face =
  jf_heading :: string
  jf_error :: "string option"
  jf_form :: "(string \<times> bool) option"  \<comment> \<open>label of the button, disabled\<close>

definition jobs_screen :: "'s web_env \<Rightarrow> jobs_view \<Rightarrow> jobs_face" where
  "jobs_screen env v = \<lparr>jf_heading = shown env (jv_total v) @ '' total jobs'', jf_error = banner (jv_error v),
     jf_form = (if jv_showSubmit v
       then Some (if jv_submitting v then ''Submitting'' @ ellipsis else ''Submit Job'',
         jv_submitting v \<or> \<not> is_truthy (jv_submitQueue v))
       else None)\<rparr>"

section \<open>Queues\<close>

record queues_face =
  qf_new_disabled :: bool
  qf_error :: "string option"
  qf_selector :: "(js \<times> js) list option"
  qf_form :: "(string \<times> bool) option"
  qf_panel :: "queue_row panel"

definition queues_notice :: "queues_view \<Rightarrow> string" where
  "queues_notice v = (if qv_loading v then ''Loading queues'' @ ellipsis
     else ''No queues yet. '' @ (if is_truthy (qv_selectedProject v) then ''Create one above.'' else ''Select a project first.''))"

text \<open>For projects and queues that are arrays.\<close>

definition queues_screen :: "'s web_env \<Rightarrow> js_lib \<Rightarrow> queues_view \<Rightarrow> json list \<Rightarrow> json list \<Rightarrow> queues_face" where
  "queues_screen env lib v ps qs = \<lparr>qf_new_disabled = (\<not> is_truthy (qv_selectedProject v)),
     qf_error = banner (qv_error v),
     qf_selector = (if 1 < length ps then Some (map (\<lambda>p. (get_prop p ''id'', get_prop p ''name'')) ps) else None),
     qf_form = (if qv_showNewQueue v
       then Some (if qv_submitting v then ''Creating'' @ ellipsis else ''Create Queue'', qv_submitting v) else None),
     qf_panel = (if qv_loading v \<or> qs = [] then Notice (queues_notice v)
       else Table (map (render_queue env lib v) qs))\<rparr>"

section \<open>What a visitor of the site sees\<close>

lemma dashboard_blank:
  assumes "routes_documented st" and "not_found_documented st"
  shows "snd (dashboard_handle (site_env st) lib now Interval (v, t)) = (v, t)"
    and "snd (dashboard_handle (site_env st) lib now (Mount False) (v, t)) = (v, t)"
  using pages_without_routes [OF assms, of v t undefined undefined undefined undefined]
  by (simp_all add: bindA_def retA_def)

lemma workers_blank:
  assumes "routes_documented st" and "not_found_documented st"
    and "wv_workers v = Some (JArr [])"
  shows "wv_workers (fst (snd (workers_handle (site_env st) v e (v, t)))) = Some (JArr [])"
proof -
  have load: "loadWorkers (site_env st) u (w, t) = (Inr (), (w\<lparr>wv_error := ''Request failed'', wv_loading := False\<rparr>, t))"
    for u w :: workers_view
    using empty_calls(3) [OF assms(1,2)]
    by (simp add: loadWorkers_def fetching_run bindA_def catchA_def finallyA_def thenA_def set_view_def modifyA_def)
  show ?thesis
    by (cases e) (use assms(3) in \<open>simp_all add: load set_view_def modifyA_def onHeartbeat_def bindA_def the_view_def readA_def
        retA_def\<close>)
qed

text \<open>
  What the site shows: no route of the API answers the dashboard and the page of the workers, and no
  event arrives. However long one looks, the dashboard has no figure and waits for its first
  event, and whatever happens on the page of the workers, it has found none.
\<close>

lemma site_shows_nothing:
  assumes "routes_documented st" and "not_found_documented st"
  shows "dashboard_screen env (fst (dashboard_run (site_env st) lib ((t0, Mount False) # map (\<lambda>t. (t, Interval)) ts)
      (new_dashboard, s))) = dashboard_screen env new_dashboard \<and>
    (\<exists>err. fst (render_workers toFixed lib now (fst (workers_run (site_env st) evs (new_workers_page t0, s'))) ()) =
      Inr \<lparr>wf_active = 0, wf_total = 0, wf_error = err,
        wf_panel = Notice ''No workers found. Workers register automatically when the worker service starts.''\<rparr>)"
proof
  have "fold (\<lambda>(now, e) s. snd (dashboard_handle (site_env st) lib now e s)) (map (\<lambda>t. (t, Interval)) ts) (v, s) = (v, s)" for v
    using dashboard_blank(1) [OF assms] by (induction ts) simp_all
  then show "dashboard_screen env (fst (dashboard_run (site_env st) lib ((t0, Mount False) # map (\<lambda>t. (t, Interval)) ts)
      (new_dashboard, s))) = dashboard_screen env new_dashboard"
    using dashboard_blank(2) [OF assms] by (simp add: dashboard_run_def del: dashboard_handle.simps)
  let ?v = "fst (workers_run (site_env st) evs (new_workers_page t0, s'))"
  have "wv_workers (fst u) = Some (JArr []) \<Longrightarrow> wv_workers (fst (workers_run (site_env st) evs u)) = Some (JArr [])" for u
  proof (induction evs arbitrary: u)
    case (Cons e evs)
    then show ?case using workers_blank [OF assms, of "fst u" e "snd u"] by (simp add: workers_run_def)
  qed (simp add: workers_run_def)
  then have "wv_workers ?v = Some (JArr [])" by (simp add: new_workers_page_def)
  moreover have "\<not> wv_loading ?v" by (rule workers_page_invariant)
  ultimately show "\<exists>err. fst (render_workers toFixed lib now ?v ()) = Inr \<lparr>wf_active = 0, wf_total = 0, wf_error = err,
        wf_panel = Notice ''No workers found. Workers register automatically when the worker service starts.''\<rparr>"
    by (simp add: render_workers_def run_rules active_shown_def workers_notice_def bindA_def retA_def)
qed

lemma site_shows_nothing_witness:
  "\<exists>err. fst (render_workers (\<lambda>_. []) plain_lib 0 (fst (workers_run (site_env sample_site) [Load_workers, Filter_workers ''active'']
      (new_workers_page 0, (visitor, (rbac_world, Map.empty))))) ()) =
    Inr \<lparr>wf_active = 0, wf_total = 0, wf_error = err,
      wf_panel = Notice ''No workers found. Workers register automatically when the worker service starts.''\<rparr>"
  using site_shows_nothing [OF sample_site_documented(1,2), of _ _ 0] by blast

end
